(* ===== verification/Prelude.thy ===== *)
theory Prelude
  imports Main "HOL-Library.Sublist"
begin

section \<open>Shared vocabulary of the development\<close>

text \<open>
  This theory holds what every component theory uses:
  \<^item> the result type of a fallible Go call (\<open>('a, 'e) result\<close>, \<open>Inl\<close> for a non-nil error), and
    the small combinators on results and on calls that thread a world;
  \<^item> the functions of Go's package \<open>strings\<close> that the program calls, on \<^typ>\<open>string\<close>
    (Go strings are byte sequences, and a \<^typ>\<open>char\<close> is a byte);
  \<^item> association-list lemmas used by the stores and caches;
  \<^item> the collections of facts into which the components declare their own.
\<close>

named_theorems frame_simps \<open>what an operation leaves unchanged\<close>
named_theorems call_simps \<open>what one call of an interface returns and stores\<close>

type_synonym Duration = int \<comment> \<open>nanoseconds, as Go's \<open>time.Duration\<close>\<close>
type_synonym Time = int \<comment> \<open>nanoseconds since the zero value of \<open>time.Time\<close>\<close>

type_synonym ('a, 'e) result = "'e + 'a"

text \<open>A call in a world of type \<open>'w\<close>: its outcome and the world after it.\<close>

type_synonym ('w, 'a) call = "'w \<Rightarrow> 'a \<times> 'w"

definition millisecond :: Duration where "millisecond = 1000000"
definition second :: Duration where "second = 1000 * millisecond"
definition minute :: Duration where "minute = 60 * second"

lemmas duration_defs = millisecond_def second_def minute_def

subsection \<open>Go's package strings\<close>

fun strings_Contains :: "string \<Rightarrow> string \<Rightarrow> bool" where
  "strings_Contains [] sub = (sub = [])"
| "strings_Contains (c # cs) sub = (prefix sub (c # cs) \<or> strings_Contains cs sub)"

lemma strings_Contains_iff_sublist: "strings_Contains s sub \<longleftrightarrow> sublist sub s"
proof (induction s)
  case (Cons c cs)
  then show ?case by (simp add: sublist_Cons_right)
qed simp

lemma strings_Contains_append:
  "strings_Contains s sub \<Longrightarrow> strings_Contains (p @ s @ q) sub"
  by (metis strings_Contains_iff_sublist sublist_appendI sublist_order.order.trans)

lemma strings_Contains_refl [simp]: "strings_Contains s s"
  by (simp add: strings_Contains_iff_sublist)

definition strings_Count :: "string \<Rightarrow> char \<Rightarrow> nat" where
  "strings_Count s c = length (filter (\<lambda>x. x = c) s)"

text \<open>The text before and after the first occurrence of a byte.\<close>

definition before_first :: "char \<Rightarrow> string \<Rightarrow> string" where
  "before_first c s = takeWhile (\<lambda>x. x \<noteq> c) s"

definition after_first :: "char \<Rightarrow> string \<Rightarrow> string" where
  "after_first c s = tl (dropWhile (\<lambda>x. x \<noteq> c) s)"

lemma before_after_first: "c \<in> set s \<Longrightarrow> before_first c s @ c # after_first c s = s"
  unfolding before_first_def after_first_def
  by (induction s) auto

lemma before_first_append [simp]: "c \<notin> set a \<Longrightarrow> before_first c (a @ c # b) = a"
  unfolding before_first_def by (subst takeWhile_append2) auto

lemma after_first_append [simp]: "c \<notin> set a \<Longrightarrow> after_first c (a @ c # b) = b"
  unfolding after_first_def by (subst dropWhile_append2) auto

lemma strings_Count_0: "strings_Count s c = 0 \<longleftrightarrow> c \<notin> set s"
  by (auto simp: strings_Count_def filter_empty_conv)

lemma strings_Count_append [simp]:
  "strings_Count (a @ b) c = strings_Count a c + strings_Count b c"
  by (simp add: strings_Count_def)

lemma strings_Count_Cons [simp]:
  "strings_Count (x # b) c = (if x = c then 1 else 0) + strings_Count b c"
  by (simp add: strings_Count_def)

lemma strings_Count_Nil [simp]: "strings_Count [] c = 0"
  by (simp add: strings_Count_def)

text \<open>
  A name made of two parts joined by a separator determines both parts when the first
  part does not contain the separator.
\<close>

lemma join_sep_inject:
  fixes c :: char
  assumes "c \<notin> set a" and "c \<notin> set a'"
  shows "a @ c # b = a' @ c # b' \<longleftrightarrow> a = a' \<and> b = b'"
proof
  assume eq: "a @ c # b = a' @ c # b'"
  then have "before_first c (a @ c # b) = before_first c (a' @ c # b')" by simp
  then have "a = a'" using assms by simp
  with eq show "a = a' \<and> b = b'" by simp
qed simp

text \<open>ASCII lower-casing; the texts it is applied to are the ASCII messages of \<open>net\<close>.\<close>

definition lower_char :: "char \<Rightarrow> char" where
  "lower_char c = (if 65 \<le> (of_char c :: nat) \<and> (of_char c :: nat) \<le> 90
                   then char_of ((of_char c :: nat) + 32) else c)"

definition strings_ToLower :: "string \<Rightarrow> string" where
  "strings_ToLower = map lower_char"

subsection \<open>Association lists\<close>

definition alist_upd :: "'k \<Rightarrow> 'v \<Rightarrow> ('k \<times> 'v) list \<Rightarrow> ('k \<times> 'v) list" where
  "alist_upd k v xs =
     (if map_of xs k = None then xs @ [(k, v)]
      else map (\<lambda>(k', v'). if k' = k then (k, v) else (k', v')) xs)"

definition alist_del :: "'k \<Rightarrow> ('k \<times> 'v) list \<Rightarrow> ('k \<times> 'v) list" where
  "alist_del k xs = filter (\<lambda>(k', v'). k' \<noteq> k) xs"

lemma map_of_alist_del [simp]: "map_of (alist_del k xs) = (map_of xs)(k := None)"
  unfolding alist_del_def by (induction xs) (auto simp: fun_eq_iff)

lemma map_of_map_upd:
  "map_of (map (\<lambda>(k', v'). if k' = k then (k, v) else (k', v')) xs)
   = (if map_of xs k = None then map_of xs else (map_of xs)(k \<mapsto> v))"
  by (induction xs) (auto simp: fun_eq_iff)

lemma map_of_alist_upd [simp]: "map_of (alist_upd k v xs) = (map_of xs)(k \<mapsto> v)"
proof (cases "map_of xs k")
  case None
  then show ?thesis
    by (auto simp: alist_upd_def map_add_def fun_eq_iff split: option.splits)
next
  case (Some x)
  then show ?thesis by (simp add: alist_upd_def map_of_map_upd)
qed

lemma distinct_alist_del [simp]:
  "distinct (map fst xs) \<Longrightarrow> distinct (map fst (alist_del k xs))"
  unfolding alist_del_def by (induction xs) auto

lemma map_fst_map_upd:
  "map fst (map (\<lambda>(k', v'). if k' = k then (k, v) else (k', v')) xs) = map fst xs"
  by (induction xs) auto

lemma distinct_alist_upd [simp]:
  "distinct (map fst xs) \<Longrightarrow> distinct (map fst (alist_upd k v xs))"
  by (auto simp: alist_upd_def map_fst_map_upd map_of_eq_None_iff simp del: map_map)

end
