(* ===== verification/Go_Errors.thy ===== *)
theory Go_Errors
  imports Prelude
begin

section \<open>Errors: the API machinery's predicates and the migrator's retry policy\<close>

text \<open>
  The Go interface \<open>error\<close> is the datatype \<open>error\<close>, one constructor per kind of error value that
  the program can tell apart. A nil error is \<open>None\<close> in \<open>error option\<close>.
  The first half models the predicates of \<open>k8s.io/apimachinery/pkg/api/errors\<close> and
  \<open>pkg/util/net\<close> (vendored in the repository) that the program calls, the second half
  \<open>pkg/migrator/errors.go\<close>: \<open>interpret\<close> and \<open>canRetry\<close>.
\<close>

subsection \<open>Error values\<close>

record StatusDetails =
  sdName :: string
  sdGroup :: string
  sdKind :: string
  sdRetryAfterSeconds :: int

record Status =
  stContinue :: string \<comment> \<open>\<open>ListMeta.Continue\<close>\<close>
  stMessage :: string
  stReason :: string
  stDetails :: "StatusDetails option"
  stCode :: int

text \<open>
  \<^item> \<open>StatusError s\<close>: \<open>*errors.StatusError\<close>, the answer of the API server;
  \<^item> \<open>UrlError op url e\<close>: \<open>*url.Error\<close>, what \<open>net/http\<close> returns for a failed request
    (\<open>url\<close> is the quoted URL of its message);
  \<^item> \<open>Wrapped ty text temp e\<close>: any other error type with an \<open>Unwrap\<close> method, its Go type name, its
    message and what its \<open>Temporary\<close> method says (\<open>None\<close> when it has no such method);
  \<^item> \<open>Errno n text temp\<close>: \<open>syscall.Errno\<close>; \<open>EOF\<close> and \<open>ErrUnexpectedEOF\<close> of package \<open>io\<close>;
  \<^item> \<open>NoRoutesError\<close>: the private type \<open>noRoutesError\<close> of \<open>util/net\<close>;
  \<^item> \<open>ErrGroupDiscoveryFailed\<close>: of \<open>client-go/discovery\<close>, with the groups that failed;
  \<^item> \<open>ErrorString text\<close>: what \<open>errors.New\<close> and \<open>fmt.Errorf\<close> without \<open>%w\<close> return;
  \<^item> \<open>Aggregate es\<close>: \<open>utilerrors.NewAggregate\<close>;
  \<^item> \<open>ErrWaitTimeout\<close>: the sentinel of package \<open>wait\<close>;
  \<^item> \<open>ErrRetriable e\<close>, \<open>ErrNotRetriable e\<close>: the wrappers of \<open>pkg/migrator/errors.go\<close>, which embed
    the interface \<open>error\<close> and so have no \<open>Unwrap\<close> method;
  \<^item> \<open>OtherError ty text temp\<close>: any other error type.
\<close>

datatype error =
    StatusError Status
  | UrlError string string error
  | Wrapped string string "bool option" error
  | Errno int string bool
  | EOF
  | ErrUnexpectedEOF
  | NoRoutesError string
  | ErrGroupDiscoveryFailed "string list"
  | ErrorString string
  | Aggregate "error list"
  | ErrWaitTimeout
  | ErrRetriable error
  | ErrNotRetriable error
  | OtherError string string "bool option"

text \<open>
  \<open>Error()\<close>: the message of an error. An aggregate prints the distinct messages of its (nested)
  members in order of first occurrence, in brackets when there are several.
  (\<open>NewAggregate\<close> never builds an empty aggregate; here its message is empty.)
\<close>

fun join_comma :: "string list \<Rightarrow> string" where
  "join_comma [] = []"
| "join_comma [x] = x"
| "join_comma (x # y # xs) = x @ '', '' @ join_comma (y # xs)"

definition render_messages :: "string list \<Rightarrow> string" where
  "render_messages ms =
     (case rev (remdups (rev ms)) of
        [] \<Rightarrow> []
      | [m] \<Rightarrow> m
      | ds \<Rightarrow> ''['' @ join_comma ds @ '']'')"

fun messages :: "error \<Rightarrow> string list" where
  "messages (StatusError s) = [stMessage s]"
| "messages (UrlError op url e) = [op @ '' '' @ url @ '': '' @ render_messages (messages e)]"
| "messages (Wrapped ty text temp e) = [text]"
| "messages (Errno n text temp) = [text]"
| "messages EOF = [''EOF'']"
| "messages ErrUnexpectedEOF = [''unexpected EOF'']"
| "messages (NoRoutesError text) = [text]"
| "messages (ErrGroupDiscoveryFailed gs) =
     [''unable to retrieve the complete list of server APIs: '' @ join_comma gs]"
| "messages (ErrorString text) = [text]"
| "messages (Aggregate es) = concat (map messages es)"
| "messages ErrWaitTimeout = [''timed out waiting for the condition'']"
| "messages (ErrRetriable e) = [render_messages (messages e)]"
| "messages (ErrNotRetriable e) = [render_messages (messages e)]"
| "messages (OtherError ty text temp) = [text]"

definition Error :: "error \<Rightarrow> string" where
  "Error e = render_messages (messages e)"

lemma render_single [simp]: "render_messages [m] = m"
  by (simp add: render_messages_def)

lemma Error_simps [simp]:
  "Error (StatusError s) = stMessage s"
  "Error (UrlError op url e) = op @ '' '' @ url @ '': '' @ Error e"
  "Error (Wrapped ty text temp e) = text"
  "Error (Errno n text tmp) = text"
  "Error EOF = ''EOF''"
  "Error ErrUnexpectedEOF = ''unexpected EOF''"
  "Error (NoRoutesError text) = text"
  "Error (ErrorString text) = text"
  "Error (Aggregate [e]) = Error e"
  "Error ErrWaitTimeout = ''timed out waiting for the condition''"
  "Error (ErrRetriable e) = Error e"
  "Error (ErrNotRetriable e) = Error e"
  "Error (OtherError ty text temp) = text"
  by (simp_all add: Error_def)

text \<open>\<open>reflect.TypeOf(err)\<close> as it is printed in messages.\<close>

fun TypeOf :: "error \<Rightarrow> string" where
  "TypeOf (StatusError s) = ''*errors.StatusError''"
| "TypeOf (UrlError op url e) = ''*url.Error''"
| "TypeOf (Wrapped ty text temp e) = ty"
| "TypeOf (Errno n text temp) = ''syscall.Errno''"
| "TypeOf EOF = ''*errors.errorString''"
| "TypeOf ErrUnexpectedEOF = ''*errors.errorString''"
| "TypeOf (NoRoutesError text) = ''net.noRoutesError''"
| "TypeOf (ErrGroupDiscoveryFailed gs) = ''*discovery.ErrGroupDiscoveryFailed''"
| "TypeOf (ErrorString text) = ''*errors.errorString''"
| "TypeOf (Aggregate es) = ''errors.aggregate''"
| "TypeOf ErrWaitTimeout = ''wait.errInterrupted''"
| "TypeOf (ErrRetriable e) = ''migrator.ErrRetriable''"
| "TypeOf (ErrNotRetriable e) = ''migrator.ErrNotRetriable''"
| "TypeOf (OtherError ty text temp) = ty"

text \<open>\<open>utilerrors.NewAggregate\<close> on a list of non-nil errors.\<close>

definition NewAggregate :: "error list \<Rightarrow> error option" where
  "NewAggregate errlist = (if errlist = [] then None else Some (Aggregate errlist))"

lemma NewAggregate_None [simp]: "NewAggregate errs = None \<longleftrightarrow> errs = []"
  by (simp add: NewAggregate_def)

subsection \<open>API status of an error\<close>

text \<open>
  \<open>err.(APIStatus)\<close> succeeds on a \<open>*errors.StatusError\<close> only; \<open>errors.As\<close> follows the chain of
  \<open>Unwrap\<close> methods.
\<close>

fun assertAPIStatus :: "error \<Rightarrow> Status option" where
  "assertAPIStatus (StatusError s) = Some s"
| "assertAPIStatus e = None"

fun asAPIStatus :: "error \<Rightarrow> Status option" where
  "asAPIStatus (StatusError s) = Some s"
| "asAPIStatus (UrlError op url e) = asAPIStatus e"
| "asAPIStatus (Wrapped ty text temp e) = asAPIStatus e"
| "asAPIStatus e = None"

definition knownReasons :: "string list" where
  "knownReasons =
     [''Unauthorized'', ''Forbidden'', ''NotFound'', ''AlreadyExists'', ''Conflict'', ''Gone'',
      ''Invalid'', ''ServerTimeout'', ''Timeout'', ''TooManyRequests'', ''BadRequest'',
      ''MethodNotAllowed'', ''NotAcceptable'', ''RequestEntityTooLarge'',
      ''UnsupportedMediaType'', ''InternalError'', ''Expired'', ''ServiceUnavailable'']"

definition reasonAndCodeForError :: "error option \<Rightarrow> string \<times> int" where
  "reasonAndCodeForError err =
     (case Option.bind err asAPIStatus of
        Some s \<Rightarrow> (stReason s, stCode s)
      | None \<Rightarrow> ([], 0))"

definition ReasonForError :: "error option \<Rightarrow> string" where
  "ReasonForError err =
     (case Option.bind err asAPIStatus of Some s \<Rightarrow> stReason s | None \<Rightarrow> [])"

definition IsNotFound :: "error option \<Rightarrow> bool" where
  "IsNotFound err =
     (let (reason, code) = reasonAndCodeForError err in
      reason = ''NotFound'' \<or> (reason \<notin> set knownReasons \<and> code = 404))"

definition IsAlreadyExists :: "error option \<Rightarrow> bool" where
  "IsAlreadyExists err = (ReasonForError err = ''AlreadyExists'')"

definition IsConflict :: "error option \<Rightarrow> bool" where
  "IsConflict err =
     (let (reason, code) = reasonAndCodeForError err in
      reason = ''Conflict'' \<or> (reason \<notin> set knownReasons \<and> code = 409))"

definition IsResourceExpired :: "error option \<Rightarrow> bool" where
  "IsResourceExpired err = (ReasonForError err = ''Expired'')"

definition IsMethodNotSupported :: "error option \<Rightarrow> bool" where
  "IsMethodNotSupported err =
     (let (reason, code) = reasonAndCodeForError err in
      reason = ''MethodNotAllowed'' \<or> (reason \<notin> set knownReasons \<and> code = 405))"

definition IsServerTimeout :: "error option \<Rightarrow> bool" where
  "IsServerTimeout err = (ReasonForError err = ''ServerTimeout'')"

definition IsTooManyRequests :: "error option \<Rightarrow> bool" where
  "IsTooManyRequests err =
     (let (reason, code) = reasonAndCodeForError err in
      reason = ''TooManyRequests'' \<or> code = 429)"

text \<open>The suggested delay in seconds, and whether there is one.\<close>

definition SuggestsClientDelay :: "error option \<Rightarrow> int \<times> bool" where
  "SuggestsClientDelay err =
     (case Option.bind err asAPIStatus of
        None \<Rightarrow> (0, False)
      | Some s \<Rightarrow>
          (case stDetails s of
             None \<Rightarrow> (0, False)
           | Some d \<Rightarrow>
               if stReason s = ''ServerTimeout'' then (sdRetryAfterSeconds d, True)
               else if sdRetryAfterSeconds d > 0 then (sdRetryAfterSeconds d, True)
               else (0, False)))"

lemmas api_error_defs =
  IsNotFound_def IsAlreadyExists_def IsConflict_def IsResourceExpired_def
  IsMethodNotSupported_def IsServerTimeout_def IsTooManyRequests_def
  reasonAndCodeForError_def ReasonForError_def knownReasons_def

lemma asAPIStatus_assert: "assertAPIStatus e = Some s \<Longrightarrow> asAPIStatus e = Some s"
  by (cases e) auto

lemma not_status_api [simp]:
  assumes "asAPIStatus e = None"
  shows "\<not> IsNotFound (Some e)" "\<not> IsAlreadyExists (Some e)" "\<not> IsConflict (Some e)"
    "\<not> IsResourceExpired (Some e)" "\<not> IsMethodNotSupported (Some e)"
    "\<not> IsServerTimeout (Some e)" "\<not> IsTooManyRequests (Some e)"
    "SuggestsClientDelay (Some e) = (0, False)"
  using assms by (simp_all add: api_error_defs SuggestsClientDelay_def)

lemma nil_api [simp]:
  "\<not> IsNotFound None" "\<not> IsAlreadyExists None" "\<not> IsConflict None" "\<not> IsResourceExpired None"
  "\<not> IsMethodNotSupported None" "\<not> IsServerTimeout None" "\<not> IsTooManyRequests None"
  by (simp_all add: api_error_defs)

lemma ReasonForError_fst: "ReasonForError err = fst (reasonAndCodeForError err)"
  by (simp add: ReasonForError_def reasonAndCodeForError_def split: option.splits)

text \<open>The predicates that go by the reason exclude one another.\<close>

lemma api_reasons_exclusive:
  "IsNotFound err \<Longrightarrow> \<not> IsConflict err"
  "IsNotFound err \<Longrightarrow> \<not> IsMethodNotSupported err"
  "IsNotFound err \<Longrightarrow> \<not> IsResourceExpired err"
  "IsConflict err \<Longrightarrow> \<not> IsMethodNotSupported err"
  "IsConflict err \<Longrightarrow> \<not> IsResourceExpired err"
  "IsMethodNotSupported err \<Longrightarrow> \<not> IsResourceExpired err"
  unfolding IsResourceExpired_def ReasonForError_fst
  by (cases "reasonAndCodeForError err",
      auto simp: IsNotFound_def IsConflict_def IsMethodNotSupported_def knownReasons_def)+

subsection \<open>Constructors of API errors\<close>

definition NewNotFound :: "string \<Rightarrow> string \<Rightarrow> string \<Rightarrow> error" where
  "NewNotFound grp resource name =
     StatusError \<lparr>stContinue = [],
       stMessage = (if grp = [] then resource else resource @ ''.'' @ grp)
                   @ '' \"'' @ name @ ''\" not found'',
       stReason = ''NotFound'',
       stDetails = Some \<lparr>sdName = name, sdGroup = grp, sdKind = resource,
                         sdRetryAfterSeconds = 0\<rparr>,
       stCode = 404\<rparr>"

definition NewAlreadyExists :: "string \<Rightarrow> string \<Rightarrow> string \<Rightarrow> error" where
  "NewAlreadyExists grp resource name =
     StatusError \<lparr>stContinue = [],
       stMessage = (if grp = [] then resource else resource @ ''.'' @ grp)
                   @ '' \"'' @ name @ ''\" already exists'',
       stReason = ''AlreadyExists'',
       stDetails = Some \<lparr>sdName = name, sdGroup = grp, sdKind = resource,
                         sdRetryAfterSeconds = 0\<rparr>,
       stCode = 409\<rparr>"

definition NewBadRequest :: "string \<Rightarrow> error" where
  "NewBadRequest reason =
     StatusError \<lparr>stContinue = [], stMessage = reason, stReason = ''BadRequest'',
                  stDetails = None, stCode = 400\<rparr>"

definition NewMethodNotSupported :: "string \<Rightarrow> string \<Rightarrow> string \<Rightarrow> error" where
  "NewMethodNotSupported grp resource action =
     StatusError \<lparr>stContinue = [],
       stMessage = action @ '' is not supported on resources of kind \"''
                   @ (if grp = [] then resource else resource @ ''.'' @ grp) @ ''\"'',
       stReason = ''MethodNotAllowed'',
       stDetails = Some \<lparr>sdName = [], sdGroup = grp, sdKind = resource, sdRetryAfterSeconds = 0\<rparr>,
       stCode = 405\<rparr>"

lemma IsNotFound_NewNotFound [simp]: "IsNotFound (Some (NewNotFound g r n))"
  by (simp add: NewNotFound_def api_error_defs)

lemma new_errors_not_NotFound [simp]:
  "\<not> IsNotFound (Some (NewAlreadyExists g r n))" "\<not> IsNotFound (Some (NewBadRequest t))"
  by (simp_all add: NewAlreadyExists_def NewBadRequest_def api_error_defs)

lemma IsConflict_NewAlreadyExists [simp]: "\<not> IsConflict (Some (NewAlreadyExists g r n))"
  by (simp add: NewAlreadyExists_def api_error_defs)

subsection \<open>Network predicates\<close>

text \<open>The first \<open>*url.Error\<close> of the chain, as \<open>errors.As(err, &uerr)\<close> finds it: what it wraps.\<close>

fun asUrlError :: "error \<Rightarrow> error option" where
  "asUrlError (UrlError op url e) = Some e"
| "asUrlError (Wrapped ty text temp e) = asUrlError e"
| "asUrlError e = None"

definition IsProbableEOF :: "error option \<Rightarrow> bool" where
  "IsProbableEOF err =
     (case err of
        None \<Rightarrow> False
      | Some e0 \<Rightarrow>
          (let e = (case asUrlError e0 of Some e1 \<Rightarrow> e1 | None \<Rightarrow> e0); msg = Error e in
           e = EOF \<or> e = ErrUnexpectedEOF
           \<or> msg = ''http: can'' @ [CHR 0x27] @ ''t write HTTP request on broken connection''
           \<or> strings_Contains msg ''http2: server sent GOAWAY and closed the connection''
           \<or> strings_Contains msg ''connection reset by peer''
           \<or> strings_Contains (strings_ToLower msg) ''use of closed network connection''))"

fun asErrno :: "error \<Rightarrow> int option" where
  "asErrno (Errno n text temp) = Some n"
| "asErrno (UrlError op url e) = asErrno e"
| "asErrno (Wrapped ty text temp e) = asErrno e"
| "asErrno e = None"

definition ECONNRESET :: int where "ECONNRESET = 104"

definition IsConnectionReset :: "error option \<Rightarrow> bool" where
  "IsConnectionReset err = (Option.bind err asErrno = Some ECONNRESET)"

fun IsNoRoutesError :: "error option \<Rightarrow> bool" where
  "IsNoRoutesError (Some (NoRoutesError text)) = True"
| "IsNoRoutesError err = False"

subsection \<open>pkg/migrator/errors.go\<close>

text \<open>
  The \<open>Temporary\<close> method of an error value, \<open>None\<close> when its type has none. The two wrappers of the
  migrator have one; so have \<open>*url.Error\<close> (it asks the error it wraps, and answers false when that
  one has no such method) and \<open>syscall.Errno\<close>.
\<close>

fun Temporary :: "error \<Rightarrow> bool option" where
  "Temporary (ErrRetriable e) = Some True"
| "Temporary (ErrNotRetriable e) = Some False"
| "Temporary (UrlError op url e) = Some (Temporary e = Some True)"
| "Temporary (Wrapped ty text temp e) = temp"
| "Temporary (Errno n text temp) = Some temp"
| "Temporary (OtherError ty text temp) = temp"
| "Temporary e = None"

definition isConnectionRefusedError :: "error \<Rightarrow> bool" where
  "isConnectionRefusedError err = strings_Contains (Error err) ''connection refused''"

definition interpret_error :: "error option \<Rightarrow> error option" where
  "interpret_error err =
     (case err of
        None \<Rightarrow> None
      | Some e \<Rightarrow>
          if IsNotFound err then None
          else if IsMethodNotSupported err then Some (ErrNotRetriable e)
          else if IsConflict err then Some (ErrRetriable e)
          else if IsServerTimeout err then Some (ErrRetriable e)
          else if IsTooManyRequests err then Some (ErrRetriable e)
          else if IsProbableEOF err then Some (ErrRetriable e)
          else if IsConnectionReset err then Some (ErrRetriable e)
          else if IsNoRoutesError err then Some (ErrRetriable e)
          else if isConnectionRefusedError e then Some (ErrRetriable e)
          else Some e)"

definition canRetry :: "error option \<Rightarrow> bool" where
  "canRetry err =
     (case interpret_error err of
        None \<Rightarrow> True
      | Some e \<Rightarrow> Temporary e \<noteq> Some False)"

lemma canRetry_nil [simp]: "canRetry None"
  by (simp add: canRetry_def interpret_error_def)

lemma canRetry_NotFound: "IsNotFound err \<Longrightarrow> canRetry err"
  by (auto simp: canRetry_def interpret_error_def split: option.splits)

lemma canRetry_MethodNotSupported: "IsMethodNotSupported err \<Longrightarrow> \<not> canRetry err"
  by (cases err) (auto simp: canRetry_def interpret_error_def dest: api_reasons_exclusive(2))

lemma canRetry_Conflict: "IsConflict err \<Longrightarrow> canRetry err"
  by (auto simp: canRetry_def interpret_error_def split: option.splits
           dest: api_reasons_exclusive(4))

lemma canRetry_status:
  "\<not> IsMethodNotSupported (Some (StatusError s)) \<Longrightarrow> canRetry (Some (StatusError s))"
  by (auto simp: canRetry_def interpret_error_def)

text \<open>
  The retry policy for answers of the API server: an error value that is a
  \<open>*errors.StatusError\<close> is retried unless it says that the method is not supported. In particular
  Forbidden, Invalid, BadRequest and every unknown reason are retried, not only the reasons
  for which \<open>interpret\<close> adds the marker \<open>ErrRetriable\<close>.
\<close>

lemma canRetry_StatusError:
  "canRetry (Some (StatusError s)) \<longleftrightarrow> \<not> IsMethodNotSupported (Some (StatusError s))"
proof (cases "IsMethodNotSupported (Some (StatusError s))")
  case True
  then show ?thesis using canRetry_MethodNotSupported by blast
next
  case False
  then show ?thesis using canRetry_status by blast
qed


end
