(* ===== verification/Api_Types.thy ===== *)
theory Api_Types
  imports Go_Errors
begin

section \<open>The API types of the migration group\<close>

text \<open>
  The structs of \<open>pkg/apis/migration/v1alpha1/types.go\<close> as records, with the Go field name after a
  prefix that names the struct (record fields are global names), the constants and functions
  of \<open>register.go\<close>, and the vendored \<open>schema\<close> package's group/version/resource names.
  Of \<open>metav1.ObjectMeta\<close> the fields are those that the program or the API server's optimistic
  locking reads or writes: name, generateName, namespace, uid, resourceVersion, labels,
  annotations; the other fields pass through the program unread.
\<close>

subsection \<open>Names of the vendored package schema\<close>

record GroupVersion =
  gvGroup :: string
  gvVersion :: string

record SchemaGVR = \<comment> \<open>\<open>schema.GroupVersionResource\<close>\<close>
  sgvrGroup :: string
  sgvrVersion :: string
  sgvrResource :: string

record SchemaGroupResource =
  sgrGroup :: string
  sgrResource :: string

definition SchemaGVR_String :: "SchemaGVR \<Rightarrow> string" where
  "SchemaGVR_String gvr =
     sgvrGroup gvr @ ''/'' @ sgvrVersion gvr @ '', Resource='' @ sgvrResource gvr"

definition WithResource :: "GroupVersion \<Rightarrow> string \<Rightarrow> SchemaGVR" where
  "WithResource gv r = \<lparr>sgvrGroup = gvGroup gv, sgvrVersion = gvVersion gv, sgvrResource = r\<rparr>"

definition gvr_GroupResource :: "SchemaGVR \<Rightarrow> SchemaGroupResource" where
  "gvr_GroupResource gvr = \<lparr>sgrGroup = sgvrGroup gvr, sgrResource = sgvrResource gvr\<rparr>"

abbreviation slash :: char where "slash \<equiv> CHR ''/''"

definition ParseGroupVersion :: "string \<Rightarrow> (GroupVersion, error) result" where
  "ParseGroupVersion gv =
     (if gv = [] \<or> gv = ''/'' then Inr \<lparr>gvGroup = [], gvVersion = []\<rparr>
      else if strings_Count gv slash = 0 then Inr \<lparr>gvGroup = [], gvVersion = gv\<rparr>
      else if strings_Count gv slash = 1
           then Inr \<lparr>gvGroup = before_first slash gv, gvVersion = after_first slash gv\<rparr>
      else Inl (ErrorString (''unexpected GroupVersion string: '' @ gv)))"

text \<open>\<open>GroupVersion.String\<close>: the printed form of a group and version.\<close>

definition GroupVersion_String :: "GroupVersion \<Rightarrow> string" where
  "GroupVersion_String gv =
     (if gvGroup gv \<noteq> [] then gvGroup gv @ ''/'' @ gvVersion gv else gvVersion gv)"

lemma ParseGroupVersion_String_aux:
  assumes "slash \<notin> set (gvGroup gv)" and "slash \<notin> set (gvVersion gv)"
  shows "ParseGroupVersion (GroupVersion_String gv) = Inr gv"
proof (cases "gvGroup gv = []")
  case True
  with assms show ?thesis
    by (cases gv) (auto simp: ParseGroupVersion_def GroupVersion_String_def strings_Count_0)
next
  case False
  with assms show ?thesis
    by (cases gv)
      (auto simp: ParseGroupVersion_def GroupVersion_String_def append_eq_Cons_conv
         strings_Count_0 [THEN iffD2])
qed

subsection \<open>Object metadata\<close>

record TypeMeta =
  tmKind :: string
  tmAPIVersion :: string

record ObjectMeta =
  omName :: string
  omGenerateName :: string
  omNamespace :: string
  omUID :: string
  omResourceVersion :: string
  omLabels :: "(string \<times> string) list"
  omAnnotations :: "(string \<times> string) list"

definition zeroTypeMeta :: TypeMeta where
  "zeroTypeMeta = \<lparr>tmKind = [], tmAPIVersion = []\<rparr>"

definition zeroObjectMeta :: ObjectMeta where
  "zeroObjectMeta =
     \<lparr>omName = [], omGenerateName = [], omNamespace = [], omUID = [], omResourceVersion = [],
      omLabels = [], omAnnotations = []\<rparr>"

subsection \<open>types.go: StorageVersionMigration\<close>

record GroupVersionResource =
  gvrGroup :: string
  gvrVersion :: string
  gvrResource :: string

record StorageVersionMigrationSpec =
  specResource :: GroupVersionResource
  specContinueToken :: string

type_synonym MigrationConditionType = string

definition MigrationRunning :: MigrationConditionType where
  "MigrationRunning = ''Running''"
definition MigrationSucceeded :: MigrationConditionType where
  "MigrationSucceeded = ''Succeeded''"
definition MigrationFailed :: MigrationConditionType where
  "MigrationFailed = ''Failed''"

lemmas condition_type_defs = MigrationRunning_def MigrationSucceeded_def MigrationFailed_def

lemma condition_types_distinct [simp]:
  "MigrationRunning \<noteq> MigrationSucceeded" "MigrationSucceeded \<noteq> MigrationRunning"
  "MigrationRunning \<noteq> MigrationFailed" "MigrationFailed \<noteq> MigrationRunning"
  "MigrationSucceeded \<noteq> MigrationFailed" "MigrationFailed \<noteq> MigrationSucceeded"
  by (simp_all add: condition_type_defs)

text \<open>\<open>corev1.ConditionStatus\<close> is a string type; the program only uses \<open>ConditionTrue\<close>.\<close>

definition ConditionTrue :: string where "ConditionTrue = ''True''"

record MigrationCondition =
  mcType :: MigrationConditionType
  mcStatus :: string
  mcLastUpdateTime :: Time
  mcReason :: string
  mcMessage :: string

record StorageVersionMigrationStatus =
  smConditions :: "MigrationCondition list"

record StorageVersionMigration =
  svmTypeMeta :: TypeMeta
  svmMeta :: ObjectMeta
  svmSpec :: StorageVersionMigrationSpec
  svmStatus :: StorageVersionMigrationStatus

abbreviation svmName :: "StorageVersionMigration \<Rightarrow> string" where
  "svmName m \<equiv> omName (svmMeta m)"

abbreviation svmConditions :: "StorageVersionMigration \<Rightarrow> MigrationCondition list" where
  "svmConditions m \<equiv> smConditions (svmStatus m)"

abbreviation svmResource :: "StorageVersionMigration \<Rightarrow> GroupVersionResource" where
  "svmResource m \<equiv> specResource (svmSpec m)"

subsection \<open>types.go: StorageState\<close>

record GroupResource =
  grGroup :: string
  grResource :: string

record StorageStateSpec =
  ssSpecResource :: GroupResource

definition Unknown :: string where "Unknown = ''Unknown''"

record StorageStateStatus =
  PersistedStorageVersionHashes :: "string list"
  CurrentStorageVersionHash :: string
  LastHeartbeatTime :: Time

record StorageState =
  ssTypeMeta :: TypeMeta
  ssMeta :: ObjectMeta
  ssSpec :: StorageStateSpec
  ssStatus :: StorageStateStatus

abbreviation ssName :: "StorageState \<Rightarrow> string" where
  "ssName s \<equiv> omName (ssMeta s)"

definition zeroTime :: Time where "zeroTime = 0"

definition zeroStorageStateStatus :: StorageStateStatus where
  "zeroStorageStateStatus =
     \<lparr>PersistedStorageVersionHashes = [], CurrentStorageVersionHash = [],
      LastHeartbeatTime = zeroTime\<rparr>"

subsection \<open>types.go: the lists\<close>

record ListMeta =
  lmResourceVersion :: string
  lmContinue :: string
  lmRemainingItemCount :: "int option"

record StorageVersionMigrationList =
  vlTypeMeta :: TypeMeta
  vlListMeta :: ListMeta
  vlItems :: "StorageVersionMigration list"

record StorageStateList =
  slTypeMeta :: TypeMeta
  slListMeta :: ListMeta
  slItems :: "StorageState list"

subsection \<open>register.go\<close>

definition GroupName :: string where "GroupName = ''migration.k8s.io''"

definition SchemeGroupVersion :: GroupVersion where
  "SchemeGroupVersion = \<lparr>gvGroup = GroupName, gvVersion = ''v1alpha1''\<rparr>"

definition Resource :: "string \<Rightarrow> SchemaGroupResource" where
  "Resource r = gvr_GroupResource (WithResource SchemeGroupVersion r)"

end
