(* ===== verification/Json_Codec.thy ===== *)
theory Json_Codec
  imports Api_Types "HOL-Library.Monad_Syntax"
begin

section \<open>The JSON form of the API objects\<close>

text \<open>
  What \<open>encoding/json\<close> makes of the structs of \<open>pkg/apis/migration/v1alpha1/types.go\<close>: the tags of the
  fields give the keys and say which fields are left out when they are empty. The REST client
  sends objects in this form and reads them back from the answers of the server.
\<close>

subsection \<open>Encoding\<close>

datatype json = JNull | JBool bool | JInt int | JStr string | JArr "json list" | JObj "(string \<times> json) list"

text \<open>A string field with \<open>omitempty\<close>.\<close>

definition omitempty :: "string \<Rightarrow> string \<Rightarrow> (string \<times> json) list" where
  "omitempty k s = (if s = [] then [] else [(k, JStr s)])"

text \<open>\<open>metav1.Time\<close> prints null for its zero value; \<open>fmt\<close> is the RFC 3339 form of the others.\<close>

definition timeJSON :: "(Time \<Rightarrow> string) \<Rightarrow> Time \<Rightarrow> json" where
  "timeJSON fmt t = (if t = zeroTime then JNull else JStr (fmt t))"

definition conditionJSON :: "(Time \<Rightarrow> string) \<Rightarrow> MigrationCondition \<Rightarrow> json" where
  "conditionJSON fmt c = JObj
     ([(''type'', JStr (mcType c)), (''status'', JStr (mcStatus c)),
       (''lastUpdateTime'', timeJSON fmt (mcLastUpdateTime c))]
      @ omitempty ''reason'' (mcReason c) @ omitempty ''message'' (mcMessage c))"

definition resourceJSON :: "GroupVersionResource \<Rightarrow> json" where
  "resourceJSON r = JObj
     (omitempty ''group'' (gvrGroup r) @ omitempty ''version'' (gvrVersion r) @
      omitempty ''resource'' (gvrResource r))"

definition specJSON :: "StorageVersionMigrationSpec \<Rightarrow> json" where
  "specJSON s = JObj
     ((''resource'', resourceJSON (specResource s)) # omitempty ''continueToken'' (specContinueToken s))"

definition statusJSON :: "(Time \<Rightarrow> string) \<Rightarrow> StorageVersionMigrationStatus \<Rightarrow> json" where
  "statusJSON fmt s = JObj
     (if smConditions s = [] then []
      else [(''conditions'', JArr (map (conditionJSON fmt) (smConditions s)))])"

text \<open>A map of strings with \<open>omitempty\<close>; the fields of \<open>ObjectMeta\<close> the model has.\<close>

definition stringMapJSON :: "string \<Rightarrow> (string \<times> string) list \<Rightarrow> (string \<times> json) list" where
  "stringMapJSON k m = (if m = [] then [] else [(k, JObj (map (map_prod id JStr) m))])"

definition metaJSON :: "ObjectMeta \<Rightarrow> json" where
  "metaJSON om = JObj
     (omitempty ''name'' (omName om) @ omitempty ''generateName'' (omGenerateName om) @
      omitempty ''namespace'' (omNamespace om) @ omitempty ''uid'' (omUID om) @
      omitempty ''resourceVersion'' (omResourceVersion om) @
      stringMapJSON ''labels'' (omLabels om) @ stringMapJSON ''annotations'' (omAnnotations om))"

definition migrationJSON :: "(Time \<Rightarrow> string) \<Rightarrow> StorageVersionMigration \<Rightarrow> json" where
  "migrationJSON fmt m = JObj
     (omitempty ''kind'' (tmKind (svmTypeMeta m)) @ omitempty ''apiVersion'' (tmAPIVersion (svmTypeMeta m)) @
      [(''metadata'', metaJSON (svmMeta m)), (''spec'', specJSON (svmSpec m)),
       (''status'', statusJSON fmt (svmStatus m))])"

definition groupResourceJSON :: "GroupResource \<Rightarrow> json" where
  "groupResourceJSON r = JObj (omitempty ''group'' (grGroup r) @ omitempty ''resource'' (grResource r))"

definition stateSpecJSON :: "StorageStateSpec \<Rightarrow> json" where
  "stateSpecJSON s = JObj [(''resource'', groupResourceJSON (ssSpecResource s))]"

definition stateStatusJSON :: "(Time \<Rightarrow> string) \<Rightarrow> StorageStateStatus \<Rightarrow> json" where
  "stateStatusJSON fmt s = JObj
     ((if PersistedStorageVersionHashes s = [] then []
       else [(''persistedStorageVersionHashes'', JArr (map JStr (PersistedStorageVersionHashes s)))])
      @ omitempty ''currentStorageVersionHash'' (CurrentStorageVersionHash s)
      @ [(''lastHeartbeatTime'', timeJSON fmt (LastHeartbeatTime s))])"

definition stateJSON :: "(Time \<Rightarrow> string) \<Rightarrow> StorageState \<Rightarrow> json" where
  "stateJSON fmt s = JObj
     (omitempty ''kind'' (tmKind (ssTypeMeta s)) @ omitempty ''apiVersion'' (tmAPIVersion (ssTypeMeta s)) @
      [(''metadata'', metaJSON (ssMeta s)), (''spec'', stateSpecJSON (ssSpec s)),
       (''status'', stateStatusJSON fmt (ssStatus s))])"

subsection \<open>Decoding\<close>

text \<open>
  A missing field, and null, leave the zero value of the field; a value of another type is an
  error (\<open>None\<close>). Keys the struct does not have are ignored.
\<close>

definition strField :: "string \<Rightarrow> (string \<times> json) list \<Rightarrow> string option" where
  "strField k kvs =
     (case map_of kvs k of None \<Rightarrow> Some [] | Some JNull \<Rightarrow> Some [] | Some (JStr s) \<Rightarrow> Some s | _ \<Rightarrow> None)"

definition objField :: "string \<Rightarrow> (string \<times> json) list \<Rightarrow> (string \<times> json) list option" where
  "objField k kvs =
     (case map_of kvs k of None \<Rightarrow> Some [] | Some JNull \<Rightarrow> Some [] | Some (JObj o') \<Rightarrow> Some o' | _ \<Rightarrow> None)"

definition arrField :: "string \<Rightarrow> (string \<times> json) list \<Rightarrow> json list option" where
  "arrField k kvs =
     (case map_of kvs k of None \<Rightarrow> Some [] | Some JNull \<Rightarrow> Some [] | Some (JArr xs) \<Rightarrow> Some xs | _ \<Rightarrow> None)"

definition timeField :: "(string \<Rightarrow> Time option) \<Rightarrow> string \<Rightarrow> (string \<times> json) list \<Rightarrow> Time option" where
  "timeField parse k kvs =
     (case map_of kvs k of
        None \<Rightarrow> Some zeroTime | Some JNull \<Rightarrow> Some zeroTime | Some (JStr s) \<Rightarrow> parse s | _ \<Rightarrow> None)"

fun those_strings :: "json list \<Rightarrow> string list option" where
  "those_strings [] = Some []"
| "those_strings (JStr s # xs) = map_option (Cons s) (those_strings xs)"
| "those_strings (x # xs) = None"

fun those_pairs :: "(string \<times> json) list \<Rightarrow> (string \<times> string) list option" where
  "those_pairs [] = Some []"
| "those_pairs ((k, JStr s) # xs) = map_option (Cons (k, s)) (those_pairs xs)"
| "those_pairs (x # xs) = None"

definition metaOfJSON :: "(string \<times> json) list \<Rightarrow> ObjectMeta option" where
  "metaOfJSON o' =
     do { n \<leftarrow> strField ''name'' o'; g \<leftarrow> strField ''generateName'' o'; ns \<leftarrow> strField ''namespace'' o';
          u \<leftarrow> strField ''uid'' o'; rv \<leftarrow> strField ''resourceVersion'' o';
          l \<leftarrow> Option.bind (objField ''labels'' o') those_pairs;
          a \<leftarrow> Option.bind (objField ''annotations'' o') those_pairs;
          Some \<lparr>omName = n, omGenerateName = g, omNamespace = ns, omUID = u, omResourceVersion = rv,
                omLabels = l, omAnnotations = a\<rparr> }"

fun conditionOfJSON :: "(string \<Rightarrow> Time option) \<Rightarrow> json \<Rightarrow> MigrationCondition option" where
  "conditionOfJSON parse (JObj o') =
     do { t \<leftarrow> strField ''type'' o'; st \<leftarrow> strField ''status'' o';
          u \<leftarrow> timeField parse ''lastUpdateTime'' o';
          r \<leftarrow> strField ''reason'' o'; msg \<leftarrow> strField ''message'' o';
          Some \<lparr>mcType = t, mcStatus = st, mcLastUpdateTime = u, mcReason = r, mcMessage = msg\<rparr> }"
| "conditionOfJSON parse x = None"

definition resourceOfJSON :: "(string \<times> json) list \<Rightarrow> GroupVersionResource option" where
  "resourceOfJSON o' =
     do { g \<leftarrow> strField ''group'' o'; v \<leftarrow> strField ''version'' o'; r \<leftarrow> strField ''resource'' o';
          Some \<lparr>gvrGroup = g, gvrVersion = v, gvrResource = r\<rparr> }"

definition migrationOfJSON :: "(string \<Rightarrow> Time option) \<Rightarrow> (string \<times> json) list \<Rightarrow> StorageVersionMigration option" where
  "migrationOfJSON parse o' =
     do { k \<leftarrow> strField ''kind'' o'; v \<leftarrow> strField ''apiVersion'' o';
          om \<leftarrow> Option.bind (objField ''metadata'' o') metaOfJSON;
          sp \<leftarrow> objField ''spec'' o'; r \<leftarrow> Option.bind (objField ''resource'' sp) resourceOfJSON;
          tok \<leftarrow> strField ''continueToken'' sp;
          st \<leftarrow> objField ''status'' o'; cs \<leftarrow> arrField ''conditions'' st;
          conds \<leftarrow> those (map (conditionOfJSON parse) cs);
          Some \<lparr>svmTypeMeta = \<lparr>tmKind = k, tmAPIVersion = v\<rparr>, svmMeta = om,
                svmSpec = \<lparr>specResource = r, specContinueToken = tok\<rparr>,
                svmStatus = \<lparr>smConditions = conds\<rparr>\<rparr> }"

definition stateOfJSON :: "(string \<Rightarrow> Time option) \<Rightarrow> (string \<times> json) list \<Rightarrow> StorageState option" where
  "stateOfJSON parse o' =
     do { k \<leftarrow> strField ''kind'' o'; v \<leftarrow> strField ''apiVersion'' o';
          om \<leftarrow> Option.bind (objField ''metadata'' o') metaOfJSON;
          sp \<leftarrow> objField ''spec'' o'; r \<leftarrow> objField ''resource'' sp;
          g \<leftarrow> strField ''group'' r; n \<leftarrow> strField ''resource'' r;
          st \<leftarrow> objField ''status'' o';
          hs \<leftarrow> Option.bind (arrField ''persistedStorageVersionHashes'' st) those_strings;
          h \<leftarrow> strField ''currentStorageVersionHash'' st;
          t \<leftarrow> timeField parse ''lastHeartbeatTime'' st;
          Some \<lparr>ssTypeMeta = \<lparr>tmKind = k, tmAPIVersion = v\<rparr>, ssMeta = om,
                ssSpec = \<lparr>ssSpecResource = \<lparr>grGroup = g, grResource = n\<rparr>\<rparr>,
                ssStatus = \<lparr>PersistedStorageVersionHashes = hs, CurrentStorageVersionHash = h,
                            LastHeartbeatTime = t\<rparr>\<rparr> }"

subsection \<open>What is written is read\<close>

lemma map_of_omitempty [simp]:
  "map_of (omitempty k s @ kvs) = (if s = [] then map_of kvs else (map_of kvs)(k \<mapsto> JStr s))"
  "map_of (omitempty k s) = (if s = [] then Map.empty else [k \<mapsto> JStr s])"
  by (simp_all add: omitempty_def)

lemma map_of_stringMap [simp]:
  "map_of (stringMapJSON k m @ kvs) =
     (if m = [] then map_of kvs else (map_of kvs)(k \<mapsto> JObj (map (map_prod id JStr) m)))"
  "map_of (stringMapJSON k m) = (if m = [] then Map.empty else [k \<mapsto> JObj (map (map_prod id JStr) m)])"
  by (simp_all add: stringMapJSON_def)

lemma those_strings_JStr [simp]: "those_strings (map JStr xs) = Some xs"
  by (induction xs) auto

lemma those_pairs_JStr [simp]: "those_pairs (map (map_prod id JStr) xs) = Some xs"
  by (induction xs) auto

lemmas field_defs = strField_def objField_def arrField_def timeField_def

lemma metaOfJSON_metaJSON [simp]: "metaJSON om = JObj o' \<Longrightarrow> metaOfJSON o' = Some om"
  by (cases om) (auto simp: metaJSON_def metaOfJSON_def field_defs)

text \<open>
  \<open>fmt\<close> prints a time in whole seconds, and \<open>parse\<close> reads what it printed.
\<close>

definition codec :: "(Time \<Rightarrow> string) \<Rightarrow> (string \<Rightarrow> Time option) \<Rightarrow> bool" where
  "codec fmt parse \<longleftrightarrow> (\<forall>t. t mod second = 0 \<longrightarrow> parse (fmt t) = Some t)"

definition wholeSeconds :: "StorageVersionMigration \<Rightarrow> bool" where
  "wholeSeconds m \<longleftrightarrow> list_all (\<lambda>c. mcLastUpdateTime c mod second = 0) (svmConditions m)"

lemma timeField_JSON:
  "codec fmt parse \<Longrightarrow> t mod second = 0 \<Longrightarrow> map_of kvs k = Some (timeJSON fmt t) \<Longrightarrow>
   timeField parse k kvs = Some t"
  by (simp add: codec_def timeJSON_def timeField_def)

lemma conditionOfJSON_conditionJSON:
  "codec fmt parse \<Longrightarrow> mcLastUpdateTime c mod second = 0 \<Longrightarrow>
   conditionOfJSON parse (conditionJSON fmt c) = Some c"
  by (cases c) (auto simp: conditionJSON_def strField_def timeField_JSON)

lemma conditionsOfJSON:
  "codec fmt parse \<Longrightarrow> list_all (\<lambda>c. mcLastUpdateTime c mod second = 0) cs \<Longrightarrow>
   those (map (conditionOfJSON parse) (map (conditionJSON fmt) cs)) = Some cs"
  by (induction cs) (auto simp: conditionOfJSON_conditionJSON)

lemma resourceOfJSON_resourceJSON: "resourceJSON r = JObj o' \<Longrightarrow> resourceOfJSON o' = Some r"
  by (cases r) (auto simp: resourceJSON_def resourceOfJSON_def strField_def)

lemma specField_JSON:
  assumes "specJSON s = JObj sp"
  shows "Option.bind (objField ''resource'' sp) resourceOfJSON = Some (specResource s)"
    and "strField ''continueToken'' sp = Some (specContinueToken s)"
proof -
  obtain o' where o': "resourceJSON (specResource s) = JObj o'" by (simp add: resourceJSON_def)
  then show "Option.bind (objField ''resource'' sp) resourceOfJSON = Some (specResource s)"
    using assms resourceOfJSON_resourceJSON [OF o'] by (auto simp: specJSON_def objField_def)
  show "strField ''continueToken'' sp = Some (specContinueToken s)"
    using assms by (auto simp: specJSON_def strField_def)
qed

lemma statusField_JSON:
  assumes "codec fmt parse" "list_all (\<lambda>c. mcLastUpdateTime c mod second = 0) (smConditions s)"
    and "statusJSON fmt s = JObj st"
  shows "Option.bind (arrField ''conditions'' st) (\<lambda>cs. those (map (conditionOfJSON parse) cs)) = Some (smConditions s)"
  using assms conditionsOfJSON [OF assms(1,2)] by (auto simp: statusJSON_def arrField_def)

lemma migrationOfJSON_migrationJSON:
  assumes "codec fmt parse" and "wholeSeconds m" and "migrationJSON fmt m = JObj o'"
  shows "migrationOfJSON parse o' = Some m"
proof -
  obtain om where om: "metaJSON (svmMeta m) = JObj om" by (simp add: metaJSON_def)
  obtain sp where sp: "specJSON (svmSpec m) = JObj sp" by (simp add: specJSON_def)
  obtain st where st: "statusJSON fmt (svmStatus m) = JObj st" by (simp add: statusJSON_def)
  have "objField ''metadata'' o' = Some om" "objField ''spec'' o' = Some sp" "objField ''status'' o' = Some st"
      "strField ''kind'' o' = Some (tmKind (svmTypeMeta m))"
      "strField ''apiVersion'' o' = Some (tmAPIVersion (svmTypeMeta m))"
    using assms(3) om sp st by (auto simp: migrationJSON_def objField_def strField_def)
  moreover have "Option.bind (objField ''resource'' sp) resourceOfJSON = Some (specResource (svmSpec m))"
      "strField ''continueToken'' sp = Some (specContinueToken (svmSpec m))"
    using specField_JSON [OF sp] by simp_all
  moreover have "Option.bind (arrField ''conditions'' st)
      (\<lambda>cs. those (map (conditionOfJSON parse) cs)) = Some (svmConditions m)"
    using statusField_JSON [OF assms(1) _ st] assms(2) by (simp add: wholeSeconds_def)
  ultimately show ?thesis using metaOfJSON_metaJSON [OF om]
    by (cases m) (auto simp: migrationOfJSON_def bind_eq_Some_conv)
qed

text \<open>A concrete codec: the sign of the time and as many digits as it has seconds.\<close>

definition unaryTime :: "Time \<Rightarrow> string" where
  "unaryTime t = (if t < 0 then CHR ''-'' else CHR ''+'') # replicate (nat (\<bar>t\<bar> div second)) (CHR ''1'')"

fun parseUnary :: "string \<Rightarrow> Time option" where
  "parseUnary [] = None"
| "parseUnary (c # ds) = Some ((if c = CHR ''-'' then - 1 else 1) * (int (length ds) * second))"

lemma codec_unary: "codec unaryTime parseUnary"
proof (unfold codec_def, intro allI impI)
  fix t :: Time
  assume "t mod second = 0"
  then have "\<bar>t\<bar> mod second = 0" by (simp add: mod_eq_0_iff_dvd)
  then have "\<bar>t\<bar> div second * second = \<bar>t\<bar>" by (metis add.right_neutral div_mult_mod_eq)
  moreover have "0 \<le> \<bar>t\<bar> div second" by (simp add: second_def millisecond_def pos_imp_zdiv_nonneg_iff)
  ultimately show "parseUnary (unaryTime t) = Some t" by (simp add: unaryTime_def)
qed

definition codecMigration :: StorageVersionMigration where
  "codecMigration =
     \<lparr>svmTypeMeta = zeroTypeMeta, svmMeta = zeroObjectMeta\<lparr>omName := ''m'', omLabels := [(''a'', ''b'')]\<rparr>,
      svmSpec = \<lparr>specResource = \<lparr>gvrGroup = ''apps'', gvrVersion = ''v1'', gvrResource = ''deployments''\<rparr>,
                 specContinueToken = ''token''\<rparr>,
      svmStatus = \<lparr>smConditions = [\<lparr>mcType = MigrationRunning, mcStatus = ConditionTrue,
                     mcLastUpdateTime = 3 * second, mcReason = [], mcMessage = ''started''\<rparr>]\<rparr>\<rparr>"

lemma stateOfJSON_stateJSON:
  assumes "codec fmt parse" and "LastHeartbeatTime (ssStatus s) mod second = 0"
    and "stateJSON fmt s = JObj o'"
  shows "stateOfJSON parse o' = Some s"
proof -
  obtain om where om: "metaJSON (ssMeta s) = JObj om" by (simp add: metaJSON_def)
  obtain r where r: "groupResourceJSON (ssSpecResource (ssSpec s)) = JObj r" by (simp add: groupResourceJSON_def)
  obtain st where st: "stateStatusJSON fmt (ssStatus s) = JObj st" by (simp add: stateStatusJSON_def)
  have "objField ''metadata'' o' = Some om" "objField ''spec'' o' = Some [(''resource'', JObj r)]"
      "objField ''status'' o' = Some st" "strField ''kind'' o' = Some (tmKind (ssTypeMeta s))"
      "strField ''apiVersion'' o' = Some (tmAPIVersion (ssTypeMeta s))"
    using assms(3) om r st by (auto simp: stateJSON_def stateSpecJSON_def objField_def strField_def)
  moreover have "strField ''group'' r = Some (grGroup (ssSpecResource (ssSpec s)))"
      "strField ''resource'' r = Some (grResource (ssSpecResource (ssSpec s)))"
    using r by (auto simp: groupResourceJSON_def strField_def)
  moreover have "Option.bind (arrField ''persistedStorageVersionHashes'' st) those_strings
        = Some (PersistedStorageVersionHashes (ssStatus s))"
      "strField ''currentStorageVersionHash'' st = Some (CurrentStorageVersionHash (ssStatus s))"
      "timeField parse ''lastHeartbeatTime'' st = Some (LastHeartbeatTime (ssStatus s))"
    using st timeField_JSON [OF assms(1,2)] by (auto simp: stateStatusJSON_def arrField_def strField_def)
  moreover have "objField ''resource'' [(''resource'', JObj r)] = Some r" by (simp add: objField_def)
  ultimately show ?thesis using metaOfJSON_metaJSON [OF om]
    by (cases s) (auto simp: stateOfJSON_def bind_eq_Some_conv)
qed

definition codecState :: StorageState where
  "codecState =
     \<lparr>ssTypeMeta = zeroTypeMeta, ssMeta = zeroObjectMeta\<lparr>omName := ''pods''\<rparr>,
      ssSpec = \<lparr>ssSpecResource = \<lparr>grGroup = [], grResource = ''pods''\<rparr>\<rparr>,
      ssStatus = \<lparr>PersistedStorageVersionHashes = [''h1'', ''h2''], CurrentStorageVersionHash = ''h2'',
                  LastHeartbeatTime = 7 * second\<rparr>\<rparr>"

subsection \<open>Lists\<close>

definition listMetaJSON :: "ListMeta \<Rightarrow> json" where
  "listMetaJSON lm = JObj
     (omitempty ''resourceVersion'' (lmResourceVersion lm) @ omitempty ''continue'' (lmContinue lm) @
      (case lmRemainingItemCount lm of None \<Rightarrow> [] | Some n \<Rightarrow> [(''remainingItemCount'', JInt n)]))"

definition migrationListJSON :: "(Time \<Rightarrow> string) \<Rightarrow> StorageVersionMigrationList \<Rightarrow> json" where
  "migrationListJSON fmt l = JObj
     (omitempty ''kind'' (tmKind (vlTypeMeta l)) @ omitempty ''apiVersion'' (tmAPIVersion (vlTypeMeta l)) @
      [(''metadata'', listMetaJSON (vlListMeta l)), (''items'', JArr (map (migrationJSON fmt) (vlItems l)))])"

definition stateListJSON :: "(Time \<Rightarrow> string) \<Rightarrow> StorageStateList \<Rightarrow> json" where
  "stateListJSON fmt l = JObj
     (omitempty ''kind'' (tmKind (slTypeMeta l)) @ omitempty ''apiVersion'' (tmAPIVersion (slTypeMeta l)) @
      [(''metadata'', listMetaJSON (slListMeta l)), (''items'', JArr (map (stateJSON fmt) (slItems l)))])"

definition intField :: "string \<Rightarrow> (string \<times> json) list \<Rightarrow> int option option" where
  "intField k kvs =
     (case map_of kvs k of None \<Rightarrow> Some None | Some JNull \<Rightarrow> Some None | Some (JInt n) \<Rightarrow> Some (Some n) | _ \<Rightarrow> None)"

definition listMetaOfJSON :: "(string \<times> json) list \<Rightarrow> ListMeta option" where
  "listMetaOfJSON o' =
     do { rv \<leftarrow> strField ''resourceVersion'' o'; c \<leftarrow> strField ''continue'' o';
          n \<leftarrow> intField ''remainingItemCount'' o';
          Some \<lparr>lmResourceVersion = rv, lmContinue = c, lmRemainingItemCount = n\<rparr> }"

fun itemOfJSON :: "((string \<times> json) list \<Rightarrow> 'a option) \<Rightarrow> json \<Rightarrow> 'a option" where
  "itemOfJSON dec (JObj o') = dec o'"
| "itemOfJSON dec j = None"

definition migrationListOfJSON ::
    "(string \<Rightarrow> Time option) \<Rightarrow> (string \<times> json) list \<Rightarrow> StorageVersionMigrationList option" where
  "migrationListOfJSON parse o' =
     do { k \<leftarrow> strField ''kind'' o'; v \<leftarrow> strField ''apiVersion'' o';
          lm \<leftarrow> Option.bind (objField ''metadata'' o') listMetaOfJSON;
          js \<leftarrow> arrField ''items'' o';
          items \<leftarrow> those (map (itemOfJSON (migrationOfJSON parse)) js);
          Some \<lparr>vlTypeMeta = \<lparr>tmKind = k, tmAPIVersion = v\<rparr>, vlListMeta = lm, vlItems = items\<rparr> }"

definition stateListOfJSON ::
    "(string \<Rightarrow> Time option) \<Rightarrow> (string \<times> json) list \<Rightarrow> StorageStateList option" where
  "stateListOfJSON parse o' =
     do { k \<leftarrow> strField ''kind'' o'; v \<leftarrow> strField ''apiVersion'' o';
          lm \<leftarrow> Option.bind (objField ''metadata'' o') listMetaOfJSON;
          js \<leftarrow> arrField ''items'' o';
          items \<leftarrow> those (map (itemOfJSON (stateOfJSON parse)) js);
          Some \<lparr>slTypeMeta = \<lparr>tmKind = k, tmAPIVersion = v\<rparr>, slListMeta = lm, slItems = items\<rparr> }"

lemma listMetaOfJSON_listMetaJSON:
  assumes "listMetaJSON lm = JObj o'"
  shows "listMetaOfJSON o' = Some lm"
proof (cases lm)
  case (fields rv c n)
  with assms have "strField ''resourceVersion'' o' = Some rv" "strField ''continue'' o' = Some c"
      "intField ''remainingItemCount'' o' = Some n"
    by (cases n; auto simp: listMetaJSON_def strField_def intField_def)+
  then show ?thesis using fields by (simp add: listMetaOfJSON_def)
qed

lemma those_roundtrip: "\<forall>x \<in> set xs. dec (enc x) = Some x \<Longrightarrow> those (map dec (map enc xs)) = Some xs"
  by (induction xs) auto

lemma itemOfJSON_migration:
  "codec fmt parse \<Longrightarrow> wholeSeconds m \<Longrightarrow> itemOfJSON (migrationOfJSON parse) (migrationJSON fmt m) = Some m"
  using migrationOfJSON_migrationJSON by (cases "migrationJSON fmt m") (auto simp: migrationJSON_def)

lemma itemOfJSON_state:
  "codec fmt parse \<Longrightarrow> LastHeartbeatTime (ssStatus s) mod second = 0 \<Longrightarrow>
   itemOfJSON (stateOfJSON parse) (stateJSON fmt s) = Some s"
  using stateOfJSON_stateJSON by (cases "stateJSON fmt s") (auto simp: stateJSON_def)



definition codecMigrationList :: StorageVersionMigrationList where
  "codecMigrationList =
     \<lparr>vlTypeMeta = \<lparr>tmKind = ''StorageVersionMigrationList'', tmAPIVersion = ''migration.k8s.io/v1alpha1''\<rparr>,
      vlListMeta = \<lparr>lmResourceVersion = ''12'', lmContinue = [], lmRemainingItemCount = Some 0\<rparr>,
      vlItems = [codecMigration, codecMigration\<lparr>svmMeta := zeroObjectMeta\<lparr>omName := ''n''\<rparr>\<rparr>]\<rparr>"



end
