(* ===== verification/Crd_Schema.thy ===== *)
theory Crd_Schema
  imports Json_Codec
begin

section \<open>The custom resource definition of migrations\<close>

text \<open>
  \<open>migrationCRD\<close> of \<open>pkg/initializer/initializer.go\<close>: the definition that the initializer installs, with its
  schema, the JSON form of a migration as the tags of \<open>pkg/apis/migration/v1alpha1/types.go\<close>
  prescribe it, and what it means that the schema covers a JSON value.
\<close>

subsection \<open>Types of package apiextensions\<close>

datatype JSONSchemaProps = JSONSchemaProps
  (jsDescription: string) (jsType: string) (jsFormat: string) (jsRequired: "string list")
  (jsProperties: "(string \<times> JSONSchemaProps) list") (jsItems: "JSONSchemaProps option")

record CustomResourceDefinitionNames =
  cnPlural :: string
  cnSingular :: string
  cnKind :: string
  cnListKind :: string

record CustomResourceDefinitionVersion =
  cvName :: string
  cvServed :: bool
  cvStorage :: bool
  cvStatusSubresource :: bool
  cvSchema :: "JSONSchemaProps option"

record CustomResourceDefinitionSpec =
  csGroup :: string
  csNames :: CustomResourceDefinitionNames
  csScope :: string
  csVersions :: "CustomResourceDefinitionVersion list"

record CustomResourceDefinition =
  crdMeta :: ObjectMeta
  crdSpec :: CustomResourceDefinitionSpec

abbreviation crdObjectName :: "CustomResourceDefinition \<Rightarrow> string" where
  "crdObjectName crd \<equiv> omName (crdMeta crd)"

text \<open>The scope \<open>v1.ClusterScoped\<close>.\<close>

definition ClusterScoped :: string where "ClusterScoped = ''Cluster''"

subsection \<open>migrationCRD\<close>

definition singularCRDName :: string where "singularCRDName = ''storageversionmigration''"
definition pluralCRDName :: string where "pluralCRDName = ''storageversionmigrations''"
definition kind :: string where "kind = ''StorageVersionMigration''"
definition listKind :: string where "listKind = ''StorageVersionMigrationList''"

text \<open>A property that is a plain string, and one with a format.\<close>

definition stringProp :: "string \<Rightarrow> JSONSchemaProps" where
  "stringProp d = JSONSchemaProps d ''string'' [] [] [] None"

definition conditionSchema :: JSONSchemaProps where
  "conditionSchema =
     JSONSchemaProps ''Describes the state of a migration at a certain point.'' ''object'' [] [''status'', ''type'']
       [(''lastUpdateTime'',
         JSONSchemaProps ''The last time this condition was updated.'' ''string'' ''date-time'' [] [] None),
        (''message'', stringProp ''A human readable message indicating details about the transition.''),
        (''reason'', stringProp ''The reason for the condition's last transition.''),
        (''status'', stringProp ''Status of the condition, one of True, False, Unknown.''),
        (''type'', stringProp ''Type of the condition.'')]
       None"

definition specSchema :: JSONSchemaProps where
  "specSchema =
     JSONSchemaProps ''Specification of the migration.'' ''object'' [] [''resource'']
       [(''continueToken'', stringProp
           ''The token used in the list options to get the next chunk of objects to migrate. When the .status.conditions indicates the migration is \"Running\", users can use this token to check the progress of the migration.''),
        (''resource'', JSONSchemaProps
           ''The resource that is being migrated. The migrator sends requests to the endpoint serving the resource. Immutable.''
           ''object'' [] []
           [(''group'', stringProp ''The name of the group.''),
            (''resource'', stringProp ''The name of the resource.''),
            (''version'', stringProp ''The name of the version.'')]
           None)]
       None"

definition statusSchema :: JSONSchemaProps where
  "statusSchema =
     JSONSchemaProps ''Status of the migration.'' ''object'' [] []
       [(''conditions'', JSONSchemaProps
           ''The latest available observations of the migration's current state.''
           ''array'' [] [] [] (Some conditionSchema))]
       None"

definition migrationSchema :: JSONSchemaProps where
  "migrationSchema =
     JSONSchemaProps
       ''StorageVersionMigration represents a migration of stored data to the latest storage version.''
       ''object'' [] []
       [(''apiVersion'', stringProp
           ''APIVersion defines the versioned schema of this representation of an object. Servers should convert recognized schemas to the latest internal value, and may reject unrecognized values. More info: https://git.k8s.io/community/contributors/devel/sig-architecture/api-conventions.md#resources''),
        (''kind'', stringProp
           ''Kind is a string value representing the REST resource this object represents. Servers may infer this from the endpoint the client submits requests to. Cannot be updated. In CamelCase. More info: https://git.k8s.io/community/contributors/devel/sig-architecture/api-conventions.md#types-kinds''),
        (''metadata'', JSONSchemaProps [] ''object'' [] [] [] None),
        (''spec'', specSchema),
        (''status'', statusSchema)]
       None"

definition migrationCRD :: CustomResourceDefinition where
  "migrationCRD =
     \<lparr>crdMeta = zeroObjectMeta\<lparr>
        omName := ''storageversionmigrations.migration.k8s.io'',
        omAnnotations := [(''api-approved.kubernetes.io'',
                           ''https://github.com/kubernetes/community/pull/2524'')]\<rparr>,
      crdSpec = \<lparr>
        csGroup = ''migration.k8s.io'',
        csNames = \<lparr>cnPlural = pluralCRDName, cnSingular = singularCRDName, cnKind = kind,
                   cnListKind = listKind\<rparr>,
        csScope = ClusterScoped,
        csVersions = [\<lparr>cvName = ''v1alpha1'', cvServed = True, cvStorage = True,
                       cvStatusSubresource = True, cvSchema = Some migrationSchema\<rparr>]\<rparr>\<rparr>"


subsection \<open>The schema covers what the program writes\<close>

text \<open>
  A schema covers a value: the value has the type the schema names, the required fields are
  there, and every field of an object whose schema lists properties is one of them and covered
  by it. Null is covered by no schema here, since none of them is nullable.
\<close>

fun covers :: "JSONSchemaProps \<Rightarrow> json \<Rightarrow> bool" where
  "covers s JNull = False"
| "covers s (JBool b) = (jsType s = ''boolean'')"
| "covers s (JInt i) = (jsType s = ''integer'')"
| "covers s (JStr x) = (jsType s = ''string'')"
| "covers s (JArr xs) =
     (jsType s = ''array'' \<and> (case jsItems s of None \<Rightarrow> True | Some i \<Rightarrow> list_all (covers i) xs))"
| "covers s (JObj kvs) =
     (jsType s = ''object'' \<and> list_all (\<lambda>r. r \<in> fst ` set kvs) (jsRequired s)
      \<and> (jsProperties s = [] \<or>
         list_all (\<lambda>(k, v). case map_of (jsProperties s) k of None \<Rightarrow> False | Some p \<Rightarrow> covers p v) kvs))"

lemma list_all_omitempty [simp]: "list_all P (omitempty k s) \<longleftrightarrow> s = [] \<or> P (k, JStr s)"
  by (simp add: omitempty_def)

lemma jsType_stringProp [simp]: "jsType (stringProp d) = ''string''"
  by (simp add: stringProp_def)

lemma covers_condition:
  "mcLastUpdateTime c \<noteq> zeroTime \<Longrightarrow> covers conditionSchema (conditionJSON fmt c)"
  by (simp add: conditionSchema_def conditionJSON_def timeJSON_def)

lemma covers_spec: "covers specSchema (specJSON s)"
  by (simp add: specSchema_def specJSON_def resourceJSON_def)

lemma covers_status:
  "\<forall>c \<in> set (smConditions s). mcLastUpdateTime c \<noteq> zeroTime \<Longrightarrow> covers statusSchema (statusJSON fmt s)"
  by (simp add: statusSchema_def statusJSON_def list_all_iff covers_condition)



end
