(* ===== verification/Backoff.thy ===== *)
theory Backoff
  imports Go_Errors Complex_Main
begin

section \<open>Retry loops: package wait and package retry\<close>

text \<open>
  The vendored loops every controller wraps its API calls in:
  \<open>wait.Backoff\<close> with \<open>delay\<close>, \<open>Jitter\<close> and \<open>Step\<close>, \<open>wait.ExponentialBackoff\<close>, and
  \<open>retry.OnError\<close> / \<open>retry.RetryOnConflict\<close>.

  A closure is a function on the pair of the variables it captures and the world. The world is
  an arbitrary type: what the code does not control (the clock, the random source, the API
  server) acts on it through the fields of a record of operations. A \<open>float64\<close> is a rational
  number: the products taken here (10ms times a power of 5) are exact in \<open>float64\<close>.
\<close>

record 'w Runtime =
  rtNow :: "('w, Time) call"
  rtSleep :: "Duration \<Rightarrow> 'w \<Rightarrow> 'w"
  rtRand :: "('w, rat) call" \<comment> \<open>\<open>rand.Float64()\<close>\<close>

record Backoff =
  bDuration :: Duration
  bFactor :: rat
  bJitter :: rat
  bSteps :: int
  bCap :: Duration

subsection \<open>The delay algorithm\<close>

definition Jitter :: "'w Runtime \<Rightarrow> Duration \<Rightarrow> rat \<Rightarrow> ('w, Duration) call" where
  "Jitter rt duration maxFactor w =
     (let maxFactor = (if maxFactor \<le> 0 then 1 else maxFactor);
          (r, w1) = rtRand rt w
      in (duration + \<lfloor>r * maxFactor * of_int duration\<rfloor>, w1))"

text \<open>\<open>delay\<close> returns the time to sleep, the next duration and the next step count.\<close>

definition delay ::
    "'w Runtime \<Rightarrow> int \<Rightarrow> Duration \<Rightarrow> Duration \<Rightarrow> rat \<Rightarrow> rat \<Rightarrow> ('w, Duration \<times> Duration \<times> int) call"
  where
  "delay rt steps duration cap factor jitter w =
     (if steps < 1 then
        (if jitter > 0 then
           (let (d, w1) = Jitter rt duration jitter w in ((d, duration, 0), w1))
         else ((duration, duration, 0), w))
      else
        (let steps1 = steps - 1;
             next0 = \<lfloor>of_int duration * factor\<rfloor>;
             (nxt, steps2) =
               (if factor \<noteq> 0 then
                  (if cap > 0 \<and> next0 > cap then (cap, 0) else (next0, steps1))
                else (duration, steps1))
         in if jitter > 0 then
              (let (d, w1) = Jitter rt duration jitter w in ((d, nxt, steps2), w1))
            else ((duration, nxt, steps2), w)))"

definition Step :: "'w Runtime \<Rightarrow> Backoff \<Rightarrow> ('w, Duration \<times> Backoff) call" where
  "Step rt b w =
     (let ((d, nxt, steps), w1) =
            delay rt (bSteps b) (bDuration b) (bCap b) (bFactor b) (bJitter b) w
      in ((d, b\<lparr>bDuration := nxt, bSteps := steps\<rparr>), w1))"

lemma Step_decreases:
  "0 < bSteps b \<Longrightarrow> Step rt b w = ((d, b'), w1) \<Longrightarrow> bSteps b' < bSteps b \<and> bCap b' = bCap b"
  by (auto simp: Step_def delay_def Let_def split: if_splits prod.splits)

lemma Step_uncapped:
  "0 < bSteps b \<Longrightarrow> bCap b = 0 \<Longrightarrow> Step rt b w = ((d, b'), w1) \<Longrightarrow> bSteps b' = bSteps b - 1"
  by (auto simp: Step_def delay_def Let_def split: if_splits prod.splits)

lemma Step_world:
  "Step rt b w = ((d, b'), w1) \<Longrightarrow> w1 = w \<or> w1 = snd (rtRand rt w)"
  by (auto simp: Step_def delay_def Jitter_def Let_def split: if_splits prod.splits)

subsection \<open>wait.ExponentialBackoff\<close>

type_synonym ('v, 'w) cond = "'v \<times> 'w \<Rightarrow> (bool \<times> error option) \<times> ('v \<times> 'w)"

function ExponentialBackoff ::
    "'w Runtime \<Rightarrow> Backoff \<Rightarrow> ('v, 'w) cond \<Rightarrow> 'v \<times> 'w \<Rightarrow> error option \<times> ('v \<times> 'w)" where
  "ExponentialBackoff rt b condition s =
     (if bSteps b > 0 then
        (case condition s of
           ((ok, err), (v1, w1)) \<Rightarrow>
             if err \<noteq> None \<or> ok then (err, (v1, w1))
             else if bSteps b = 1 then (Some ErrWaitTimeout, (v1, w1))
             else (case Step rt b w1 of
                     ((d, b'), w2) \<Rightarrow> ExponentialBackoff rt b' condition (v1, rtSleep rt d w2)))
      else (Some ErrWaitTimeout, s))"
  by pat_completeness auto
termination
  by (relation "measure (\<lambda>(rt, b, condition, s). nat (bSteps b))")
     (auto dest!: sym [of "((_, _), _)" "Step _ _ _"] dest: Step_decreases)

declare ExponentialBackoff.simps [simp del]

text \<open>
  The reasoning rule. \<open>I n\<close> holds before an attempt when \<open>n\<close> attempts are left, \<open>J n\<close> after a
  failed attempt with \<open>n\<close> left; sleeping and drawing a random number keep what was
  established. Whatever the loop returns satisfies \<open>Q\<close>: the outcome of the attempt that
  ended it, or the timeout after the last attempt failed.
\<close>

lemma ExponentialBackoff_rule:
  assumes steps: "bSteps b = int (Suc n)" and cap: "bCap b = 0"
    and init: "I (Suc n) s"
    and fail: "\<And>k s v1 w1. I (Suc k) s \<Longrightarrow> condition s = ((False, None), (v1, w1)) \<Longrightarrow> J k v1 w1"
    and rand: "\<And>k v w. J k v w \<Longrightarrow> J k v (snd (rtRand rt w))"
    and slp: "\<And>k v w d. J k v w \<Longrightarrow> I k (v, rtSleep rt d w)"
    and fin: "\<And>k s ok err s1. I (Suc k) s \<Longrightarrow> condition s = ((ok, err), s1) \<Longrightarrow>
                err \<noteq> None \<or> ok \<Longrightarrow> Q err s1"
    and tmo: "\<And>v w. J 0 v w \<Longrightarrow> Q (Some ErrWaitTimeout) (v, w)"
    and run: "ExponentialBackoff rt b condition s = (r, s')"
  shows "Q r s'"
  using steps cap init run
proof (induction n arbitrary: b s)
  case 0
  obtain ok err v1 w1 where c: "condition s = ((ok, err), (v1, w1))"
    by (metis surj_pair)
  show ?case
  proof (cases "err \<noteq> None \<or> ok")
    case True
    with 0 c fin [OF 0(3) c] show ?thesis by (subst (asm) ExponentialBackoff.simps) auto
  next
    case False
    with 0 c fail [OF 0(3)] tmo show ?thesis by (subst (asm) ExponentialBackoff.simps) auto
  qed
next
  case (Suc n)
  obtain ok err v1 w1 where c: "condition s = ((ok, err), (v1, w1))"
    by (metis surj_pair)
  show ?case
  proof (cases "err \<noteq> None \<or> ok")
    case True
    with Suc.prems c fin [OF Suc.prems(3) c] show ?thesis
      by (subst (asm) ExponentialBackoff.simps) auto
  next
    case False
    then have c': "condition s = ((False, None), (v1, w1))" using c by simp
    obtain d b' w2 where st: "Step rt b w1 = ((d, b'), w2)" by (metis surj_pair)
    have steps': "bSteps b' = int (Suc n)" and cap': "bCap b' = 0"
      using Step_uncapped [OF _ Suc.prems(2) st] Step_decreases [OF _ st] Suc.prems(1,2) by auto
    have "J (Suc n) v1 w1" using fail [OF Suc.prems(3) c'] .
    then have "J (Suc n) v1 w2" using Step_world [OF st] rand by auto
    then have "I (Suc n) (v1, rtSleep rt d w2)" by (rule slp)
    moreover have "ExponentialBackoff rt b' condition (v1, rtSleep rt d w2) = (r, s')"
      using Suc.prems(1,4) c' st by (subst (asm) ExponentialBackoff.simps) auto
    ultimately show ?thesis using Suc.IH [OF steps' cap'] by blast
  qed
qed

text \<open>With one invariant for every state a failed attempt can leave behind.\<close>

lemma ExponentialBackoff_inv:
  assumes "bSteps b = int (Suc n)" and "bCap b = 0" and "P s"
    and "\<And>s s1. P s \<Longrightarrow> condition s = ((False, None), s1) \<Longrightarrow> P s1"
    and "\<And>v w. P (v, w) \<Longrightarrow> P (v, snd (rtRand rt w))"
    and "\<And>v w d. P (v, w) \<Longrightarrow> P (v, rtSleep rt d w)"
    and "\<And>s ok err s1. P s \<Longrightarrow> condition s = ((ok, err), s1) \<Longrightarrow> err \<noteq> None \<or> ok \<Longrightarrow> Q err s1"
    and "\<And>s. P s \<Longrightarrow> Q (Some ErrWaitTimeout) s"
    and run: "ExponentialBackoff rt b condition s = (r, s')"
  shows "Q r s'"
  by (rule ExponentialBackoff_rule [where I = "\<lambda>_. P" and J = "\<lambda>_ v w. P (v, w)", OF assms(1-3) _ _ _ _ _ run])
    (use assms(4-8) in blast)+

text \<open>An attempt that ends the loop at once.\<close>

lemma ExponentialBackoff_first:
  "bSteps b > 0 \<Longrightarrow> condition s = ((ok, err), s1) \<Longrightarrow> err \<noteq> None \<or> ok \<Longrightarrow>
   ExponentialBackoff rt b condition s = (err, s1)"
  by (cases s1) (subst ExponentialBackoff.simps, auto)

subsection \<open>retry.OnError and retry.RetryOnConflict\<close>

definition OnError ::
    "'w Runtime \<Rightarrow> Backoff \<Rightarrow> (error option \<Rightarrow> bool) \<Rightarrow> ('v \<times> 'w \<Rightarrow> error option \<times> ('v \<times> 'w)) \<Rightarrow>
     'v \<times> 'w \<Rightarrow> error option \<times> ('v \<times> 'w)" where
  "OnError rt backoff retriable fn s =
     (let (err, ((lastErr, v1), w1)) =
            ExponentialBackoff rt backoff
              (\<lambda>((lastErr, v), w).
                 (case fn (v, w) of
                    (err, (v1, w1)) \<Rightarrow>
                      if err = None then ((True, None), ((lastErr, v1), w1))
                      else if retriable err then ((False, None), ((err, v1), w1))
                      else ((False, err), ((lastErr, v1), w1))))
              ((None, fst s), snd s)
      in (if err = Some ErrWaitTimeout then lastErr else err, (v1, w1)))"

definition RetryOnConflict ::
    "'w Runtime \<Rightarrow> Backoff \<Rightarrow> ('v \<times> 'w \<Rightarrow> error option \<times> ('v \<times> 'w)) \<Rightarrow>
     'v \<times> 'w \<Rightarrow> error option \<times> ('v \<times> 'w)" where
  "RetryOnConflict rt backoff fn s = OnError rt backoff IsConflict fn s"

definition DefaultRetry :: Backoff where
  "DefaultRetry =
     \<lparr>bDuration = 10 * millisecond, bFactor = 1, bJitter = 1 / 10, bSteps = 5, bCap = 0\<rparr>"

lemma DefaultRetry_sel [simp]: "bSteps DefaultRetry = 5" "bCap DefaultRetry = 0"
  by (simp_all add: DefaultRetry_def)

text \<open>
  The rule for \<open>OnError\<close>: with \<open>I\<close> before every attempt, \<open>J e\<close> after an attempt that failed with the
  retriable error \<open>e\<close>, the result satisfies \<open>Q\<close>.
\<close>

lemma OnError_rule:
  assumes steps: "bSteps b = int (Suc n)" and cap: "bCap b = 0"
    and init: "I (Suc n) s"
    and fail: "\<And>k s e v1 w1. I (Suc k) s \<Longrightarrow> fn s = (Some e, (v1, w1)) \<Longrightarrow> retriable (Some e) \<Longrightarrow>
                 J k (Some e) v1 w1"
    and rand: "\<And>k e v w. J k e v w \<Longrightarrow> J k e v (snd (rtRand rt w))"
    and slp: "\<And>k e v w d. J k e v w \<Longrightarrow> I k (v, rtSleep rt d w)"
    and ok: "\<And>k s s1. I (Suc k) s \<Longrightarrow> fn s = (None, s1) \<Longrightarrow> Q None s1"
    and err: "\<And>k s e s1. I (Suc k) s \<Longrightarrow> fn s = (Some e, s1) \<Longrightarrow> \<not> retriable (Some e) \<Longrightarrow>
                e \<noteq> ErrWaitTimeout \<and> Q (Some e) s1"
    and tmo: "\<And>e v w. J 0 e v w \<Longrightarrow> Q e (v, w)"
    and run: "OnError rt b retriable fn s = (r, s')"
  shows "Q r s'"
proof -
  let ?cond = "\<lambda>((lastErr, v), w).
                 (case fn (v, w) of
                    (err, (v1, w1)) \<Rightarrow>
                      if err = None then ((True, None), ((lastErr, v1), w1))
                      else if retriable err then ((False, None), ((err, v1), w1))
                      else ((False, err), ((lastErr, v1), w1)))"
  let ?I = "\<lambda>k ((l, v), w). I k (v, w)"
  let ?J = "\<lambda>k (l, v) w. J k l v w"
  let ?Q = "\<lambda>r ((l, v), w). Q (if r = Some ErrWaitTimeout then l else r) (v, w)"
  obtain err lastErr v1 w1 where
    run': "ExponentialBackoff rt b ?cond ((None, fst s), snd s) = (err, ((lastErr, v1), w1))"
    by (rule prod_cases3 [of "ExponentialBackoff rt b ?cond ((None, fst s), snd s)"]) auto
  have "?Q err ((lastErr, v1), w1)"
  proof (rule ExponentialBackoff_rule [where I = ?I and J = ?J and Q = ?Q and n = n])
    show "ExponentialBackoff rt b ?cond ((None, fst s), snd s) = (err, ((lastErr, v1), w1))"
      by (rule run')
  qed (use steps cap init rand slp tmo in
        \<open>auto split: prod.splits if_splits dest: fail ok err\<close>)
  with run run' show ?thesis by (auto simp: OnError_def Let_def split: prod.splits if_splits)
qed

text \<open>With one invariant for every state an attempt can leave behind.\<close>

lemma OnError_inv:
  assumes steps: "bSteps b = int (Suc n)" and cap: "bCap b = 0" and init: "P s"
    and rand: "\<And>v w. P (v, w) \<Longrightarrow> P (v, snd (rtRand rt w))"
    and slp: "\<And>v w d. P (v, w) \<Longrightarrow> P (v, rtSleep rt d w)"
    and ok: "\<And>s s1. P s \<Longrightarrow> fn s = (None, s1) \<Longrightarrow> S s1"
    and err: "\<And>s e s1. P s \<Longrightarrow> fn s = (Some e, s1) \<Longrightarrow> P s1 \<and> e \<noteq> ErrWaitTimeout"
    and run: "OnError rt b retriable fn s = (r, s')"
  shows "case r of None \<Rightarrow> S s' | Some e \<Rightarrow> P s'"
proof (rule OnError_rule [where I = "\<lambda>_. P" and J = "\<lambda>_ e v w. e \<noteq> None \<and> P (v, w)"
      and Q = "\<lambda>r s'. case r of None \<Rightarrow> S s' | Some e \<Rightarrow> P s'", OF steps cap init _ _ _ _ _ _ run])
qed (use rand slp ok err in auto)

end
