(* ===== verification/Client_Interfaces.thy ===== *)
theory Client_Interfaces
  imports Crd_Schema Backoff
begin

section \<open>The interfaces to the API server, and their contracts\<close>

text \<open>
  The program reaches the API server through Go interfaces: \<open>StorageVersionMigrationInterface\<close>
  and \<open>StorageStateInterface\<close> (\<open>pkg/clients/clientset/typed/migration/v1alpha1\<close>),
  \<open>dynamic.Interface\<close>, the discovery client, and the indexer of an informer. Each is a record of
  operations on an arbitrary world \<open>'w\<close>; the components take such records as arguments, so
  a theorem about a component holds for every server, cache and interleaving with other
  clients (all of which live in \<open>'w\<close>). The methods that the program never calls are left out.

  The locales below state what the API server documents about these calls: what a successful
  call returns and stores, and that a failed call either had no effect or took effect and
  lost its answer. They are interpreted on the fake clientset of the repository in the theory
  \<open>Fake_Clientset\<close>.
\<close>

subsection \<open>StorageVersionMigrationInterface and StorageStateInterface\<close>

record 'w StorageVersionMigrationInterface =
  svmCreate :: "StorageVersionMigration \<Rightarrow> ('w, (StorageVersionMigration, error) result) call"
  svmUpdate :: "StorageVersionMigration \<Rightarrow> ('w, (StorageVersionMigration, error) result) call"
  svmUpdateStatus :: "StorageVersionMigration \<Rightarrow> ('w, (StorageVersionMigration, error) result) call"
  svmDelete :: "string \<Rightarrow> ('w, error option) call"
  svmGet :: "string \<Rightarrow> ('w, (StorageVersionMigration, error) result) call"

record 'w StorageStateInterface =
  ssCreate :: "StorageState \<Rightarrow> ('w, (StorageState, error) result) call"
  ssUpdate :: "StorageState \<Rightarrow> ('w, (StorageState, error) result) call"
  ssUpdateStatus :: "StorageState \<Rightarrow> ('w, (StorageState, error) result) call"
  ssDelete :: "string \<Rightarrow> ('w, error option) call"
  ssGet :: "string \<Rightarrow> ('w, (StorageState, error) result) call"

subsection \<open>The dynamic client\<close>

text \<open>
  An \<open>*unstructured.Unstructured\<close> is the JSON content of an object of any resource. The program
  reads its namespace and name and passes the rest back unchanged (\<open>uContent\<close>).
\<close>

record Unstructured =
  uNamespace :: string
  uName :: string
  uResourceVersion :: string
  uContent :: string

record UnstructuredList =
  ulItems :: "Unstructured list"
  ulContinue :: string

record ListOptions =
  loLimit :: int
  loContinue :: string

record 'w DynamicInterface =
  dynGet :: "SchemaGVR \<Rightarrow> string \<Rightarrow> string \<Rightarrow> ('w, (Unstructured, error) result) call"
  dynUpdate :: "SchemaGVR \<Rightarrow> string \<Rightarrow> Unstructured \<Rightarrow> ('w, (Unstructured, error) result) call"
  dynList :: "SchemaGVR \<Rightarrow> string \<Rightarrow> ListOptions \<Rightarrow> ('w, (UnstructuredList, error) result) call"

text \<open>
  \<open>meta.NewAccessor()\<close>: \<open>*unstructured.Unstructured\<close> and \<open>*unstructured.UnstructuredList\<close> implement
  the accessor interfaces, so these never fail on them.
\<close>

definition accessorNamespace :: "Unstructured \<Rightarrow> (string, error) result" where
  "accessorNamespace item = Inr (uNamespace item)"

definition accessorName :: "Unstructured \<Rightarrow> (string, error) result" where
  "accessorName item = Inr (uName item)"

definition accessorContinue :: "UnstructuredList \<Rightarrow> (string, error) result" where
  "accessorContinue l = Inr (ulContinue l)"

subsection \<open>Discovery\<close>

record APIResource =
  arName :: string
  arGroup :: string
  arVersion :: string
  arVerbs :: "string list"
  arStorageVersionHash :: string

record APIResourceList =
  arlGroupVersion :: string
  arlAPIResources :: "APIResource list"

text \<open>\<open>ServerPreferredResources\<close> can return a partial result together with an error.\<close>

record 'w DiscoveryInterface =
  discServerPreferredResources :: "('w, APIResourceList list \<times> error option) call"

record 'w ServerResourcesInterface =
  discServerGroupsAndResources :: "('w, APIResourceList list \<times> error option) call"

subsection \<open>Custom resource definitions and API services\<close>

record APIServiceSpec =
  asService :: "(string \<times> string) option" \<comment> \<open>namespace and name of the service, nil for a local group\<close>
  asGroup :: string
  asVersion :: string

record APIService =
  asMeta :: ObjectMeta
  asSpec :: APIServiceSpec

record 'w CustomResourceDefinitionInterface =
  crdCreate :: "CustomResourceDefinition \<Rightarrow> ('w, (CustomResourceDefinition, error) result) call"
  crdDelete :: "string \<Rightarrow> ('w, error option) call"
  crdGet :: "string \<Rightarrow> ('w, (CustomResourceDefinition, error) result) call"
  crdList :: "('w, (CustomResourceDefinition list, error) result) call"

record 'w APIServiceInterface =
  apiserviceList :: "('w, (APIService list, error) result) call"

subsection \<open>The indexer of an informer\<close>

text \<open>
  \<open>GetIndexer().ByIndex(indexName, indexedValue)\<close>. The informer's own goroutine changes the
  cache between calls, so the cache is part of the world too.
\<close>

record 'w IndexerInterface =
  ixByIndex :: "string \<Rightarrow> string \<Rightarrow> ('w, (StorageVersionMigration list, error) result) call"

subsection \<open>Contracts\<close>

text \<open>
  \<open>states w\<close> are the StorageStates the server holds in world \<open>w\<close>. \<open>stored\<close> is what the server keeps
  of the object sent to the status endpoint: its status, under its name.
\<close>

definition status_written :: "StorageState \<Rightarrow> StorageState \<Rightarrow> bool" where
  "status_written s stored \<longleftrightarrow> ssStatus stored = ssStatus s \<and> ssName stored = ssName s"

definition put_status ::
    "(string \<rightharpoonup> StorageState) \<Rightarrow> StorageState \<Rightarrow> (string \<rightharpoonup> StorageState) \<Rightarrow> bool" where
  "put_status m s m' \<longleftrightarrow>
     ssName s \<in> dom m \<and> (\<exists>stored. status_written s stored \<and> m' = m(ssName s \<mapsto> stored))"

definition post_state ::
    "(string \<rightharpoonup> StorageState) \<Rightarrow> StorageState \<Rightarrow> StorageState \<Rightarrow> (string \<rightharpoonup> StorageState) \<Rightarrow> bool" where
  "post_state m s stored m' \<longleftrightarrow>
     m (ssName s) = None \<and> m' = m(ssName s \<mapsto> stored) \<and> ssName stored = ssName s
     \<and> ssSpec stored = ssSpec s
     \<and> (ssStatus s = zeroStorageStateStatus \<longrightarrow> ssStatus stored = zeroStorageStateStatus)"

locale storage_state_api =
  fixes c :: "'w StorageStateInterface"
    and states :: "'w \<Rightarrow> string \<rightharpoonup> StorageState"
    and wf :: "'w \<Rightarrow> bool" \<comment> \<open>the states the server can be in\<close>
  assumes ss_get_ok: "wf w \<Longrightarrow> ssGet c n w = (Inr s, w') \<Longrightarrow>
             wf w' \<and> states w n = Some s \<and> ssName s = n \<and> states w' = states w"
    and ss_get_err: "wf w \<Longrightarrow> ssGet c n w = (Inl e, w') \<Longrightarrow>
             wf w' \<and> states w' = states w \<and> (IsNotFound (Some e) \<longrightarrow> states w n = None)"
    and ss_create_ok: "wf w \<Longrightarrow> ssCreate c s w = (Inr s', w') \<Longrightarrow>
             wf w' \<and> post_state (states w) s s' (states w')"
    and ss_create_err: "wf w \<Longrightarrow> ssCreate c s w = (Inl e, w') \<Longrightarrow>
             wf w' \<and> (states w' = states w \<or> (\<exists>s'. post_state (states w) s s' (states w')))"
    and ss_status_ok: "wf w \<Longrightarrow> ssUpdateStatus c s w = (Inr s', w') \<Longrightarrow>
             wf w' \<and> put_status (states w) s (states w')"
    and ss_status_err: "wf w \<Longrightarrow> ssUpdateStatus c s w = (Inl e, w') \<Longrightarrow>
             wf w' \<and> (states w' = states w \<or> put_status (states w) s (states w'))"
    and ss_delete_ok: "wf w \<Longrightarrow> ssDelete c n w = (None, w') \<Longrightarrow>
             wf w' \<and> states w' = (states w)(n := None)"
    and ss_delete_err: "wf w \<Longrightarrow> ssDelete c n w = (Some e, w') \<Longrightarrow>
             wf w' \<and> (states w' = states w \<or> states w' = (states w)(n := None))"

text \<open>Time passing does not change what the server holds.\<close>

locale storage_state_env = storage_state_api +
  fixes rt :: "'w Runtime"
  assumes ss_sleep: "wf w \<Longrightarrow> wf (rtSleep rt d w) \<and> states (rtSleep rt d w) = states w"
    and ss_rand: "wf w \<Longrightarrow> wf (snd (rtRand rt w)) \<and> states (snd (rtRand rt w)) = states w"

text \<open>A server that answers: a call fails only for the reason that its object is missing.\<close>

locale storage_state_live = storage_state_env +
  assumes ss_get_live: "wf w \<Longrightarrow> states w n = Some s \<Longrightarrow> \<exists>w'. ssGet c n w = (Inr s, w')"
    and ss_get_missing: "wf w \<Longrightarrow> states w n = None \<Longrightarrow>
           \<exists>e w'. ssGet c n w = (Inl e, w') \<and> IsNotFound (Some e)"
    and ss_create_live: "wf w \<Longrightarrow> states w (ssName s) = None \<Longrightarrow> ssName s \<noteq> [] \<Longrightarrow>
           omNamespace (ssMeta s) = [] \<Longrightarrow> \<exists>s' w'. ssCreate c s w = (Inr s', w')"
    and ss_status_live: "wf w \<Longrightarrow> states w (ssName s) = Some s0 \<Longrightarrow> ssMeta s = ssMeta s0 \<Longrightarrow>
           \<exists>s' w'. ssUpdateStatus c s w = (Inr s', w')"

text \<open>
  The same for migrations: \<open>migs w\<close> are the StorageVersionMigrations the server holds.
  An update through the main endpoint writes the spec and keeps the status, one through the
  status endpoint writes the status and keeps the spec; a server without a status
  subresource (the fake clientset) writes both, so each clause names what is certain when
  the other part of the sent object is the one that was read.
\<close>

definition put_spec ::
    "(string \<rightharpoonup> StorageVersionMigration) \<Rightarrow> StorageVersionMigration \<Rightarrow>
     (string \<rightharpoonup> StorageVersionMigration) \<Rightarrow> bool" where
  "put_spec ms m ms' \<longleftrightarrow>
     (\<exists>old stored. ms (svmName m) = Some old \<and> ms' = ms(svmName m \<mapsto> stored)
        \<and> svmName stored = svmName m \<and> svmSpec stored = svmSpec m
        \<and> svmStatus stored \<in> {svmStatus m, svmStatus old})"

definition put_svm_status ::
    "(string \<rightharpoonup> StorageVersionMigration) \<Rightarrow> StorageVersionMigration \<Rightarrow>
     (string \<rightharpoonup> StorageVersionMigration) \<Rightarrow> bool" where
  "put_svm_status ms m ms' \<longleftrightarrow>
     (\<exists>old stored. ms (svmName m) = Some old \<and> ms' = ms(svmName m \<mapsto> stored)
        \<and> svmName stored = svmName m \<and> svmStatus stored = svmStatus m
        \<and> svmSpec stored \<in> {svmSpec m, svmSpec old})"

text \<open>
  A creation stores the object under its name, or under a fresh name that the server makes up
  when the object carries \<open>generateName\<close> only.
\<close>

definition post_mig ::
    "(string \<rightharpoonup> StorageVersionMigration) \<Rightarrow> StorageVersionMigration \<Rightarrow> StorageVersionMigration \<Rightarrow>
     (string \<rightharpoonup> StorageVersionMigration) \<Rightarrow> bool" where
  "post_mig ms m stored ms' \<longleftrightarrow>
     ms (svmName stored) = None \<and> ms' = ms(svmName stored \<mapsto> stored)
     \<and> svmSpec stored = svmSpec m \<and> (svmName m \<noteq> [] \<longrightarrow> svmName stored = svmName m)
     \<and> (svmConditions m = [] \<longrightarrow> svmConditions stored = [])"

locale migration_api =
  fixes c :: "'w StorageVersionMigrationInterface"
    and migs :: "'w \<Rightarrow> string \<rightharpoonup> StorageVersionMigration"
    and wf :: "'w \<Rightarrow> bool"
  assumes svm_get_ok: "wf w \<Longrightarrow> svmGet c n w = (Inr m, w') \<Longrightarrow>
             wf w' \<and> migs w n = Some m \<and> svmName m = n \<and> migs w' = migs w"
    and svm_get_err: "wf w \<Longrightarrow> svmGet c n w = (Inl e, w') \<Longrightarrow>
             wf w' \<and> migs w' = migs w \<and> (IsNotFound (Some e) \<longrightarrow> migs w n = None)"
    and svm_create_ok: "wf w \<Longrightarrow> svmCreate c m w = (Inr m', w') \<Longrightarrow>
             wf w' \<and> post_mig (migs w) m m' (migs w')"
    and svm_create_err: "wf w \<Longrightarrow> svmCreate c m w = (Inl e, w') \<Longrightarrow>
             wf w' \<and> (migs w' = migs w \<or> (\<exists>m'. post_mig (migs w) m m' (migs w')))"
    and svm_update_ok: "wf w \<Longrightarrow> svmUpdate c m w = (Inr m', w') \<Longrightarrow>
             wf w' \<and> put_spec (migs w) m (migs w')"
    and svm_update_err: "wf w \<Longrightarrow> svmUpdate c m w = (Inl e, w') \<Longrightarrow>
             wf w' \<and> (migs w' = migs w \<or> put_spec (migs w) m (migs w'))"
    and svm_status_ok: "wf w \<Longrightarrow> svmUpdateStatus c m w = (Inr m', w') \<Longrightarrow>
             wf w' \<and> put_svm_status (migs w) m (migs w')"
    and svm_status_err: "wf w \<Longrightarrow> svmUpdateStatus c m w = (Inl e, w') \<Longrightarrow>
             wf w' \<and> (migs w' = migs w \<or> put_svm_status (migs w) m (migs w'))"
    and svm_delete_ok: "wf w \<Longrightarrow> svmDelete c n w = (None, w') \<Longrightarrow>
             wf w' \<and> migs w' = (migs w)(n := None)"
    and svm_delete_err: "wf w \<Longrightarrow> svmDelete c n w = (Some e, w') \<Longrightarrow>
             wf w' \<and> (migs w' = migs w \<or> migs w' = (migs w)(n := None))"

locale migration_env = migration_api +
  fixes rt :: "'w Runtime"
  assumes svm_sleep: "wf w \<Longrightarrow> wf (rtSleep rt d w) \<and> migs (rtSleep rt d w) = migs w"
    and svm_rand: "wf w \<Longrightarrow> wf (snd (rtRand rt w)) \<and> migs (snd (rtRand rt w)) = migs w"
    and svm_no_timeout: "wf w \<Longrightarrow> svmGet c n w = (Inl e, w') \<or> svmUpdate c m w = (Inl e, w') \<Longrightarrow>
           e \<noteq> ErrWaitTimeout" \<comment> \<open>the sentinel of package wait is not an error of a client\<close>
    and svm_now: "wf w \<Longrightarrow> wf (snd (rtNow rt w)) \<and> migs (snd (rtNow rt w)) = migs w"

subsection \<open>A client of one part of a world\<close>

text \<open>
  A world may hold several servers and caches side by side. An operation on one part is an
  operation on the whole, and a client of the part is a client of the whole that keeps its
  contract; \<open>ok\<close> is what the other parts are required to satisfy.
\<close>

definition onPart :: "('w \<Rightarrow> 'c) \<Rightarrow> ('c \<Rightarrow> 'w \<Rightarrow> 'w) \<Rightarrow> ('c, 'a) call \<Rightarrow> ('w, 'a) call" where
  "onPart part upd f w = (let (r, c) = f (part w) in (r, upd c w))"

definition liftMigrations ::
    "('w \<Rightarrow> 'c) \<Rightarrow> ('c \<Rightarrow> 'w \<Rightarrow> 'w) \<Rightarrow> 'c StorageVersionMigrationInterface \<Rightarrow> 'w StorageVersionMigrationInterface" where
  "liftMigrations part upd c = \<lparr>
     svmCreate = (\<lambda>m. onPart part upd (svmCreate c m)),
     svmUpdate = (\<lambda>m. onPart part upd (svmUpdate c m)),
     svmUpdateStatus = (\<lambda>m. onPart part upd (svmUpdateStatus c m)),
     svmDelete = (\<lambda>n. onPart part upd (svmDelete c n)),
     svmGet = (\<lambda>n. onPart part upd (svmGet c n))\<rparr>"

definition liftStates ::
    "('w \<Rightarrow> 'c) \<Rightarrow> ('c \<Rightarrow> 'w \<Rightarrow> 'w) \<Rightarrow> 'c StorageStateInterface \<Rightarrow> 'w StorageStateInterface" where
  "liftStates part upd c = \<lparr>
     ssCreate = (\<lambda>s. onPart part upd (ssCreate c s)),
     ssUpdate = (\<lambda>s. onPart part upd (ssUpdate c s)),
     ssUpdateStatus = (\<lambda>s. onPart part upd (ssUpdateStatus c s)),
     ssDelete = (\<lambda>n. onPart part upd (ssDelete c n)),
     ssGet = (\<lambda>n. onPart part upd (ssGet c n))\<rparr>"

lemma onPart_eq: "onPart part upd f w = (r, w') \<longleftrightarrow> (\<exists>x. f (part w) = (r, x) \<and> w' = upd x w)"
  by (auto simp: onPart_def split: prod.splits)

lemma onPart_snd [simp]: "snd (onPart part upd f w) = upd (snd (f (part w))) w"
  by (simp add: onPart_def split: prod.splits)

lemma liftMigrations_api:
  assumes "migration_api c migs valid" and part: "\<And>x w. part (upd x w) = x" and ok: "\<And>x w. ok w \<Longrightarrow> ok (upd x w)"
  shows "migration_api (liftMigrations part upd c) (\<lambda>w. migs (part w)) (\<lambda>w. valid (part w) \<and> ok w)"
proof (unfold_locales, goal_cases)
  case 1 then show ?case using migration_api.svm_get_ok [OF assms(1)] by (auto simp: liftMigrations_def onPart_eq part ok)
next
  case 2 then show ?case using migration_api.svm_get_err [OF assms(1)] by (fastforce simp: liftMigrations_def onPart_eq part ok)
next
  case 3 then show ?case using migration_api.svm_create_ok [OF assms(1)] by (auto simp: liftMigrations_def onPart_eq part ok)
next
  case 4 then show ?case using migration_api.svm_create_err [OF assms(1)] by (fastforce simp: liftMigrations_def onPart_eq part ok)
next
  case 5 then show ?case using migration_api.svm_update_ok [OF assms(1)] by (auto simp: liftMigrations_def onPart_eq part ok)
next
  case 6 then show ?case using migration_api.svm_update_err [OF assms(1)] by (fastforce simp: liftMigrations_def onPart_eq part ok)
next
  case 7 then show ?case using migration_api.svm_status_ok [OF assms(1)] by (auto simp: liftMigrations_def onPart_eq part ok)
next
  case 8 then show ?case using migration_api.svm_status_err [OF assms(1)] by (fastforce simp: liftMigrations_def onPart_eq part ok)
next
  case 9 then show ?case using migration_api.svm_delete_ok [OF assms(1)] by (auto simp: liftMigrations_def onPart_eq part ok)
next
  case 10 then show ?case using migration_api.svm_delete_err [OF assms(1)] by (fastforce simp: liftMigrations_def onPart_eq part ok)
qed

lemma liftStates_api:
  assumes "storage_state_api c states valid" and part: "\<And>x w. part (upd x w) = x" and ok: "\<And>x w. ok w \<Longrightarrow> ok (upd x w)"
  shows "storage_state_api (liftStates part upd c) (\<lambda>w. states (part w)) (\<lambda>w. valid (part w) \<and> ok w)"
proof (unfold_locales, goal_cases)
  case 1 then show ?case using storage_state_api.ss_get_ok [OF assms(1)] by (auto simp: liftStates_def onPart_eq part ok)
next
  case 2 then show ?case using storage_state_api.ss_get_err [OF assms(1)] by (fastforce simp: liftStates_def onPart_eq part ok)
next
  case 3 then show ?case using storage_state_api.ss_create_ok [OF assms(1)] by (auto simp: liftStates_def onPart_eq part ok)
next
  case 4 then show ?case using storage_state_api.ss_create_err [OF assms(1)] by (fastforce simp: liftStates_def onPart_eq part ok)
next
  case 5 then show ?case using storage_state_api.ss_status_ok [OF assms(1)] by (auto simp: liftStates_def onPart_eq part ok)
next
  case 6 then show ?case using storage_state_api.ss_status_err [OF assms(1)] by (fastforce simp: liftStates_def onPart_eq part ok)
next
  case 7 then show ?case using storage_state_api.ss_delete_ok [OF assms(1)] by (auto simp: liftStates_def onPart_eq part ok)
next
  case 8 then show ?case using storage_state_api.ss_delete_err [OF assms(1)] by (fastforce simp: liftStates_def onPart_eq part ok)
qed

end
