(* ===== verification/Fake_Clientset.thy ===== *)
theory Fake_Clientset
  imports Client_Interfaces
begin

section \<open>The fake clientset: an implementation of the interfaces\<close>

text \<open>
  \<open>pkg/clients/clientset/fake\<close> and \<open>typed/migration/v1alpha1/fake\<close>: the clientset the repository
  ships as its in-memory API server, on top of the vendored object tracker
  (\<open>client-go/testing/fixture.go\<close>) and the recorder of actions (\<open>client-go/testing/fake.go\<close>).
  It provides the interfaces of \<open>Client_Interfaces\<close>, and the locales stated there are
  interpreted on it. The clientset is the one \<open>NewSimpleClientset\<close> builds: its only reactor is
  \<open>ObjectReaction\<close> of its tracker.
\<close>

subsection \<open>The object tracker\<close>

text \<open>
  The tracker holds any object; besides the two kinds of this API group, the initializer's tests
  use it for custom resource definitions and API services.
\<close>

datatype trackedObject =
    TSVM StorageVersionMigration
  | TSS StorageState
  | TCRD CustomResourceDefinition
  | TAPIService APIService

fun objMeta :: "trackedObject \<Rightarrow> ObjectMeta" where
  "objMeta (TSVM m) = svmMeta m"
| "objMeta (TSS s) = ssMeta s"
| "objMeta (TCRD d) = crdMeta d"
| "objMeta (TAPIService a) = asMeta a"

fun setMeta :: "ObjectMeta \<Rightarrow> trackedObject \<Rightarrow> trackedObject" where
  "setMeta om (TSVM m) = TSVM (m\<lparr>svmMeta := om\<rparr>)"
| "setMeta om (TSS s) = TSS (s\<lparr>ssMeta := om\<rparr>)"
| "setMeta om (TCRD d) = TCRD (d\<lparr>crdMeta := om\<rparr>)"
| "setMeta om (TAPIService a) = TAPIService (a\<lparr>asMeta := om\<rparr>)"

datatype watchEvent = Added trackedObject | Modified trackedObject | Deleted trackedObject

record tracker =
  tObjects :: "SchemaGVR \<rightharpoonup> ((string \<times> string) \<rightharpoonup> trackedObject)"
  tWatchers :: "((SchemaGVR \<times> string) \<times> watchEvent list) list" \<comment> \<open>with what each has received\<close>

text \<open>Send an event to the watchers of the resource in the namespace or in all namespaces.\<close>

definition tNotify :: "SchemaGVR \<Rightarrow> string \<Rightarrow> watchEvent \<Rightarrow> tracker \<Rightarrow> tracker" where
  "tNotify gvr ns ev t =
     t\<lparr>tWatchers := map (\<lambda>((g, n), evs).
          if g = gvr \<and> (n = ns \<or> n = []) then ((g, n), evs @ [ev]) else ((g, n), evs)) (tWatchers t)\<rparr>"

definition tWatch :: "SchemaGVR \<Rightarrow> string \<Rightarrow> tracker \<Rightarrow> tracker" where
  "tWatch gvr ns t = t\<lparr>tWatchers := tWatchers t @ [((gvr, ns), [])]\<rparr>"

definition tGet :: "SchemaGVR \<Rightarrow> string \<Rightarrow> string \<Rightarrow> tracker \<Rightarrow> (trackedObject, error) result" where
  "tGet gvr ns name t =
     (let errNotFound = NewNotFound (sgvrGroup gvr) (sgvrResource gvr) name in
      case tObjects t gvr of
        None \<Rightarrow> Inl errNotFound
      | Some objs \<Rightarrow> (case objs (ns, name) of None \<Rightarrow> Inl errNotFound | Some obj \<Rightarrow> Inr obj))"

definition tAdd_obj ::
    "SchemaGVR \<Rightarrow> trackedObject \<Rightarrow> string \<Rightarrow> bool \<Rightarrow> tracker \<Rightarrow> error option \<times> tracker" where
  "tAdd_obj gvr obj ns replaceExisting t =
     (let obj = (if omNamespace (objMeta obj) = []
                 then setMeta (objMeta obj\<lparr>omNamespace := ns\<rparr>) obj else obj);
          newMeta = objMeta obj
      in if ns \<noteq> omNamespace newMeta then
           (Some (NewBadRequest (''request namespace does not match object namespace, request: '' @ ns
                                 @ '' object: '' @ omNamespace newMeta)), t)
         else
           (let objs = (case tObjects t gvr of None \<Rightarrow> Map.empty | Some objs \<Rightarrow> objs);
                t1 = t\<lparr>tObjects := (tObjects t)(gvr \<mapsto> objs)\<rparr>;
                key = (omNamespace newMeta, omName newMeta);
                t2 = t\<lparr>tObjects := (tObjects t)(gvr \<mapsto> objs(key \<mapsto> obj))\<rparr>
            in if objs key \<noteq> None then
                 (if replaceExisting then (None, tNotify gvr ns (Modified obj) t2)
                  else (Some (NewAlreadyExists (sgvrGroup gvr) (sgvrResource gvr) (omName newMeta)), t1))
               else if replaceExisting then
                 (Some (NewNotFound (sgvrGroup gvr) (sgvrResource gvr) (omName newMeta)), t1)
               else (None, tNotify gvr ns (Added obj) t2)))"

definition tCreate :: "SchemaGVR \<Rightarrow> trackedObject \<Rightarrow> string \<Rightarrow> tracker \<Rightarrow> error option \<times> tracker" where
  "tCreate gvr obj ns t = tAdd_obj gvr obj ns False t"

definition tUpdate :: "SchemaGVR \<Rightarrow> trackedObject \<Rightarrow> string \<Rightarrow> tracker \<Rightarrow> error option \<times> tracker" where
  "tUpdate gvr obj ns t = tAdd_obj gvr obj ns True t"

definition tDelete :: "SchemaGVR \<Rightarrow> string \<Rightarrow> string \<Rightarrow> tracker \<Rightarrow> error option \<times> tracker" where
  "tDelete gvr ns name t =
     (let err = Some (NewNotFound (sgvrGroup gvr) (sgvrResource gvr) name) in
      case tObjects t gvr of
        None \<Rightarrow> (err, t)
      | Some objs \<Rightarrow>
          (case objs (ns, name) of
             None \<Rightarrow> (err, t)
           | Some obj \<Rightarrow>
               (None, tNotify gvr ns (Deleted obj)
                        (t\<lparr>tObjects := (tObjects t)(gvr \<mapsto> objs((ns, name) := None))\<rparr>))))"

subsection \<open>Actions, the reaction of the tracker, and Invokes\<close>

datatype Action =
    GetAction SchemaGVR string string
  | CreateAction SchemaGVR string trackedObject
  | UpdateAction SchemaGVR string string trackedObject \<comment> \<open>the second string is the subresource\<close>
  | DeleteAction SchemaGVR string string
  | ListAction SchemaGVR string
  | WatchAction SchemaGVR string
  | DeleteCollectionAction SchemaGVR string

text \<open>
  \<open>ObjectReaction\<close>: the object and error returned, and the tracker afterwards. It has no reaction for
  the deletion of a collection: the action is not handled, and \<open>Invokes\<close> returns the default
  object of its caller with no error. Lists and watches are answered by \<open>InvokesList\<close> and
  \<open>InvokesWatch\<close> of the theory \<open>Fake_Lists\<close>.
\<close>

fun ObjectReaction :: "Action \<Rightarrow> tracker \<Rightarrow> (trackedObject option, error) result \<times> tracker" where
  "ObjectReaction (GetAction gvr ns name) t =
     (map_sum id Some (tGet gvr ns name t), t)"
| "ObjectReaction (CreateAction gvr ns obj) t =
     (case tCreate gvr obj ns t of
        (Some err, t1) \<Rightarrow> (Inl err, t1)
      | (None, t1) \<Rightarrow> (map_sum id Some (tGet gvr ns (omName (objMeta obj)) t1), t1))"
| "ObjectReaction (UpdateAction gvr ns sub obj) t =
     (case tUpdate gvr obj ns t of
        (Some err, t1) \<Rightarrow> (Inl err, t1)
      | (None, t1) \<Rightarrow> (map_sum id Some (tGet gvr ns (omName (objMeta obj)) t1), t1))"
| "ObjectReaction (DeleteAction gvr ns name) t =
     (case tDelete gvr ns name t of (Some err, t1) \<Rightarrow> (Inl err, t1) | (None, t1) \<Rightarrow> (Inr None, t1))"
| "ObjectReaction action t = (Inr None, t)"

record FakeClientset =
  fcActions :: "Action list"
  fcTracker :: tracker
  fcClock :: Time \<comment> \<open>the clock of the machine the clientset runs on\<close>

definition Invokes :: "Action \<Rightarrow> (FakeClientset, (trackedObject option, error) result) call" where
  "Invokes action w =
     (let w1 = w\<lparr>fcActions := fcActions w @ [action]\<rparr>;
          (r, t) = ObjectReaction action (fcTracker w1)
      in (r, w1\<lparr>fcTracker := t\<rparr>))"

subsection \<open>FakeStorageStates and FakeStorageVersionMigrations\<close>

definition storagestatesResource :: SchemaGVR where
  "storagestatesResource = WithResource SchemeGroupVersion ''storagestates''"

definition storageversionmigrationsResource :: SchemaGVR where
  "storageversionmigrationsResource = WithResource SchemeGroupVersion ''storageversionmigrations''"

definition customresourcedefinitionsResource :: SchemaGVR where
  "customresourcedefinitionsResource =
     \<lparr>sgvrGroup = ''apiextensions.k8s.io'', sgvrVersion = ''v1'', sgvrResource = ''customresourcedefinitions''\<rparr>"

definition apiservicesResource :: SchemaGVR where
  "apiservicesResource =
     \<lparr>sgvrGroup = ''apiregistration.k8s.io'', sgvrVersion = ''v1'', sgvrResource = ''apiservices''\<rparr>"

text \<open>
  The conversion \<open>obj.(*v1alpha1.StorageState)\<close> of what \<open>Invokes\<close> returned; a failed conversion is a
  panic, written here as an error. A nil object is returned with a nil error by deletions only.
\<close>

definition conversionPanic :: error where
  "conversionPanic = OtherError ''*runtime.TypeAssertionError'' ''interface conversion'' None"

fun toSS :: "(trackedObject option, error) result \<Rightarrow> (StorageState, error) result" where
  "toSS (Inl e) = Inl e"
| "toSS (Inr (Some (TSS s))) = Inr s"
| "toSS (Inr x) = Inl conversionPanic"

fun toSVM :: "(trackedObject option, error) result \<Rightarrow> (StorageVersionMigration, error) result" where
  "toSVM (Inl e) = Inl e"
| "toSVM (Inr (Some (TSVM m))) = Inr m"
| "toSVM (Inr x) = Inl conversionPanic"

fun toErr :: "('a, error) result \<Rightarrow> error option" where
  "toErr (Inl e) = Some e"
| "toErr (Inr x) = None"

definition fakeSS_Get :: "string \<Rightarrow> (FakeClientset, (StorageState, error) result) call" where
  "fakeSS_Get n w = apfst toSS (Invokes (GetAction storagestatesResource [] n) w)"

definition fakeSS_Create :: "StorageState \<Rightarrow> (FakeClientset, (StorageState, error) result) call" where
  "fakeSS_Create s w = apfst toSS (Invokes (CreateAction storagestatesResource [] (TSS s)) w)"

definition fakeSS_Update :: "StorageState \<Rightarrow> (FakeClientset, (StorageState, error) result) call" where
  "fakeSS_Update s w = apfst toSS (Invokes (UpdateAction storagestatesResource [] [] (TSS s)) w)"

definition fakeSS_UpdateStatus :: "StorageState \<Rightarrow> (FakeClientset, (StorageState, error) result) call" where
  "fakeSS_UpdateStatus s w =
     apfst toSS (Invokes (UpdateAction storagestatesResource [] ''status'' (TSS s)) w)"

definition fakeSS_Delete :: "string \<Rightarrow> (FakeClientset, error option) call" where
  "fakeSS_Delete n w = apfst toErr (Invokes (DeleteAction storagestatesResource [] n) w)"

definition FakeStorageStates :: "FakeClientset StorageStateInterface" where
  "FakeStorageStates = \<lparr>
     ssCreate = fakeSS_Create, ssUpdate = fakeSS_Update, ssUpdateStatus = fakeSS_UpdateStatus,
     ssDelete = fakeSS_Delete, ssGet = fakeSS_Get\<rparr>"

lemmas fakeSS_defs = FakeStorageStates_def fakeSS_Create_def fakeSS_Update_def fakeSS_UpdateStatus_def
  fakeSS_Delete_def fakeSS_Get_def

definition fakeSVM_Get :: "string \<Rightarrow> (FakeClientset, (StorageVersionMigration, error) result) call" where
  "fakeSVM_Get n w = apfst toSVM (Invokes (GetAction storageversionmigrationsResource [] n) w)"

definition fakeSVM_Create :: "StorageVersionMigration \<Rightarrow> (FakeClientset, (StorageVersionMigration, error) result) call" where
  "fakeSVM_Create m w = apfst toSVM (Invokes (CreateAction storageversionmigrationsResource [] (TSVM m)) w)"

definition fakeSVM_Update :: "StorageVersionMigration \<Rightarrow> (FakeClientset, (StorageVersionMigration, error) result) call" where
  "fakeSVM_Update m w = apfst toSVM (Invokes (UpdateAction storageversionmigrationsResource [] [] (TSVM m)) w)"

definition fakeSVM_UpdateStatus :: "StorageVersionMigration \<Rightarrow> (FakeClientset, (StorageVersionMigration, error) result) call" where
  "fakeSVM_UpdateStatus m w =
     apfst toSVM (Invokes (UpdateAction storageversionmigrationsResource [] ''status'' (TSVM m)) w)"

definition fakeSVM_Delete :: "string \<Rightarrow> (FakeClientset, error option) call" where
  "fakeSVM_Delete n w = apfst toErr (Invokes (DeleteAction storageversionmigrationsResource [] n) w)"

definition FakeStorageVersionMigrations :: "FakeClientset StorageVersionMigrationInterface" where
  "FakeStorageVersionMigrations = \<lparr>
     svmCreate = fakeSVM_Create, svmUpdate = fakeSVM_Update, svmUpdateStatus = fakeSVM_UpdateStatus,
     svmDelete = fakeSVM_Delete, svmGet = fakeSVM_Get\<rparr>"

lemmas fakeSVM_defs = FakeStorageVersionMigrations_def fakeSVM_Create_def fakeSVM_Update_def
  fakeSVM_UpdateStatus_def fakeSVM_Delete_def fakeSVM_Get_def

text \<open>The clock of the machine: sleeping moves it, reading it does not.\<close>

definition clockRuntime :: "FakeClientset Runtime" where
  "clockRuntime = \<lparr>
     rtNow = (\<lambda>w. (fcClock w, w)),
     rtSleep = (\<lambda>d w. w\<lparr>fcClock := fcClock w + d\<rparr>),
     rtRand = (\<lambda>w. (0, w))\<rparr>"

text \<open>
  \<open>NewSimpleClientset(objects...)\<close>: the tracker adds each object under the resource of its kind;
  an object that is already there makes it panic (\<open>None\<close>).
\<close>

fun resourceOfKind :: "trackedObject \<Rightarrow> SchemaGVR" where
  "resourceOfKind (TSVM m) = storageversionmigrationsResource"
| "resourceOfKind (TSS s) = storagestatesResource"
| "resourceOfKind (TCRD d) = customresourcedefinitionsResource"
| "resourceOfKind (TAPIService a) = apiservicesResource"

definition tAdd :: "trackedObject \<Rightarrow> tracker \<Rightarrow> error option \<times> tracker" where
  "tAdd obj t = tAdd_obj (resourceOfKind obj) obj (omNamespace (objMeta obj)) False t"

fun tAddAll :: "trackedObject list \<Rightarrow> tracker \<Rightarrow> tracker option" where
  "tAddAll [] t = Some t"
| "tAddAll (obj # objs) t = (case tAdd obj t of (None, t1) \<Rightarrow> tAddAll objs t1 | _ \<Rightarrow> None)"

definition NewSimpleClientset :: "trackedObject list \<Rightarrow> Time \<Rightarrow> FakeClientset option" where
  "NewSimpleClientset objects clock =
     (case tAddAll objects \<lparr>tObjects = Map.empty, tWatchers = []\<rparr> of
        None \<Rightarrow> None
      | Some t \<Rightarrow> Some \<lparr>fcActions = [], fcTracker = t, fcClock = clock\<rparr>)"

subsection \<open>What the tracker holds\<close>

text \<open>The cluster-scoped objects of a resource, by name.\<close>

definition view :: "SchemaGVR \<Rightarrow> tracker \<Rightarrow> string \<rightharpoonup> trackedObject" where
  "view gvr t n = (case tObjects t gvr of None \<Rightarrow> None | Some objs \<Rightarrow> objs ([], n))"

lemma view_tNotify [simp]: "view gvr (tNotify g ns ev t) = view gvr t"
  by (simp add: view_def tNotify_def fun_eq_iff)

lemma tGet_view:
  "tGet gvr [] n t = (case view gvr t n of
      None \<Rightarrow> Inl (NewNotFound (sgvrGroup gvr) (sgvrResource gvr) n) | Some obj \<Rightarrow> Inr obj)"
  by (simp add: tGet_def view_def Let_def split: option.splits)

lemma setMeta_same: "setMeta (objMeta obj) obj = obj"
  by (cases obj) simp_all

lemma root_namespace: "omNamespace om = [] \<Longrightarrow> om\<lparr>omNamespace := []\<rparr> = om"
  by simp

lemma tAdd_obj_root:
  assumes "omNamespace (objMeta obj) = []" and "n = omName (objMeta obj)"
  shows "fst (tAdd_obj gvr obj [] rep t) =
      (case view gvr t n of
         Some x \<Rightarrow> if rep then None else Some (NewAlreadyExists (sgvrGroup gvr) (sgvrResource gvr) n)
       | None \<Rightarrow> if rep then Some (NewNotFound (sgvrGroup gvr) (sgvrResource gvr) n) else None)"
    and "view gvr (snd (tAdd_obj gvr obj [] rep t)) =
      (if (view gvr t n \<noteq> None) = rep then (view gvr t)(n \<mapsto> obj) else view gvr t)"
    and "gvr' \<noteq> gvr \<Longrightarrow> view gvr' (snd (tAdd_obj gvr obj [] rep t)) = view gvr' t"
proof -
  have same: "setMeta (objMeta obj\<lparr>omNamespace := []\<rparr>) obj = obj"
    using assms(1) by (simp add: root_namespace setMeta_same)
  show "fst (tAdd_obj gvr obj [] rep t) =
      (case view gvr t n of
         Some x \<Rightarrow> if rep then None else Some (NewAlreadyExists (sgvrGroup gvr) (sgvrResource gvr) n)
       | None \<Rightarrow> if rep then Some (NewNotFound (sgvrGroup gvr) (sgvrResource gvr) n) else None)"
    using assms same by (auto simp: tAdd_obj_def view_def Let_def split: option.splits)
  show "view gvr (snd (tAdd_obj gvr obj [] rep t)) =
      (if (view gvr t n \<noteq> None) = rep then (view gvr t)(n \<mapsto> obj) else view gvr t)"
    using assms same
    by (auto simp: tAdd_obj_def Let_def fun_eq_iff)
      (auto simp: view_def fun_eq_iff split: option.splits)
  show "view gvr' (snd (tAdd_obj gvr obj [] rep t)) = view gvr' t" if "gvr' \<noteq> gvr"
    using assms same that by (auto simp: tAdd_obj_def Let_def) (auto simp: view_def fun_eq_iff)
qed

lemma tAdd_obj_bad:
  assumes "omNamespace (objMeta obj) \<noteq> []"
  shows "\<exists>msg. tAdd_obj gvr obj [] rep t = (Some (NewBadRequest msg), t)"
  using assms by (auto simp: tAdd_obj_def Let_def)

lemma tDelete_root:
  "fst (tDelete gvr [] n t) =
     (if view gvr t n = None then Some (NewNotFound (sgvrGroup gvr) (sgvrResource gvr) n) else None)"
  "view gvr (snd (tDelete gvr [] n t)) = (view gvr t)(n := None)"
  "gvr' \<noteq> gvr \<Longrightarrow> view gvr' (snd (tDelete gvr [] n t)) = view gvr' t"
  by (auto simp: tDelete_def Let_def fun_eq_iff split: option.splits)
    (auto simp: view_def split: option.splits)

lemma resources_distinct [simp]:
  "storagestatesResource \<noteq> storageversionmigrationsResource"
  "storageversionmigrationsResource \<noteq> storagestatesResource"
  "storagestatesResource \<noteq> customresourcedefinitionsResource"
  "storageversionmigrationsResource \<noteq> customresourcedefinitionsResource"
  "storagestatesResource \<noteq> apiservicesResource"
  "storageversionmigrationsResource \<noteq> apiservicesResource"
  "customresourcedefinitionsResource \<noteq> apiservicesResource"
  by (simp_all add: storagestatesResource_def storageversionmigrationsResource_def WithResource_def
      customresourcedefinitionsResource_def apiservicesResource_def SchemeGroupVersion_def)

subsection \<open>The contracts hold\<close>

definition fake_states :: "FakeClientset \<Rightarrow> string \<rightharpoonup> StorageState" where
  "fake_states w n =
     (case view storagestatesResource (fcTracker w) n of Some (TSS s) \<Rightarrow> Some s | _ \<Rightarrow> None)"

definition fake_migs :: "FakeClientset \<Rightarrow> string \<rightharpoonup> StorageVersionMigration" where
  "fake_migs w n =
     (case view storageversionmigrationsResource (fcTracker w) n of Some (TSVM m) \<Rightarrow> Some m | _ \<Rightarrow> None)"

text \<open>Each resource holds objects of its kind, under their names, in no namespace.\<close>

definition fake_wf :: "FakeClientset \<Rightarrow> bool" where
  "fake_wf w \<longleftrightarrow>
     (\<forall>n obj. view storagestatesResource (fcTracker w) n = Some obj \<longrightarrow>
        (\<exists>s. obj = TSS s \<and> ssName s = n \<and> omNamespace (ssMeta s) = [])) \<and>
     (\<forall>n obj. view storageversionmigrationsResource (fcTracker w) n = Some obj \<longrightarrow>
        (\<exists>m. obj = TSVM m \<and> svmName m = n \<and> omNamespace (svmMeta m) = []))"

text \<open>Reads of the tracker, at the level of the views.\<close>

lemma fake_states_Some:
  "fake_wf w \<Longrightarrow> fake_states w n = Some s \<longleftrightarrow>
     view storagestatesResource (fcTracker w) n = Some (TSS s)"
  by (auto simp: fake_wf_def fake_states_def split: option.splits trackedObject.splits)

lemma fake_states_None:
  "fake_wf w \<Longrightarrow> fake_states w n = None \<longleftrightarrow> view storagestatesResource (fcTracker w) n = None"
  by (auto simp: fake_wf_def fake_states_def split: option.splits trackedObject.splits)

lemma fake_migs_Some:
  "fake_wf w \<Longrightarrow> fake_migs w n = Some m \<longleftrightarrow>
     view storageversionmigrationsResource (fcTracker w) n = Some (TSVM m)"
  by (auto simp: fake_wf_def fake_migs_def split: option.splits trackedObject.splits)

lemma fake_migs_None:
  "fake_wf w \<Longrightarrow> fake_migs w n = None \<longleftrightarrow>
     view storageversionmigrationsResource (fcTracker w) n = None"
  by (auto simp: fake_wf_def fake_migs_def split: option.splits trackedObject.splits)

text \<open>A change of one view to a well-formed object, or to none, keeps the tracker well-formed.\<close>

lemma fake_put_state:
  assumes "fake_wf w" and "view storagestatesResource (fcTracker w') =
             (view storagestatesResource (fcTracker w))(ssName s \<mapsto> TSS s)"
    and "view storageversionmigrationsResource (fcTracker w') =
             view storageversionmigrationsResource (fcTracker w)"
    and "omNamespace (ssMeta s) = []"
  shows "fake_wf w' \<and> fake_states w' = (fake_states w)(ssName s \<mapsto> s) \<and> fake_migs w' = fake_migs w"
  using assms by (auto simp: fake_wf_def fake_states_def fake_migs_def fun_eq_iff)

lemma fake_put_mig:
  assumes "fake_wf w" and "view storageversionmigrationsResource (fcTracker w') =
             (view storageversionmigrationsResource (fcTracker w))(svmName m \<mapsto> TSVM m)"
    and "view storagestatesResource (fcTracker w') = view storagestatesResource (fcTracker w)"
    and "omNamespace (svmMeta m) = []"
  shows "fake_wf w' \<and> fake_migs w' = (fake_migs w)(svmName m \<mapsto> m) \<and> fake_states w' = fake_states w"
  using assms by (auto simp: fake_wf_def fake_states_def fake_migs_def fun_eq_iff)

lemma fake_same:
  assumes "fake_wf w" and "view storagestatesResource (fcTracker w') = view storagestatesResource (fcTracker w)"
    and "view storageversionmigrationsResource (fcTracker w') =
             view storageversionmigrationsResource (fcTracker w)"
  shows "fake_wf w' \<and> fake_states w' = fake_states w \<and> fake_migs w' = fake_migs w"
  using assms by (auto simp: fake_wf_def fake_states_def fake_migs_def fun_eq_iff)

lemma fake_del_state:
  assumes "fake_wf w" and "view storagestatesResource (fcTracker w') =
             (view storagestatesResource (fcTracker w))(n := None)"
    and "view storageversionmigrationsResource (fcTracker w') =
             view storageversionmigrationsResource (fcTracker w)"
  shows "fake_wf w' \<and> fake_states w' = (fake_states w)(n := None) \<and> fake_migs w' = fake_migs w"
  using assms by (auto simp: fake_wf_def fake_states_def fake_migs_def fun_eq_iff)

lemma fake_del_mig:
  assumes "fake_wf w" and "view storageversionmigrationsResource (fcTracker w') =
             (view storageversionmigrationsResource (fcTracker w))(n := None)"
    and "view storagestatesResource (fcTracker w') = view storagestatesResource (fcTracker w)"
  shows "fake_wf w' \<and> fake_migs w' = (fake_migs w)(n := None) \<and> fake_states w' = fake_states w"
  using assms by (auto simp: fake_wf_def fake_states_def fake_migs_def fun_eq_iff)

text \<open>The operations of the tracker on a root object, case by case.\<close>

lemma tAdd_obj_cases:
  obtains
    (bad) msg where "omNamespace (objMeta obj) \<noteq> []"
      "tAdd_obj gvr obj [] rep t = (Some (NewBadRequest msg), t)"
  | (clash) e t' where "omNamespace (objMeta obj) = []"
      "(view gvr t (omName (objMeta obj)) \<noteq> None) \<noteq> rep"
      "tAdd_obj gvr obj [] rep t = (Some e, t')" "\<And>g. view g t' = view g t"
  | (ok) t' where "omNamespace (objMeta obj) = []"
      "(view gvr t (omName (objMeta obj)) \<noteq> None) = rep"
      "tAdd_obj gvr obj [] rep t = (None, t')"
      "view gvr t' = (view gvr t)(omName (objMeta obj) \<mapsto> obj)"
      "\<And>g. g \<noteq> gvr \<Longrightarrow> view g t' = view g t"
proof (cases "omNamespace (objMeta obj) = []")
  case False
  then show ?thesis using tAdd_obj_bad bad by blast
next
  case True
  obtain r t' where r: "tAdd_obj gvr obj [] rep t = (r, t')" by (metis surj_pair)
  note root = tAdd_obj_root [OF True refl, where gvr = gvr and rep = rep and t = t]
  show ?thesis
  proof (cases "(view gvr t (omName (objMeta obj)) \<noteq> None) = rep")
    case same: True
    then have "r = None" using root(1) r by (auto split: option.splits if_splits)
    moreover have "view gvr t' = (view gvr t)(omName (objMeta obj) \<mapsto> obj)"
      using root(2) r same by (metis snd_conv)
    moreover have "\<And>g. g \<noteq> gvr \<Longrightarrow> view g t' = view g t" using root(3) r by (metis snd_conv)
    ultimately show ?thesis using ok [OF True same, of t'] r by metis
  next
    case diff: False
    then obtain e where "r = Some e" using root(1) r
      by (cases "view gvr t (omName (objMeta obj))") (auto split: if_splits)
    moreover have "\<And>g. view g t' = view g t" using root(2,3) r diff by (metis snd_conv)
    ultimately show ?thesis using clash [OF True diff, of e t'] r by metis
  qed
qed

lemma Invokes_write:
  assumes run: "Invokes act w = (r, w')"
    and act: "act = CreateAction gvr [] obj \<and> \<not> rep \<or> (\<exists>sub. act = UpdateAction gvr [] sub obj \<and> rep)"
  obtains
    (fail) e where "r = Inl e" "\<And>g. view g (fcTracker w') = view g (fcTracker w)"
      "omNamespace (objMeta obj) \<noteq> [] \<or> (view gvr (fcTracker w) (omName (objMeta obj)) \<noteq> None) \<noteq> rep"
  | (ok) "r = Inr (Some obj)" "omNamespace (objMeta obj) = []"
      "(view gvr (fcTracker w) (omName (objMeta obj)) \<noteq> None) = rep"
      "view gvr (fcTracker w') = (view gvr (fcTracker w))(omName (objMeta obj) \<mapsto> obj)"
      "\<And>g. g \<noteq> gvr \<Longrightarrow> view g (fcTracker w') = view g (fcTracker w)"
proof -
  have react: "ObjectReaction act (fcTracker w) =
      (case tAdd_obj gvr obj [] rep (fcTracker w) of
         (Some err, t1) \<Rightarrow> (Inl err, t1)
       | (None, t1) \<Rightarrow> (map_sum id Some (tGet gvr [] (omName (objMeta obj)) t1), t1))"
    using act by (auto simp: tCreate_def tUpdate_def)
  show ?thesis
    by (cases rule: tAdd_obj_cases [of obj gvr rep "fcTracker w"])
      (use run react fail ok in \<open>auto simp: Invokes_def Let_def tGet_view\<close>)
qed

lemma Invokes_error: "Invokes act w = (Inl e, w') \<Longrightarrow> \<exists>st. e = StatusError st"
  by (cases act)
    (auto simp: Invokes_def tGet_def tCreate_def tUpdate_def tAdd_obj_def tDelete_def Let_def
        NewNotFound_def NewAlreadyExists_def NewBadRequest_def map_sum_def
        split: prod.splits option.splits if_splits)

lemma toSVM_error: "toSVM r = Inl e \<Longrightarrow> r = Inl e \<or> e = conversionPanic"
  by (cases r rule: toSVM.cases) auto

lemma fake_svm_no_timeout:
  assumes "svmGet FakeStorageVersionMigrations n w = (Inl e, w')
           \<or> svmUpdate FakeStorageVersionMigrations m w = (Inl e, w')"
  shows "e \<noteq> ErrWaitTimeout"
proof -
  obtain act r where "Invokes act w = (r, w')" and "toSVM r = Inl e"
    using assms by (fastforce simp: fakeSVM_defs apfst_def map_prod_def
        split: prod.splits)
  then show ?thesis using toSVM_error [of r e] Invokes_error [of act w e w']
    by (auto simp: conversionPanic_def)
qed

lemma Invokes_get:
  "Invokes (GetAction gvr [] n) w =
     ((case view gvr (fcTracker w) n of
         None \<Rightarrow> Inl (NewNotFound (sgvrGroup gvr) (sgvrResource gvr) n) | Some obj \<Rightarrow> Inr (Some obj)),
      w\<lparr>fcActions := fcActions w @ [GetAction gvr [] n]\<rparr>)"
  by (auto simp: Invokes_def Let_def tGet_view split: option.splits)

lemma Invokes_delete:
  assumes "Invokes (DeleteAction gvr [] n) w = (r, w')"
  obtains
    (missing) e where "r = Inl e" "view gvr (fcTracker w) n = None"
      "\<And>g. view g (fcTracker w') = view g (fcTracker w)"
  | (ok) "r = Inr None" "view gvr (fcTracker w) n \<noteq> None"
      "view gvr (fcTracker w') = (view gvr (fcTracker w))(n := None)"
      "\<And>g. g \<noteq> gvr \<Longrightarrow> view g (fcTracker w') = view g (fcTracker w)"
proof -
  obtain d t' where d: "tDelete gvr [] n (fcTracker w) = (d, t')" by (metis surj_pair)
  have t': "fcTracker w' = t'" and r: "r = (case d of Some e \<Rightarrow> Inl e | None \<Rightarrow> Inr None)"
    using assms d by (auto simp: Invokes_def Let_def split: option.splits)
  note D = tDelete_root [where gvr = gvr and n = n and t = "fcTracker w"]
  show ?thesis
  proof (cases "view gvr (fcTracker w) n")
    case None
    then have "view g t' = view g (fcTracker w)" for g
      using D(2,3) d by (cases "g = gvr") (auto simp: fun_upd_idem)
    then show ?thesis using missing None D(1) d r t' by (auto split: option.splits)
  next
    case (Some obj)
    have "view gvr t' = (view gvr (fcTracker w))(n := None)" using D(2) d by simp
    moreover have "\<And>g. g \<noteq> gvr \<Longrightarrow> view g t' = view g (fcTracker w)" using D(3) d by (metis snd_conv)
    moreover have "d = None" using D(1) d Some by simp
    ultimately show ?thesis using ok Some r t' by (metis option.distinct(1) option.simps(4))
  qed
qed

text \<open>The calls of the typed clients, on the contents of the clientset.\<close>

lemma fake_ss_write:
  assumes wf: "fake_wf w" and run: "apfst toSS (Invokes act w) = (r, w')"
    and act: "act = CreateAction storagestatesResource [] (TSS s) \<and> \<not> rep
              \<or> (\<exists>sub. act = UpdateAction storagestatesResource [] sub (TSS s) \<and> rep)"
  shows "fake_wf w' \<and> fake_migs w' = fake_migs w \<and>
    (if omNamespace (ssMeta s) = [] \<and> (fake_states w (ssName s) \<noteq> None) = rep
     then r = Inr s \<and> fake_states w' = (fake_states w)(ssName s \<mapsto> s)
     else (\<exists>e. r = Inl e) \<and> fake_states w' = fake_states w)"
proof -
  obtain r0 where r0: "Invokes act w = (r0, w')" "r = toSS r0"
    using run by (cases "Invokes act w") auto
  show ?thesis using r0(1) act
  proof (cases rule: Invokes_write)
    case (fail e)
    then show ?thesis using fake_same [OF wf, of w'] r0(2) fake_states_None [OF wf, of "ssName s"]
      by auto
  next
    case ok
    then show ?thesis using fake_put_state [OF wf, of w' s] r0(2) fake_states_None [OF wf, of "ssName s"]
      by auto
  qed
qed

lemma fake_svm_write:
  assumes wf: "fake_wf w" and run: "apfst toSVM (Invokes act w) = (r, w')"
    and act: "act = CreateAction storageversionmigrationsResource [] (TSVM m) \<and> \<not> rep
              \<or> (\<exists>sub. act = UpdateAction storageversionmigrationsResource [] sub (TSVM m) \<and> rep)"
  shows "fake_wf w' \<and> fake_states w' = fake_states w \<and>
    (if omNamespace (svmMeta m) = [] \<and> (fake_migs w (svmName m) \<noteq> None) = rep
     then r = Inr m \<and> fake_migs w' = (fake_migs w)(svmName m \<mapsto> m)
     else (\<exists>e. r = Inl e) \<and> fake_migs w' = fake_migs w)"
proof -
  obtain r0 where r0: "Invokes act w = (r0, w')" "r = toSVM r0"
    using run by (cases "Invokes act w") auto
  show ?thesis using r0(1) act
  proof (cases rule: Invokes_write)
    case (fail e)
    then show ?thesis using fake_same [OF wf, of w'] r0(2) fake_migs_None [OF wf, of "svmName m"]
      by auto
  next
    case ok
    then show ?thesis using fake_put_mig [OF wf, of w' m] r0(2) fake_migs_None [OF wf, of "svmName m"]
      by auto
  qed
qed

lemma fake_wf_acted:
  assumes "fake_wf w" and "fcTracker w' = fcTracker w"
  shows "fake_wf w' \<and> fake_states w' = fake_states w \<and> fake_migs w' = fake_migs w"
  using fake_same [of w w'] assms by simp

lemma fake_ss_get:
  assumes wf: "fake_wf w" and run: "ssGet FakeStorageStates n w = (r, w')"
  shows "fake_wf w' \<and> fake_states w' = fake_states w \<and> fake_migs w' = fake_migs w \<and>
    (case fake_states w n of Some s \<Rightarrow> r = Inr s \<and> ssName s = n
     | None \<Rightarrow> \<exists>e. r = Inl e \<and> IsNotFound (Some e))"
proof -
  have "fcTracker w' = fcTracker w"
    and "r = toSS (case view storagestatesResource (fcTracker w) n of
           None \<Rightarrow> Inl (NewNotFound (sgvrGroup storagestatesResource) (sgvrResource storagestatesResource) n)
         | Some obj \<Rightarrow> Inr (Some obj))"
    using run by (auto simp: fakeSS_defs Invokes_get)
  with fake_wf_acted [OF wf, of w'] fake_states_Some [OF wf, of n] fake_states_None [OF wf, of n] wf
  show ?thesis by (auto simp: fake_wf_def IsNotFound_NewNotFound split: option.splits)
qed

lemma fake_svm_get:
  assumes wf: "fake_wf w" and run: "svmGet FakeStorageVersionMigrations n w = (r, w')"
  shows "fake_wf w' \<and> fake_states w' = fake_states w \<and> fake_migs w' = fake_migs w \<and>
    (case fake_migs w n of Some m \<Rightarrow> r = Inr m \<and> svmName m = n
     | None \<Rightarrow> \<exists>e. r = Inl e \<and> IsNotFound (Some e))"
proof -
  have "fcTracker w' = fcTracker w"
    and "r = toSVM (case view storageversionmigrationsResource (fcTracker w) n of
           None \<Rightarrow> Inl (NewNotFound (sgvrGroup storageversionmigrationsResource)
                               (sgvrResource storageversionmigrationsResource) n)
         | Some obj \<Rightarrow> Inr (Some obj))"
    using run by (auto simp: fakeSVM_defs Invokes_get)
  with fake_wf_acted [OF wf, of w'] fake_migs_Some [OF wf, of n] fake_migs_None [OF wf, of n] wf
  show ?thesis by (auto simp: fake_wf_def IsNotFound_NewNotFound split: option.splits)
qed

lemma fake_ss_delete:
  assumes wf: "fake_wf w" and run: "ssDelete FakeStorageStates n w = (r, w')"
  shows "fake_wf w' \<and> fake_states w' = (fake_states w)(n := None) \<and> fake_migs w' = fake_migs w"
proof -
  obtain r0 where r0: "Invokes (DeleteAction storagestatesResource [] n) w = (r0, w')"
    using run by (cases "Invokes (DeleteAction storagestatesResource [] n) w")
      (auto simp: fakeSS_defs)
  then show ?thesis
  proof (cases rule: Invokes_delete)
    case (missing e)
    then show ?thesis using fake_same [OF wf, of w'] fake_states_None [OF wf, of n]
      by (auto simp: fun_upd_idem)
  next
    case ok
    then show ?thesis using fake_del_state [OF wf, of w' n] by auto
  qed
qed

lemma fake_svm_delete:
  assumes wf: "fake_wf w" and run: "svmDelete FakeStorageVersionMigrations n w = (r, w')"
  shows "fake_wf w' \<and> fake_migs w' = (fake_migs w)(n := None) \<and> fake_states w' = fake_states w"
proof -
  obtain r0 where r0: "Invokes (DeleteAction storageversionmigrationsResource [] n) w = (r0, w')"
    using run by (cases "Invokes (DeleteAction storageversionmigrationsResource [] n) w")
      (auto simp: fakeSVM_defs)
  then show ?thesis
  proof (cases rule: Invokes_delete)
    case (missing e)
    then show ?thesis using fake_same [OF wf, of w'] fake_migs_None [OF wf, of n]
      by (auto simp: fun_upd_idem)
  next
    case ok
    then show ?thesis using fake_del_mig [OF wf, of w' n] by auto
  qed
qed

lemma fake_ss_create:
  "fake_wf w \<Longrightarrow> ssCreate FakeStorageStates s w = (r, w') \<Longrightarrow>
   fake_wf w' \<and> fake_migs w' = fake_migs w \<and>
    (if omNamespace (ssMeta s) = [] \<and> fake_states w (ssName s) = None
     then r = Inr s \<and> fake_states w' = (fake_states w)(ssName s \<mapsto> s)
     else (\<exists>e. r = Inl e) \<and> fake_states w' = fake_states w)"
  using fake_ss_write [of w "CreateAction storagestatesResource [] (TSS s)" r w' s False]
  by (simp add: fakeSS_defs)

lemma fake_ss_status:
  "fake_wf w \<Longrightarrow> ssUpdateStatus FakeStorageStates s w = (r, w') \<Longrightarrow>
   fake_wf w' \<and> fake_migs w' = fake_migs w \<and>
    (if omNamespace (ssMeta s) = [] \<and> fake_states w (ssName s) \<noteq> None
     then r = Inr s \<and> fake_states w' = (fake_states w)(ssName s \<mapsto> s)
     else (\<exists>e. r = Inl e) \<and> fake_states w' = fake_states w)"
  using fake_ss_write [of w "UpdateAction storagestatesResource [] ''status'' (TSS s)" r w' s True]
  by (simp add: fakeSS_defs)

lemma fake_svm_create:
  "fake_wf w \<Longrightarrow> svmCreate FakeStorageVersionMigrations m w = (r, w') \<Longrightarrow>
   fake_wf w' \<and> fake_states w' = fake_states w \<and>
    (if omNamespace (svmMeta m) = [] \<and> fake_migs w (svmName m) = None
     then r = Inr m \<and> fake_migs w' = (fake_migs w)(svmName m \<mapsto> m)
     else (\<exists>e. r = Inl e) \<and> fake_migs w' = fake_migs w)"
  using fake_svm_write [of w "CreateAction storageversionmigrationsResource [] (TSVM m)" r w' m False]
  by (simp add: fakeSVM_defs)

lemma fake_svm_update:
  "fake_wf w \<Longrightarrow> svmUpdate FakeStorageVersionMigrations m w = (r, w') \<or>
     svmUpdateStatus FakeStorageVersionMigrations m w = (r, w') \<Longrightarrow>
   fake_wf w' \<and> fake_states w' = fake_states w \<and>
    (if omNamespace (svmMeta m) = [] \<and> fake_migs w (svmName m) \<noteq> None
     then r = Inr m \<and> fake_migs w' = (fake_migs w)(svmName m \<mapsto> m)
     else (\<exists>e. r = Inl e) \<and> fake_migs w' = fake_migs w)"
  using fake_svm_write [of w "UpdateAction storageversionmigrationsResource [] [] (TSVM m)" r w' m True]
    fake_svm_write [of w "UpdateAction storageversionmigrationsResource [] ''status'' (TSVM m)" r w' m True]
  by (auto simp: fakeSVM_defs)

lemma clockRuntime_sel [simp]:
  "rtNow clockRuntime w = (fcClock w, w)"
  "rtSleep clockRuntime d w = w\<lparr>fcClock := fcClock w + d\<rparr>"
  "rtRand clockRuntime w = (0, w)"
  by (simp_all add: clockRuntime_def)

interpretation fake_ss: storage_state_live FakeStorageStates fake_states fake_wf clockRuntime
proof (unfold_locales, goal_cases)
  case (1 w n s w') then show ?case using fake_ss_get [of w n "Inr s" w']
    by (auto split: option.splits)
next
  case (2 w n e w') then show ?case using fake_ss_get [of w n "Inl e" w']
    by (auto split: option.splits)
next
  case (3 w s s' w') then show ?case using fake_ss_create [of w s "Inr s'" w']
    by (auto simp: post_state_def split: if_splits)
next
  case (4 w s e w') then show ?case using fake_ss_create [of w s "Inl e" w']
    by (auto split: if_splits)
next
  case (5 w s s' w') then show ?case using fake_ss_status [of w s "Inr s'" w']
    by (auto simp: put_status_def status_written_def split: if_splits)
next
  case (6 w s e w') then show ?case using fake_ss_status [of w s "Inl e" w']
    by (auto split: if_splits)
next
  case (7 w n w') then show ?case using fake_ss_delete by blast
next
  case (8 w n e w') then show ?case using fake_ss_delete by blast
next
  case (9 w d) then show ?case using fake_wf_acted [of w "w\<lparr>fcClock := fcClock w + d\<rparr>"]
    by simp
next
  case (10 w) then show ?case by simp
next
  case (11 w n s) then show ?case using fake_ss_get [of w n]
    by (cases "ssGet FakeStorageStates n w") auto
next
  case (12 w n) then show ?case using fake_ss_get [of w n]
    by (cases "ssGet FakeStorageStates n w") auto
next
  case (13 w s) then show ?case using fake_ss_create [of w s]
    by (cases "ssCreate FakeStorageStates s w") auto
next
  case (14 w s s0)
  moreover from this have "omNamespace (ssMeta s0) = []"
    using fake_states_Some [of w "ssName s" s0] by (auto simp: fake_wf_def)
  ultimately show ?case using fake_ss_status [of w s]
    by (cases "ssUpdateStatus FakeStorageStates s w") auto
qed

interpretation fake_svm: migration_env FakeStorageVersionMigrations fake_migs fake_wf clockRuntime
proof (unfold_locales, goal_cases)
  case (1 w n m w') then show ?case using fake_svm_get [of w n "Inr m" w']
    by (auto split: option.splits)
next
  case (2 w n e w') then show ?case using fake_svm_get [of w n "Inl e" w']
    by (auto split: option.splits)
next
  case (3 w m m' w') then show ?case using fake_svm_create [of w m "Inr m'" w']
    by (auto simp: post_mig_def split: if_splits)
next
  case (4 w m e w') then show ?case using fake_svm_create [of w m "Inl e" w']
    by (auto split: if_splits)
next
  case (5 w m m' w') then show ?case using fake_svm_update [of w m "Inr m'" w']
    by (auto simp: put_spec_def split: if_splits)
next
  case (6 w m e w') then show ?case using fake_svm_update [of w m "Inl e" w']
    by (auto split: if_splits)
next
  case (7 w m m' w') then show ?case using fake_svm_update [of w m "Inr m'" w']
    by (auto simp: put_svm_status_def split: if_splits)
next
  case (8 w m e w') then show ?case using fake_svm_update [of w m "Inl e" w']
    by (auto split: if_splits)
next
  case (9 w n w') then show ?case using fake_svm_delete by blast
next
  case (10 w n e w') then show ?case using fake_svm_delete by blast
next
  case (11 w d) then show ?case using fake_wf_acted [of w "w\<lparr>fcClock := fcClock w + d\<rparr>"]
    by simp
next
  case (13 w n e w' m) then show ?case using fake_svm_no_timeout by blast
qed simp_all

text \<open>The clientset that \<open>NewSimpleClientset\<close> builds from cluster-scoped objects is well-formed.\<close>

lemma tAddAll_wf:
  assumes "fake_wf \<lparr>fcActions = [], fcTracker = t, fcClock = k\<rparr>"
    and "\<forall>obj \<in> set objs. omNamespace (objMeta obj) = []" and "tAddAll objs t = Some t'"
  shows "fake_wf \<lparr>fcActions = [], fcTracker = t', fcClock = k\<rparr>"
  using assms
proof (induction objs arbitrary: t)
  case (Cons obj objs)
  let ?w = "\<lambda>t. \<lparr>fcActions = [], fcTracker = t, fcClock = k\<rparr>"
  have ns: "omNamespace (objMeta obj) = []" using Cons.prems by simp
  obtain t1 where t1: "tAdd obj t = (None, t1)" "tAddAll objs t1 = Some t'"
    using Cons.prems(3) by (auto split: prod.splits option.splits)
  have "fake_wf (?w t1)"
  proof (cases rule: tAdd_obj_cases [of obj "resourceOfKind obj" False t])
    case (ok t2)
    then have "t2 = t1" using t1 ns by (simp add: tAdd_def)
    with ok fake_put_state [OF Cons.prems(1), of "?w t1"] fake_put_mig [OF Cons.prems(1), of "?w t1"]
      fake_same [OF Cons.prems(1), of "?w t1"]
    show ?thesis by (cases obj) auto
  qed (use t1 ns in \<open>auto simp: tAdd_def\<close>)
  then show ?case using Cons t1 by simp
qed simp

lemma NewSimpleClientset_wf:
  assumes "\<forall>obj \<in> set objs. omNamespace (objMeta obj) = []"
    and "NewSimpleClientset objs k = Some w"
  shows "fake_wf w"
proof -
  obtain t where t: "tAddAll objs \<lparr>tObjects = Map.empty, tWatchers = []\<rparr> = Some t"
      and w: "w = \<lparr>fcActions = [], fcTracker = t, fcClock = k\<rparr>"
    using assms(2) by (auto simp: NewSimpleClientset_def split: option.splits)
  have "fake_wf \<lparr>fcActions = [], fcTracker = \<lparr>tObjects = Map.empty, tWatchers = []\<rparr>, fcClock = k\<rparr>"
    by (simp add: fake_wf_def view_def)
  from tAddAll_wf [OF this assms(1) t] show ?thesis by (simp add: w)
qed

subsection \<open>Example contents\<close>

definition exampleMigration :: StorageVersionMigration where
  "exampleMigration =
     \<lparr>svmTypeMeta = zeroTypeMeta, svmMeta = zeroObjectMeta\<lparr>omName := ''pods''\<rparr>,
      svmSpec = \<lparr>specResource = \<lparr>gvrGroup = [], gvrVersion = ''v1'', gvrResource = ''pods''\<rparr>,
                 specContinueToken = []\<rparr>,
      svmStatus = \<lparr>smConditions = []\<rparr>\<rparr>"

definition exampleState :: StorageState where
  "exampleState =
     \<lparr>ssTypeMeta = zeroTypeMeta, ssMeta = zeroObjectMeta\<lparr>omName := ''pods''\<rparr>,
      ssSpec = \<lparr>ssSpecResource = \<lparr>grGroup = [], grResource = ''pods''\<rparr>\<rparr>,
      ssStatus = \<lparr>PersistedStorageVersionHashes = [''h1''], CurrentStorageVersionHash = ''h1'',
                  LastHeartbeatTime = 0\<rparr>\<rparr>"

definition exampleWorld :: FakeClientset where
  "exampleWorld = the (NewSimpleClientset [TSVM exampleMigration, TSS exampleState] 0)"

lemma exampleWorld_built:
  "NewSimpleClientset [TSVM exampleMigration, TSS exampleState] 0 = Some exampleWorld"
proof -
  have "NewSimpleClientset [TSVM exampleMigration, TSS exampleState] 0 \<noteq> None" by code_simp
  then show ?thesis by (auto simp: exampleWorld_def)
qed

lemma exampleWorld_wf: "fake_wf exampleWorld"
  by (rule NewSimpleClientset_wf [OF _ exampleWorld_built])
    (simp add: exampleMigration_def exampleState_def zeroObjectMeta_def)

end
