(* ===== verification/Progress.thy ===== *)
theory Progress
  imports Client_Interfaces Fake_Clientset
begin

section \<open>The progress tracker\<close>

text \<open>
  \<open>pkg/migrator/progress.go\<close>: the continue token of a migration is kept in the spec of its
  StorageVersionMigration object, so that a migrator that is restarted resumes where the last
  one stopped. The interface \<open>progressInterface\<close> is a record, its contract the locale
  \<open>progress_api\<close>, and \<open>progressTracker\<close> provides it over any migration client that
  satisfies \<open>migration_env\<close>.
\<close>

record 'w progressInterface =
  piSave :: "string \<Rightarrow> ('w, error option) call"
  piLoad :: "('w, (string, error) result) call"

record 'w progressTracker =
  ptClient :: "'w StorageVersionMigrationInterface"
  ptName :: string

definition setContinueToken :: "string \<Rightarrow> StorageVersionMigration \<Rightarrow> StorageVersionMigration" where
  "setContinueToken t m = m\<lparr>svmSpec := (svmSpec m)\<lparr>specContinueToken := t\<rparr>\<rparr>"

text \<open>One attempt of \<open>save\<close>: the closure given to \<open>RetryOnConflict\<close>. It captures no variable.\<close>

definition save_attempt ::
    "'w progressTracker \<Rightarrow> string \<Rightarrow> unit \<times> 'w \<Rightarrow> error option \<times> (unit \<times> 'w)" where
  "save_attempt p continueToken = (\<lambda>(v, w).
     case svmGet (ptClient p) (ptName p) w of
       (Inl err, w1) \<Rightarrow> (Some err, (v, w1))
     | (Inr m, w1) \<Rightarrow>
         (case svmUpdate (ptClient p) (setContinueToken continueToken m) w1 of
            (Inl err, w2) \<Rightarrow> (Some err, (v, w2))
          | (Inr m', w2) \<Rightarrow> (None, (v, w2))))"

definition save :: "'w Runtime \<Rightarrow> 'w progressTracker \<Rightarrow> string \<Rightarrow> ('w, error option) call" where
  "save rt p continueToken w =
     (let (err, (v, w')) = RetryOnConflict rt DefaultRetry (save_attempt p continueToken) ((), w)
      in (err, w'))"

definition load :: "'w progressTracker \<Rightarrow> ('w, (string, error) result) call" where
  "load p w =
     (case svmGet (ptClient p) (ptName p) w of
        (Inl err, w1) \<Rightarrow> (Inl err, w1)
      | (Inr m, w1) \<Rightarrow> (Inr (specContinueToken (svmSpec m)), w1))"

definition NewProgressTracker ::
    "'w Runtime \<Rightarrow> 'w StorageVersionMigrationInterface \<Rightarrow> string \<Rightarrow> 'w progressInterface" where
  "NewProgressTracker rt client name =
     (let p = \<lparr>ptClient = client, ptName = name\<rparr> in \<lparr>piSave = save rt p, piLoad = load p\<rparr>)"

subsection \<open>The contract of a progress interface\<close>

text \<open>\<open>saved w\<close> is the token kept in world \<open>w\<close>, \<open>None\<close> when the migration object is gone.\<close>

locale progress_api =
  fixes p :: "'w progressInterface"
    and saved :: "'w \<Rightarrow> string option"
    and wf :: "'w \<Rightarrow> bool"
  assumes load_ok: "wf w \<Longrightarrow> piLoad p w = (Inr t, w') \<Longrightarrow> wf w' \<and> saved w = Some t \<and> saved w' = saved w"
    and load_err: "wf w \<Longrightarrow> piLoad p w = (Inl e, w') \<Longrightarrow> wf w' \<and> saved w' = saved w"
    and save_ok: "wf w \<Longrightarrow> piSave p t w = (None, w') \<Longrightarrow> wf w' \<and> saved w' = Some t"
    and save_err: "wf w \<Longrightarrow> piSave p t w = (Some e, w') \<Longrightarrow> wf w' \<and> saved w' \<in> {saved w, Some t}"
begin

lemma save_then_load:
  assumes "wf w" and "piSave p t w = (None, w1)" and "piLoad p w1 = (Inr t', w2)"
  shows "t' = t"
  using save_ok [OF assms(1,2)] load_ok [OF _ assms(3)] by auto

lemma save_cases: "wf w \<Longrightarrow> piSave p t w = (r, w') \<Longrightarrow> wf w' \<and> saved w' \<in> {saved w, Some t}"
  using save_ok [of w t w'] save_err [of w t _ w'] by (cases r) auto

end

subsection \<open>save changes the token and nothing else\<close>

text \<open>The migrations of a server after the token of one of them was set.\<close>

definition token_set ::
    "string \<Rightarrow> string \<Rightarrow> (string \<rightharpoonup> StorageVersionMigration) \<Rightarrow> (string \<rightharpoonup> StorageVersionMigration) \<Rightarrow> bool"
  where
  "token_set n t ms ms' \<longleftrightarrow>
     (\<exists>old stored. ms n = Some old \<and> ms' = ms(n \<mapsto> stored) \<and> svmName stored = svmName old
        \<and> svmSpec stored = (svmSpec old)\<lparr>specContinueToken := t\<rparr> \<and> svmStatus stored = svmStatus old)"

lemma token_set_put:
  assumes "ms n = Some m" and "svmName m = n" and "put_spec ms (setContinueToken t m) ms'"
  shows "token_set n t ms ms'"
  using assms by (auto simp: token_set_def put_spec_def setContinueToken_def)

lemma token_set_trans:
  assumes "token_set n t ms ms'" and "token_set n t ms' ms''"
  shows "token_set n t ms ms''"
  using assms by (auto simp: token_set_def)

context migration_env
begin

lemma save_attempt_spec:
  assumes "wf w" and "save_attempt \<lparr>ptClient = c, ptName = n\<rparr> t ((), w) = (r, (v, w'))"
  shows "wf w' \<and> (case r of None \<Rightarrow> token_set n t (migs w) (migs w')
                  | Some e \<Rightarrow> migs w' = migs w \<or> token_set n t (migs w) (migs w'))"
proof (cases "svmGet c n w")
  case (Pair g w1)
  show ?thesis
  proof (cases g)
    case (Inl e)
    with Pair assms svm_get_err [of w n e w1] show ?thesis by (auto simp: save_attempt_def)
  next
    case (Inr m)
    obtain u w2 where u: "svmUpdate c (setContinueToken t m) w1 = (u, w2)" by (metis surj_pair)
    have got: "wf w1" "migs w n = Some m" "svmName m = n" "migs w1 = migs w"
      using svm_get_ok [OF assms(1)] Pair Inr by auto
    have put: "token_set n t (migs w) (migs w2)" if "put_spec (migs w1) (setContinueToken t m) (migs w2)"
      using token_set_put [of "migs w" n m t "migs w2"] got that by simp
    show ?thesis
    proof (cases u)
      case u': (Inl e)
      with svm_update_err [OF got(1)] u got(4) put assms(2) Pair Inr
      show ?thesis by (fastforce simp: save_attempt_def)
    next
      case u': (Inr m')
      with svm_update_ok [OF got(1)] u put assms(2) Pair Inr
      show ?thesis by (fastforce simp: save_attempt_def)
    qed
  qed
qed

lemma save_attempt_no_timeout:
  "wf w \<Longrightarrow> save_attempt \<lparr>ptClient = c, ptName = n\<rparr> t (v, w) = (Some e, s) \<Longrightarrow> e \<noteq> ErrWaitTimeout"
  using svm_no_timeout [of w n e] svm_get_ok [of w n] svm_no_timeout [of _ n e]
  by (fastforce simp: save_attempt_def split: prod.splits sum.splits)

lemma save_spec:
  assumes wf: "wf w" and run: "save rt \<lparr>ptClient = c, ptName = n\<rparr> t w = (r, w')"
  shows "wf w' \<and> (case r of None \<Rightarrow> token_set n t (migs w) (migs w')
                  | Some e \<Rightarrow> migs w' = migs w \<or> token_set n t (migs w) (migs w'))"
proof -
  let ?p = "\<lparr>ptClient = c, ptName = n\<rparr>"
  let ?P = "\<lambda>(v :: unit, w'). wf w' \<and> (migs w' = migs w \<or> token_set n t (migs w) (migs w'))"
  let ?S = "\<lambda>(v :: unit, w'). wf w' \<and> token_set n t (migs w) (migs w')"
  have ok: "?S s1" if "?P s" and "save_attempt ?p t s = (None, s1)" for s s1
    using that save_attempt_spec [of "snd s" n t None "fst s1" "snd s1"]
      token_set_trans [of n t "migs w" "migs (snd s)" "migs (snd s1)"] by (cases s, cases s1) auto
  have err: "?P s1 \<and> e \<noteq> ErrWaitTimeout" if "?P s" and "save_attempt ?p t s = (Some e, s1)" for s s1 e
    using that save_attempt_spec [of "snd s" n t "Some e" "fst s1" "snd s1"]
      save_attempt_no_timeout [of "snd s" n t "fst s" e s1]
      token_set_trans [of n t "migs w" "migs (snd s)" "migs (snd s1)"] by (cases s, cases s1) auto
  obtain v where run': "OnError rt DefaultRetry IsConflict (save_attempt ?p t) ((), w) = (r, (v, w'))"
    using run by (auto simp: save_def RetryOnConflict_def split: prod.splits)
  have "case r of None \<Rightarrow> ?S (v, w') | Some e \<Rightarrow> ?P (v, w')"
    by (rule OnError_inv [where b = DefaultRetry and n = 4 and P = ?P and S = ?S, OF _ _ _ _ _ ok err run'])
      (use wf svm_rand svm_sleep in auto)
  then show ?thesis by (auto split: option.splits)
qed

lemma load_spec:
  assumes wf: "wf w" and run: "load \<lparr>ptClient = c, ptName = n\<rparr> w = (r, w')"
  shows "wf w' \<and> migs w' = migs w \<and>
    (\<forall>t. r = Inr t \<longrightarrow> map_option (specContinueToken \<circ> svmSpec) (migs w n) = Some t)"
proof (cases "svmGet c n w")
  case (Pair g w1)
  then show ?thesis using run svm_get_ok [OF wf, of n] svm_get_err [OF wf, of n]
    by (cases g) (auto simp: load_def)
qed

end

text \<open>Every migration client that keeps its contract gives a progress interface that does.\<close>

definition savedToken :: "('w \<Rightarrow> string \<rightharpoonup> StorageVersionMigration) \<Rightarrow> string \<Rightarrow> 'w \<Rightarrow> string option" where
  "savedToken ms n w = map_option (\<lambda>m. specContinueToken (svmSpec m)) (ms w n)"

lemma savedToken_set: "token_set n t (ms w) (ms w') \<Longrightarrow> savedToken ms n w' = Some t"
  by (auto simp: token_set_def savedToken_def)

sublocale migration_env \<subseteq> tracker: progress_api "NewProgressTracker rt c n" "savedToken migs n" wf for n
proof (unfold_locales, goal_cases)
  case (1 w t w')
  then show ?case using load_spec [of w n "Inr t" w']
    by (auto simp: NewProgressTracker_def savedToken_def Let_def comp_def)
next
  case (2 w e w')
  then show ?case using load_spec [of w n "Inl e" w']
    by (auto simp: NewProgressTracker_def savedToken_def Let_def)
next
  case (3 w t w')
  then show ?case using save_spec [of w n t None w'] savedToken_set [of n t migs w w']
    by (auto simp: NewProgressTracker_def Let_def)
next
  case (4 w t e w')
  then show ?case using save_spec [of w n t "Some e" w'] savedToken_set [of n t migs w w']
    by (auto simp: NewProgressTracker_def savedToken_def Let_def)
qed

subsection \<open>The properties of the tracker\<close>



text \<open>
  C15. A token that was saved is the token that the next migrator loads, whatever happened to
  other migrations and however much time passed in between.
\<close>

theorem save_load_roundtrip:
  assumes env: "migration_env c migs valid rt" and "valid w"
    and "save rt \<lparr>ptClient = c, ptName = n\<rparr> t w = (None, w1)"
    and "migs w2 n = migs w1 n" and "valid w2"
    and "load \<lparr>ptClient = c, ptName = n\<rparr> w2 = (Inr t', w3)"
  shows "t' = t"
proof -
  note sv = migration_env.save_spec [OF env assms(2,3)]
  note ld = migration_env.load_spec [OF env assms(5,6)]
  show ?thesis using sv ld assms(4) by (auto simp: token_set_def)
qed

theorem save_load_roundtrip_witness:
  "fst (load \<lparr>ptClient = FakeStorageVersionMigrations, ptName = ''pods''\<rparr>
          (snd (save clockRuntime \<lparr>ptClient = FakeStorageVersionMigrations, ptName = ''pods''\<rparr> ''tok''
                  exampleWorld))) = Inr ''tok''"
proof -
  let ?p = "\<lparr>ptClient = FakeStorageVersionMigrations, ptName = ''pods''\<rparr>"
  let ?s = "save clockRuntime ?p ''tok'' exampleWorld"
  have s: "?s = (None, snd ?s)" by (rule prod_eqI) (code_simp, simp)
  have wf: "fake_wf (snd ?s)" using fake_svm.save_spec [OF exampleWorld_wf s] by simp
  have "\<not> isl (fst (load ?p (snd ?s)))" by code_simp
  then obtain t' where l: "load ?p (snd ?s) = (Inr t', snd (load ?p (snd ?s)))"
    by (cases "load ?p (snd ?s)"; cases "fst (load ?p (snd ?s))") auto
  from save_load_roundtrip [OF fake_svm.migration_env_axioms exampleWorld_wf s refl wf l] l
  show ?thesis by (metis fst_conv)
qed

end
