(* ===== verification/Metrics.thy ===== *)
theory Metrics
  imports Api_Types
begin

section \<open>The metrics of the core migrator\<close>

text \<open>
  \<open>pkg/migrator/metrics/metrics.go\<close>: the counters and the gauge the migrator exports. A prometheus
  vector maps label values to samples; \<open>WithLabelValues\<close> creates the sample at zero when it is
  not there yet. A sample is a \<open>float64\<close>; the values written here are integers.
\<close>

record CoreMigratorMetrics =
  objectsMigrated :: "string \<rightharpoonup> int"
  objectsRemaining :: "string \<rightharpoonup> int"
  migration :: "string \<times> string \<rightharpoonup> int" \<comment> \<open>by resource and status\<close>

definition newCoreMigratorMetrics :: CoreMigratorMetrics where
  "newCoreMigratorMetrics =
     \<lparr>objectsMigrated = Map.empty, objectsRemaining = Map.empty, migration = Map.empty\<rparr>"

definition WithLabelValues :: "('l \<rightharpoonup> int) \<Rightarrow> 'l \<Rightarrow> int" where
  "WithLabelValues vec l = (case vec l of None \<Rightarrow> 0 | Some v \<Rightarrow> v)"

definition Reset :: "CoreMigratorMetrics \<Rightarrow> CoreMigratorMetrics" where
  "Reset m =
     m\<lparr>objectsMigrated := Map.empty, objectsRemaining := Map.empty, migration := Map.empty\<rparr>"

definition ObserveObjectsMigrated :: "int \<Rightarrow> string \<Rightarrow> CoreMigratorMetrics \<Rightarrow> CoreMigratorMetrics" where
  "ObserveObjectsMigrated added r m =
     m\<lparr>objectsMigrated := (objectsMigrated m)(r \<mapsto> WithLabelValues (objectsMigrated m) r + added)\<rparr>"

definition ObserveObjectsRemaining :: "int \<Rightarrow> string \<Rightarrow> CoreMigratorMetrics \<Rightarrow> CoreMigratorMetrics" where
  "ObserveObjectsRemaining count r m = m\<lparr>objectsRemaining := (objectsRemaining m)(r \<mapsto> count)\<rparr>"

definition ObserveSucceededMigration :: "string \<Rightarrow> CoreMigratorMetrics \<Rightarrow> CoreMigratorMetrics" where
  "ObserveSucceededMigration r m =
     m\<lparr>migration := (migration m)((r, ''Succeeded'') \<mapsto>
                       WithLabelValues (migration m) (r, ''Succeeded'') + 1)\<rparr>"

definition ObserveFailedMigration :: "string \<Rightarrow> CoreMigratorMetrics \<Rightarrow> CoreMigratorMetrics" where
  "ObserveFailedMigration r m =
     m\<lparr>migration := (migration m)((r, ''Failed'') \<mapsto>
                       WithLabelValues (migration m) (r, ''Failed'') + 1)\<rparr>"

lemmas metrics_defs = ObserveObjectsMigrated_def ObserveObjectsRemaining_def
  ObserveSucceededMigration_def ObserveFailedMigration_def

text \<open>The samples a dashboard reads.\<close>

definition migratedCount :: "CoreMigratorMetrics \<Rightarrow> string \<Rightarrow> int" where
  "migratedCount m r = WithLabelValues (objectsMigrated m) r"

definition migrationCount :: "CoreMigratorMetrics \<Rightarrow> string \<Rightarrow> string \<Rightarrow> int" where
  "migrationCount m r status = WithLabelValues (migration m) (r, status)"

lemma migratedCount_Observe [frame_simps]:
  "migratedCount (ObserveObjectsMigrated n r m) r' = migratedCount m r' + (if r' = r then n else 0)"
  "migratedCount (ObserveObjectsRemaining n r m) r' = migratedCount m r'"
  "migratedCount (ObserveSucceededMigration r m) r' = migratedCount m r'"
  "migratedCount (ObserveFailedMigration r m) r' = migratedCount m r'"
  by (simp_all add: migratedCount_def metrics_defs WithLabelValues_def)

lemma migrationCount_Observe [frame_simps]:
  "migrationCount (ObserveObjectsMigrated n r m) r' s = migrationCount m r' s"
  "migrationCount (ObserveObjectsRemaining n r m) r' s = migrationCount m r' s"
  "migrationCount (ObserveSucceededMigration r m) r' s =
     migrationCount m r' s + (if r' = r \<and> s = ''Succeeded'' then 1 else 0)"
  "migrationCount (ObserveFailedMigration r m) r' s =
     migrationCount m r' s + (if r' = r \<and> s = ''Failed'' then 1 else 0)"
  by (auto simp: migrationCount_def metrics_defs WithLabelValues_def)

end
