(* ===== verification/Core_Migrator.thy ===== *)
theory Core_Migrator
  imports Progress Metrics
begin

section \<open>The core migrator\<close>

text \<open>
  \<open>pkg/migrator/core.go\<close>: \<open>Run\<close> lists the objects of one resource in chunks and writes every one back
  unchanged, so that the API server encodes it in its current storage version; the continue
  token of the listing is saved after each chunk. The loops of \<open>migrateOneItem\<close> and \<open>Run\<close> may go on
  forever (a retriable error is retried without a bound): they are \<open>partial_function\<close>s into
  \<open>option\<close>, where \<open>None\<close> means that the call never returns. \<open>migrateList\<close> is written here for the
  one worker of \<open>defaultConcurrency\<close>; the theory \<open>Migrate_List\<close> models its goroutines and channels for
  any number of workers and shows that one worker computes this function.

  Logging (\<open>klog\<close>, \<open>utilruntime.HandleError\<close>) has no effect on the modelled state.
\<close>

record 'w migrator =
  mgResource :: SchemaGVR
  mgClient :: "'w DynamicInterface"
  mgProgress :: "'w progressInterface"
  mgConcurrency :: int

definition defaultChunkLimit :: int where "defaultChunkLimit = 500"
definition defaultConcurrency :: int where "defaultConcurrency = 1"

definition NewMigrator ::
    "SchemaGVR \<Rightarrow> 'w DynamicInterface \<Rightarrow> 'w progressInterface \<Rightarrow> 'w migrator" where
  "NewMigrator r client progress =
     \<lparr>mgResource = r, mgClient = client, mgProgress = progress,
      mgConcurrency = defaultConcurrency\<rparr>"

definition NamespaceAll :: string where "NamespaceAll = []"

definition get :: "'w migrator \<Rightarrow> string \<Rightarrow> string \<Rightarrow> ('w, (Unstructured, error) result) call" where
  "get m namespace name = dynGet (mgClient m) (mgResource m) namespace name"

definition put :: "'w migrator \<Rightarrow> string \<Rightarrow> Unstructured \<Rightarrow> ('w, (Unstructured, error) result) call" where
  "put m namespace obj = dynUpdate (mgClient m) (mgResource m) namespace obj"

definition list :: "'w migrator \<Rightarrow> ListOptions \<Rightarrow> ('w, (UnstructuredList, error) result) call" where
  "list m options = dynList (mgClient m) (mgResource m) NamespaceAll options"

subsection \<open>One object\<close>

text \<open>\<open>try\<close> returns whether the next try has to GET first, and the error.\<close>

definition try_put ::
    "'w migrator \<Rightarrow> string \<Rightarrow> Unstructured \<Rightarrow> ('w, bool \<times> error option) call" where
  "try_put m namespace item w =
     (case put m namespace item w of
        (Inr obj, w1) \<Rightarrow> ((False, None), w1)
      | (Inl err, w1) \<Rightarrow> ((IsConflict (Some err), Some err), w1))"

definition try_migrate ::
    "'w migrator \<Rightarrow> string \<Rightarrow> string \<Rightarrow> Unstructured \<Rightarrow> bool \<Rightarrow> ('w, bool \<times> error option) call" where
  "try_migrate m namespace name item get_first w =
     (if get_first then
        (case get m namespace name w of
           (Inl err, w1) \<Rightarrow> ((True, Some err), w1)
         | (Inr item', w1) \<Rightarrow> try_put m namespace item' w1)
      else try_put m namespace item w)"

text \<open>The wait before the next try that the server suggests.\<close>

definition sleepSuggested :: "'w Runtime \<Rightarrow> error option \<Rightarrow> 'w \<Rightarrow> 'w" where
  "sleepSuggested rt err w =
     (let (seconds, delayed) = SuggestsClientDelay err
      in if delayed then rtSleep rt (seconds * second) w else w)"

partial_function (option) migrateOneItem_loop ::
    "'w Runtime \<Rightarrow> 'w migrator \<Rightarrow> string \<Rightarrow> string \<Rightarrow> Unstructured \<Rightarrow> bool \<Rightarrow> 'w \<Rightarrow>
     (error option \<times> 'w) option" where
  "migrateOneItem_loop rt m namespace name item getBeforePut w =
     (case try_migrate m namespace name item getBeforePut w of
        ((getBeforePut', err), w1) \<Rightarrow>
          if err = None \<or> IsNotFound err then Some (None, w1)
          else if canRetry err then
            migrateOneItem_loop rt m namespace name item getBeforePut' (sleepSuggested rt err w1)
          else Some (err, w1))"

declare migrateOneItem_loop.simps [code]

definition migrateOneItem ::
    "'w Runtime \<Rightarrow> 'w migrator \<Rightarrow> Unstructured \<Rightarrow> 'w \<Rightarrow> (error option \<times> 'w) option" where
  "migrateOneItem rt m item w =
     (case accessorNamespace item of
        Inl err \<Rightarrow> Some (Some err, w)
      | Inr namespace \<Rightarrow>
          (case accessorName item of
             Inl err \<Rightarrow> Some (Some err, w)
           | Inr name \<Rightarrow> migrateOneItem_loop rt m namespace name item False w))"

subsection \<open>One chunk\<close>

text \<open>\<open>worker\<close>: the errors it sends to the collector, in order.\<close>

fun worker ::
    "'w Runtime \<Rightarrow> 'w migrator \<Rightarrow> Unstructured list \<Rightarrow> 'w \<Rightarrow> (error list \<times> 'w) option" where
  "worker rt m [] w = Some ([], w)"
| "worker rt m (item # items) w =
     (case migrateOneItem rt m item w of
        None \<Rightarrow> None
      | Some (err, w1) \<Rightarrow>
          (case worker rt m items w1 of
             None \<Rightarrow> None
           | Some (errs, w2) \<Rightarrow> Some ((case err of None \<Rightarrow> errs | Some e \<Rightarrow> e # errs), w2)))"

definition migrateList ::
    "'w Runtime \<Rightarrow> 'w migrator \<Rightarrow> UnstructuredList \<Rightarrow> 'w \<Rightarrow> (error option \<times> 'w) option" where
  "migrateList rt m l w =
     (case worker rt m (ulItems l) w of
        None \<Rightarrow> None
      | Some (errs, w1) \<Rightarrow> Some (NewAggregate errs, w1))"

subsection \<open>The whole resource\<close>

definition inconsistentContinueToken :: "error \<Rightarrow> (string, error) result" where
  "inconsistentContinueToken err =
     (case assertAPIStatus err of
        None \<Rightarrow> Inl (ErrorString (''expected error to implement the APIStatus interface, got '' @ TypeOf err))
      | Some status \<Rightarrow>
          (let token = stContinue status in
           if token = [] then Inl (ErrorString ''expected non empty continue token'')
           else Inr token))"

text \<open>An error of \<open>save\<close> is logged and dropped.\<close>

definition saveProgress :: "'w migrator \<Rightarrow> string \<Rightarrow> 'w \<Rightarrow> 'w" where
  "saveProgress m token w = snd (piSave (mgProgress m) token w)"

partial_function (option) Run_loop ::
    "'w Runtime \<Rightarrow> 'w migrator \<Rightarrow> string \<Rightarrow> CoreMigratorMetrics \<Rightarrow> 'w \<Rightarrow>
     (error option \<times> CoreMigratorMetrics \<times> 'w) option" where
  "Run_loop rt m continueToken mt w =
     (case list m \<lparr>loLimit = defaultChunkLimit, loContinue = continueToken\<rparr> w of
        (Inl listError, w1) \<Rightarrow>
          if IsNotFound (Some listError) then
            Some (Some (ErrorString (''failed to list resources: '' @ Error listError)), mt, w1)
          else if \<not> IsResourceExpired (Some listError) then
            (if canRetry (Some listError) then
               Run_loop rt m continueToken mt (sleepSuggested rt (Some listError) w1)
             else Some (Some listError, mt, w1))
          else
            (case inconsistentContinueToken listError of
               Inl err \<Rightarrow> Some (Some err, mt, w1)
             | Inr token \<Rightarrow> Run_loop rt m token mt (saveProgress m token w1))
      | (Inr l, w1) \<Rightarrow>
          Option.bind (migrateList rt m l w1) (\<lambda>r.
            case r of
              (Some err, w2) \<Rightarrow> Some (Some err, mt, w2)
            | (None, w2) \<Rightarrow>
                (case accessorContinue l of
                   Inl err \<Rightarrow> Some (Some err, mt, w2)
                 | Inr token \<Rightarrow>
                     (let mt1 = ObserveObjectsMigrated (int (length (ulItems l)))
                                  (SchemaGVR_String (mgResource m)) mt
                      in if token = [] then Some (None, mt1, w2)
                         else Run_loop rt m token mt1 (saveProgress m token w2)))))"

declare Run_loop.simps [code]

definition Run ::
    "'w Runtime \<Rightarrow> 'w migrator \<Rightarrow> CoreMigratorMetrics \<Rightarrow> 'w \<Rightarrow>
     (error option \<times> CoreMigratorMetrics \<times> 'w) option" where
  "Run rt m mt w =
     (case piLoad (mgProgress m) w of
        (Inl err, w1) \<Rightarrow> Some (Some err, mt, w1)
      | (Inr continueToken, w1) \<Rightarrow> Run_loop rt m continueToken mt w1)"

subsection \<open>What a run preserves\<close>

text \<open>
  A predicate on the world that every call of the migrator preserves is preserved by \<open>Run\<close>.
\<close>

lemma migrateOneItem_loop_inv:
  assumes "migrateOneItem_loop rt m ns n item gf w = Some (r, w')" and "P w"
    and get: "\<And>ns n w. P w \<Longrightarrow> P (snd (get m ns n w))"
    and put: "\<And>ns u w. P w \<Longrightarrow> P (snd (put m ns u w))"
    and slp: "\<And>d w. P w \<Longrightarrow> P (rtSleep rt d w)"
  shows "P w'"
proof -
  let ?P = "\<lambda>rt' m' (ns' :: string) (n' :: string) (item' :: Unstructured) (gf' :: bool) w y.
       rt' = rt \<longrightarrow> m' = m \<longrightarrow> P w \<longrightarrow> P (snd y)"
  have try_inv: "P (snd (try_migrate m ns n item gf w))" if "P w" for ns n item gf w
    using get [OF that, of ns n] put [OF that, of ns item] put [of "snd (get m ns n w)" ns]
    by (auto simp: try_migrate_def try_put_def split: prod.splits sum.splits) (metis snd_conv)+
  have "?P rt m ns n item gf w (r, w')"
  proof (rule migrateOneItem_loop.raw_induct [of ?P, OF _ assms(1)], intro impI, goal_cases)
    case (1 loop rt' m' ns' n' item' gf' w y)
    obtain g err w1 where t: "try_migrate m ns' n' item' gf' w = ((g, err), w1)" by (metis surj_pair)
    have "P w1" using try_inv [OF 1(5), of ns' n' item' gf'] t by simp
    moreover from this have "P (sleepSuggested rt err w1)"
      using slp by (simp add: sleepSuggested_def split: prod.splits)
    ultimately show ?case using 1(1) [of rt m ns' n' item' g "sleepSuggested rt err w1" y] 1(2-4) t
      by (auto split: if_splits)
  qed
  then show ?thesis using assms(2) by simp
qed

lemma worker_inv:
  assumes "worker rt m items w = Some (errs, w')" and "P w"
    and get: "\<And>ns n w. P w \<Longrightarrow> P (snd (get m ns n w))"
    and put: "\<And>ns u w. P w \<Longrightarrow> P (snd (put m ns u w))"
    and slp: "\<And>d w. P w \<Longrightarrow> P (rtSleep rt d w)"
  shows "P w'"
  using assms(1,2)
proof (induction items arbitrary: w errs)
  case (Cons item items)
  obtain err w1 errs1 where 1: "migrateOneItem rt m item w = Some (err, w1)"
      and 2: "worker rt m items w1 = Some (errs1, w')"
    using Cons.prems(1) by (auto split: option.splits)
  have "P w1" using migrateOneItem_loop_inv [of rt m _ _ _ _ w err w1 P] 1 Cons.prems(2) get put slp
    by (simp add: migrateOneItem_def accessorNamespace_def accessorName_def)
  then show ?case using Cons.IH 2 by blast
qed simp

lemma Run_inv:
  assumes run: "Run rt m mt w = Some (r, mt', w')" and "P w"
    and get: "\<And>ns n w. P w \<Longrightarrow> P (snd (get m ns n w))"
    and put: "\<And>ns u w. P w \<Longrightarrow> P (snd (put m ns u w))"
    and lst: "\<And>opts w. P w \<Longrightarrow> P (snd (list m opts w))"
    and slp: "\<And>d w. P w \<Longrightarrow> P (rtSleep rt d w)"
    and ld: "\<And>w. P w \<Longrightarrow> P (snd (piLoad (mgProgress m) w))"
    and sv: "\<And>t w. P w \<Longrightarrow> P (snd (piSave (mgProgress m) t w))"
  shows "P w' \<and> migration mt' = migration mt"
proof -
  let ?P = "\<lambda>rt' m' (t :: string) mt w y.
       rt' = rt \<longrightarrow> m' = m \<longrightarrow> P w \<longrightarrow> P (snd (snd y)) \<and> migration (fst (snd y)) = migration mt"
  have loop: "?P rt m t mt w (r, mt', w')" if "Run_loop rt m t mt w = Some (r, mt', w')" for t mt w
  proof (rule Run_loop.raw_induct [of ?P, OF _ that], intro impI, goal_cases)
    case (1 loop rt' m' t mt w y)
    note IH = 1(1) [of rt m _ _ _ y, rule_format, OF _ refl refl]
    obtain lr w1 where l: "list m \<lparr>loLimit = defaultChunkLimit, loContinue = t\<rparr> w = (lr, w1)" by (metis surj_pair)
    have w1: "P w1" using lst [OF 1(5)] l by (metis snd_conv)
    note step = 1(2) [unfolded 1(3,4) l, simplified]
    show ?case
    proof (cases lr)
      case (Inl e)
      have "P (sleepSuggested rt (Some e) w1)" using slp w1 by (simp add: sleepSuggested_def split: prod.splits)
      then show ?thesis using step Inl w1 sv [OF w1]
        by (auto simp: saveProgress_def split: if_splits sum.splits dest!: IH)
    next
      case (Inr l)
      obtain rm w2 where ml: "migrateList rt m l w1 = Some (rm, w2)"
        using step Inr by (auto simp: bind_eq_Some_conv)
      have w2: "P w2" using ml worker_inv [of rt m _ w1 _ w2 P, OF _ w1 get put slp]
        by (auto simp: migrateList_def split: option.splits)
      have m1: "migration (ObserveObjectsMigrated k x mt) = migration mt" for k x
        by (simp add: ObserveObjectsMigrated_def)
      show ?thesis using step Inr ml w2 sv [OF w2] m1
        by (auto simp: accessorContinue_def saveProgress_def Let_def split: if_splits option.splits dest!: IH)
    qed
  qed
  show ?thesis
  proof (cases "piLoad (mgProgress m) w")
    case (Pair lr w1)
    then have "P w1" using ld [OF \<open>P w\<close>] by simp
    then show ?thesis using run Pair loop by (cases lr) (auto simp: Run_def)
  qed
qed

subsection \<open>What the migrator relies on\<close>

text \<open>
  \<open>stale w\<close> are the keys (namespace and name) of the objects of the resource that are
  still stored in an old version in world \<open>w\<close>. The laws state what the API server documents:
  \<^item> every write, by anyone, encodes the object in the current version, so no call makes an
    object stale; a successful PUT leaves its object not stale;
  \<^item> an answer NotFound for an object means that there is nothing to migrate;
  \<^item> \<open>remaining t\<close> are the keys at or after the position of the continue token \<open>t\<close>. A chunk listed
    from \<open>t\<close> holds every stale object between \<open>t\<close> and the position of the returned token;
  \<^item> an expired token is answered with a token for the same position or an earlier one.
  The calls on objects do not touch the saved progress, and saving does not touch objects.
\<close>

type_synonym key = "string \<times> string"

definition keyOf :: "Unstructured \<Rightarrow> key" where
  "keyOf u = (uNamespace u, uName u)"

definition calm :: "('w \<Rightarrow> bool) \<Rightarrow> ('w \<Rightarrow> key set) \<Rightarrow> ('w \<Rightarrow> string option) \<Rightarrow> 'w \<Rightarrow> 'w \<Rightarrow> bool" where
  "calm valid stale saved w w' \<longleftrightarrow> valid w' \<and> stale w' \<subseteq> stale w \<and> saved w' = saved w"

lemma calm_trans: "calm v st sv w w1 \<Longrightarrow> calm v st sv w1 w2 \<Longrightarrow> calm v st sv w w2"
  by (auto simp: calm_def)

text \<open>
  The invariant of the loop of \<open>Run\<close> with token \<open>t\<close>, and what holds when it returns: counting from
  the start token \<open>t0\<close>, every object that is still stale lies at or after \<open>t\<close>; and if all stale
  objects did so at the start (\<open>full\<close>), they lie at or after the saved token too.
\<close>

definition run_inv ::
    "('w \<Rightarrow> bool) \<Rightarrow> ('w \<Rightarrow> key set) \<Rightarrow> ('w \<Rightarrow> string option) \<Rightarrow> (string \<Rightarrow> key set) \<Rightarrow> bool \<Rightarrow>
     string \<Rightarrow> string \<Rightarrow> 'w \<Rightarrow> bool" where
  "run_inv valid stale saved remaining full t0 t w \<longleftrightarrow>
     valid w \<and> stale w \<inter> remaining t0 \<subseteq> remaining t \<and>
     (full \<longrightarrow> stale w \<subseteq> remaining t0 \<and> (\<forall>s. saved w = Some s \<longrightarrow> stale w \<subseteq> remaining s))"

definition run_post ::
    "('w \<Rightarrow> bool) \<Rightarrow> ('w \<Rightarrow> key set) \<Rightarrow> ('w \<Rightarrow> string option) \<Rightarrow> (string \<Rightarrow> key set) \<Rightarrow> bool \<Rightarrow>
     string \<Rightarrow> error option \<Rightarrow> 'w \<Rightarrow> bool" where
  "run_post valid stale saved remaining full t0 r w \<longleftrightarrow>
     valid w \<and> (r = None \<longrightarrow> stale w \<inter> remaining t0 = {}) \<and>
     (full \<longrightarrow> stale w \<subseteq> remaining t0 \<and> (\<forall>s. saved w = Some s \<longrightarrow> stale w \<subseteq> remaining s))"

locale migrator_env = progress_api "mgProgress m" saved valid
  for m :: "'w migrator" and saved :: "'w \<Rightarrow> string option" and valid :: "'w \<Rightarrow> bool" +
  fixes rt :: "'w Runtime" and stale :: "'w \<Rightarrow> key set" and remaining :: "string \<Rightarrow> key set"
  assumes get_law: "valid w \<Longrightarrow> get m ns n w = (r, w') \<Longrightarrow> calm valid stale saved w w' \<and>
        (case r of Inr item \<Rightarrow> keyOf item = (ns, n)
         | Inl e \<Rightarrow> IsNotFound (Some e) \<longrightarrow> (ns, n) \<notin> stale w')"
    and put_law: "valid w \<Longrightarrow> put m ns item w = (r, w') \<Longrightarrow> keyOf item = (ns, n) \<Longrightarrow>
        calm valid stale saved w w' \<and>
        (case r of Inr item' \<Rightarrow> (ns, n) \<notin> stale w'
         | Inl e \<Rightarrow> IsNotFound (Some e) \<longrightarrow> (ns, n) \<notin> stale w')"
    and list_law: "valid w \<Longrightarrow> list m opts w = (rl, w') \<Longrightarrow> calm valid stale saved w w' \<and>
        (case rl of
           Inr l \<Rightarrow> stale w' \<inter> remaining (loContinue opts) \<subseteq>
                      keyOf ` set (ulItems l) \<union> (if ulContinue l = [] then {} else remaining (ulContinue l))
         | Inl e \<Rightarrow> IsResourceExpired (Some e) \<longrightarrow>
                      (\<forall>t. inconsistentContinueToken e = Inr t \<longrightarrow>
                           remaining (loContinue opts) \<subseteq> remaining t))"
    and sleep_law: "valid w \<Longrightarrow> calm valid stale saved w (rtSleep rt d w)"
    and load_stale: "valid w \<Longrightarrow> stale (snd (piLoad (mgProgress m) w)) \<subseteq> stale w"
    and save_stale: "valid w \<Longrightarrow> stale (snd (piSave (mgProgress m) t w)) \<subseteq> stale w"
begin

lemma sleepSuggested_calm: "valid w \<Longrightarrow> calm valid stale saved w (sleepSuggested rt err w)"
  using sleep_law by (auto simp: sleepSuggested_def calm_def split: prod.splits)

lemma try_put_spec:
  assumes "valid w" and "keyOf item = (ns, n)" and "try_put m ns item w = ((g, err), w')"
  shows "calm valid stale saved w w' \<and> (err = None \<or> IsNotFound err \<longrightarrow> (ns, n) \<notin> stale w')"
  using assms(3) put_law [OF assms(1) _ assms(2)]
  by (fastforce simp: try_put_def split: prod.splits sum.splits)

lemma try_migrate_spec:
  assumes "valid w" and "keyOf item = (ns, n)" and "try_migrate m ns n item gf w = ((g, err), w')"
  shows "calm valid stale saved w w' \<and> (err = None \<or> IsNotFound err \<longrightarrow> (ns, n) \<notin> stale w')"
proof (cases gf)
  case False
  then show ?thesis using assms try_put_spec by (simp add: try_migrate_def)
next
  case True
  obtain r w1 where r: "get m ns n w = (r, w1)" by (metis surj_pair)
  note g = get_law [OF assms(1) r]
  show ?thesis
  proof (cases r)
    case (Inl e)
    then show ?thesis using g True r assms(3) by (auto simp: try_migrate_def)
  next
    case (Inr item')
    have "valid w1" using g by (simp add: calm_def)
    moreover have "keyOf item' = (ns, n)" using g Inr by simp
    moreover have "try_put m ns item' w1 = ((g, err), w')" using assms(3) True r Inr by (simp add: try_migrate_def)
    ultimately show ?thesis using try_put_spec g calm_trans by metis
  qed
qed

lemma migrateOneItem_loop_spec:
  assumes "migrateOneItem_loop rt m ns n item gf w = Some (r, w')"
    and "valid w" and "keyOf item = (ns, n)"
  shows "calm valid stale saved w w' \<and> (r = None \<longrightarrow> (ns, n) \<notin> stale w')"
proof -
  let ?P = "\<lambda>(rt' :: 'w Runtime) m' ns' n' item' (gf' :: bool) w y.
       rt' = rt \<longrightarrow> m' = m \<longrightarrow> valid w \<longrightarrow> keyOf item' = (ns', n') \<longrightarrow>
         calm valid stale saved w (snd y) \<and> (fst y = None \<longrightarrow> (ns', n') \<notin> stale (snd y))"
  have "?P rt m ns n item gf w (r, w')"
  proof (rule migrateOneItem_loop.raw_induct [of ?P, OF _ assms(1)], intro impI, goal_cases)
    case (1 loop rt' m' ns' n' item' gf' w y)
    obtain g err w1 where t: "try_migrate m ns' n' item' gf' w = ((g, err), w1)" by (metis surj_pair)
    note sp = try_migrate_spec [OF 1(5,6) t]
    consider (fine) "err = None \<or> IsNotFound err" | (retry) "err \<noteq> None" "\<not> IsNotFound err" "canRetry err"
      | (fail) "err \<noteq> None" "\<not> IsNotFound err" "\<not> canRetry err" by blast
    then show ?case
    proof cases
      case fine
      then show ?thesis using 1(2-4) t sp by auto
    next
      case retry
      have c: "calm valid stale saved w (sleepSuggested rt err w1)"
        using sp sleepSuggested_calm calm_trans by (metis calm_def)
      have "loop rt m ns' n' item' g (sleepSuggested rt err w1) = Some y" using 1(2-4) t retry by auto
      from 1(1) [OF this] 1(6) c show ?thesis by (meson calm_def calm_trans)
    next
      case fail
      then show ?thesis using 1(2-4) t sp by auto
    qed
  qed
  then show ?thesis using assms by simp
qed

lemma migrateOneItem_spec:
  assumes "migrateOneItem rt m item w = Some (r, w')" and "valid w"
  shows "calm valid stale saved w w' \<and> (r = None \<longrightarrow> keyOf item \<notin> stale w')"
  using migrateOneItem_loop_spec [of "uNamespace item" "uName item" item False w r w'] assms
  by (simp add: migrateOneItem_def accessorNamespace_def accessorName_def keyOf_def)

lemma worker_spec:
  assumes "worker rt m items w = Some (errs, w')" and "valid w"
  shows "calm valid stale saved w w' \<and> (errs = [] \<longrightarrow> keyOf ` set items \<inter> stale w' = {})"
  using assms
proof (induction items arbitrary: w errs)
  case Nil
  then show ?case by (simp add: calm_def)
next
  case (Cons item items)
  obtain err w1 errs1 where 1: "migrateOneItem rt m item w = Some (err, w1)"
      and 2: "worker rt m items w1 = Some (errs1, w')"
      and e: "errs = (case err of None \<Rightarrow> errs1 | Some e \<Rightarrow> e # errs1)"
    using Cons.prems(1) by (auto split: option.splits)
  note one = migrateOneItem_spec [OF 1 Cons.prems(2)]
  then have "valid w1" by (simp add: calm_def)
  note rest = Cons.IH [OF 2 this]
  show ?case using one rest e calm_trans [of valid stale saved w w1 w']
    by (auto simp: calm_def split: option.splits)
qed

lemma migrateList_spec:
  assumes "migrateList rt m l w = Some (r, w')" and "valid w"
  shows "calm valid stale saved w w' \<and> (r = None \<longrightarrow> keyOf ` set (ulItems l) \<inter> stale w' = {})"
proof -
  obtain errs where "worker rt m (ulItems l) w = Some (errs, w')" and "r = NewAggregate errs"
    using assms(1) by (auto simp: migrateList_def split: option.splits)
  then show ?thesis using worker_spec [of "ulItems l" w errs w'] assms(2)
    by auto
qed

lemma run_inv_calm:
  "run_inv valid stale saved remaining full t0 t w \<Longrightarrow> calm valid stale saved w w' \<Longrightarrow>
   run_inv valid stale saved remaining full t0 t w'"
  by (fastforce simp: run_inv_def calm_def)

lemma run_inv_post:
  "run_inv valid stale saved remaining full t0 t w \<Longrightarrow>
   run_post valid stale saved remaining full t0 (Some e) w"
  by (auto simp: run_inv_def run_post_def)

text \<open>Moving on to the token \<open>t'\<close>, and saving it.\<close>

lemma run_inv_save:
  assumes inv: "run_inv valid stale saved remaining full t0 t w"
    and t': "stale w \<inter> remaining t \<subseteq> remaining t'"
  shows "run_inv valid stale saved remaining full t0 t' (saveProgress m t' w)"
proof -
  obtain r w' where s: "piSave (mgProgress m) t' w = (r, w')" by (metis surj_pair)
  have "valid w" using inv by (simp add: run_inv_def)
  then have v: "valid w'" and sv: "saved w' = saved w \<or> saved w' = Some t'" and sub: "stale w' \<subseteq> stale w"
    using save_cases [OF _ s] save_stale [of w t'] s by auto
  have t0: "stale w \<inter> remaining t0 \<subseteq> remaining t'" using inv t' by (auto simp: run_inv_def)
  have "stale w' \<subseteq> remaining s" if "full" and "saved w' = Some s" for s
    using sv
  proof
    assume "saved w' = saved w"
    then have "saved w = Some s" using that by simp
    then show ?thesis using inv that(1) sub unfolding run_inv_def by blast
  next
    assume "saved w' = Some t'"
    moreover have "stale w \<subseteq> remaining t0" using inv that(1) by (simp add: run_inv_def)
    ultimately show ?thesis using that(2) sub t0 by (metis inf.absorb1 option.inject subset_trans)
  qed
  moreover have "stale w' \<inter> remaining t0 \<subseteq> remaining t'" using sub t0 by blast
  moreover have "full \<Longrightarrow> stale w' \<subseteq> remaining t0" using inv sub by (auto simp: run_inv_def)
  ultimately show ?thesis using v by (simp add: saveProgress_def s run_inv_def)
qed

lemma Run_loop_spec:
  assumes "Run_loop rt m t mt w = Some (r, mt', w')"
    and "run_inv valid stale saved remaining full t0 t w"
  shows "run_post valid stale saved remaining full t0 r w'"
proof -
  let ?I = "run_inv valid stale saved remaining full t0"
  let ?Q = "run_post valid stale saved remaining full t0"
  let ?P = "\<lambda>(rt' :: 'w Runtime) m' t (mt :: CoreMigratorMetrics) w y.
              rt' = rt \<longrightarrow> m' = m \<longrightarrow> ?I t w \<longrightarrow> ?Q (fst y) (snd (snd y))"
  have "?P rt m t mt w (r, mt', w')"
  proof (rule Run_loop.raw_induct [of ?P, OF _ assms(1)], intro impI, goal_cases)
    case (1 loop rt' m' t mt w y)
    let ?opts = "\<lparr>loLimit = defaultChunkLimit, loContinue = t\<rparr>"
    obtain lr w1 where l: "list m ?opts w = (lr, w1)" by (metis surj_pair)
    have v: "valid w" using 1(5) by (simp add: run_inv_def)
    note law = list_law [OF v l]
    then have c1: "calm valid stale saved w w1" by simp
    then have v1: "valid w1" and i1: "?I t w1" using run_inv_calm 1(5) by (auto simp: calm_def)
    note step = 1(2) [unfolded 1(3,4) l, simplified]
    show ?case
    proof (cases lr)
      case (Inl e)
      note step = step [unfolded Inl, simplified]
      consider (ret) e' where "y = (Some e', mt, w1)"
        | (retry) "loop rt m t mt (sleepSuggested rt (Some e) w1) = Some y"
        | (expired) t' where "inconsistentContinueToken e = Inr t'" "IsResourceExpired (Some e)"
            "loop rt m t' mt (saveProgress m t' w1) = Some y"
        using step by (auto split: if_splits sum.splits)
      then show ?thesis
      proof cases
        case ret
        then show ?thesis using run_inv_post [OF i1] by simp
      next
        case retry
        then show ?thesis using 1(1) run_inv_calm [OF i1 sleepSuggested_calm [OF v1]] by blast
      next
        case expired
        have "stale w1 \<inter> remaining t \<subseteq> remaining t'" using law Inl expired(1,2) by auto
        then show ?thesis using 1(1) [OF expired(3)] run_inv_save [OF i1] by blast
      qed
    next
      case (Inr l)
      obtain rm w2 where ml: "migrateList rt m l w1 = Some (rm, w2)"
        using step Inr by (auto simp: bind_eq_Some_conv)
      note ms = migrateList_spec [OF ml v1]
      have i2: "?I t w2" using run_inv_calm [OF i1] ms by blast
      show ?thesis
      proof (cases rm)
        case (Some e)
        then show ?thesis using step Inr ml run_inv_post [OF i2] by auto
      next
        case None
        then have next_t: "stale w2 \<inter> remaining t \<subseteq>
              (if ulContinue l = [] then {} else remaining (ulContinue l))"
          using law Inr ms by (fastforce simp: calm_def)
        show ?thesis
        proof (cases "ulContinue l = []")
          case True
          then have "stale w2 \<inter> remaining t0 = {}" using next_t i2 by (auto simp: run_inv_def)
          then have "?Q None w2" using i2 by (auto simp: run_inv_def run_post_def)
          then show ?thesis using step Inr ml None True by (auto simp: accessorContinue_def)
        next
          case False
          then have "?I (ulContinue l) (saveProgress m (ulContinue l) w2)"
            using run_inv_save [OF i2] next_t by simp
          then show ?thesis using step Inr ml None False 1(1)
            by (auto simp: accessorContinue_def Let_def)
        qed
      qed
    qed
  qed
  then show ?thesis using assms by simp
qed

lemma Run_spec:
  assumes run: "Run rt m mt w = Some (r, mt', w')" and v: "valid w" and t0: "saved w = Some t0"
  shows "run_post valid stale saved remaining (stale w \<subseteq> remaining t0) t0 r w'"
proof -
  obtain lr w1 where l: "piLoad (mgProgress m) w = (lr, w1)" by (metis surj_pair)
  have c: "calm valid stale saved w w1"
    using load_ok [OF v] load_err [OF v] load_stale [OF v] l by (cases lr) (auto simp: calm_def)
  have "run_inv valid stale saved remaining (stale w \<subseteq> remaining t0) t0 t0 w"
    using v t0 by (auto simp: run_inv_def)
  note i1 = run_inv_calm [OF this c]
  show ?thesis
  proof (cases lr)
    case (Inl e)
    then show ?thesis using run l run_inv_post [OF i1] by (auto simp: Run_def)
  next
    case (Inr t)
    then have "t = t0" using load_ok [OF v] l t0 by auto
    then show ?thesis using run l Inr Run_loop_spec [OF _ i1] by (simp add: Run_def)
  qed
qed

end

subsection \<open>When the migrator returns\<close>

text \<open>
  A server that fails only so often: \<open>budget w\<close> bounds the retriable failures that are still to
  come, \<open>chunks t\<close> the chunks of a listing from token \<open>t\<close>.
\<close>

locale migrator_live = migrator_env +
  fixes budget :: "'a \<Rightarrow> nat" and chunks :: "string \<Rightarrow> nat"
  assumes live_get: "valid w \<Longrightarrow> get m ns n w = (r, w') \<Longrightarrow> budget w' \<le> budget w \<and>
        (\<forall>e. r = Inl e \<and> canRetry (Some e) \<and> \<not> IsNotFound (Some e) \<longrightarrow> budget w' < budget w)"
    and live_put: "valid w \<Longrightarrow> put m ns item w = (r, w') \<Longrightarrow> keyOf item = (ns, n) \<Longrightarrow>
        budget w' \<le> budget w \<and>
        (\<forall>e. r = Inl e \<and> canRetry (Some e) \<and> \<not> IsNotFound (Some e) \<longrightarrow> budget w' < budget w)"
    and live_list: "valid w \<Longrightarrow> list m opts w = (rl, w') \<Longrightarrow> budget w' \<le> budget w \<and>
        (case rl of Inl e \<Rightarrow> canRetry (Some e) \<and> \<not> IsNotFound (Some e) \<longrightarrow> budget w' < budget w
         | Inr l \<Rightarrow> ulContinue l \<noteq> [] \<longrightarrow> chunks (ulContinue l) < chunks (loContinue opts))"
    and live_sleep: "valid w \<Longrightarrow> budget (rtSleep rt d w) \<le> budget w"
    and live_load: "valid w \<Longrightarrow> budget (snd (piLoad (mgProgress m) w)) \<le> budget w"
    and live_save: "valid w \<Longrightarrow> budget (snd (piSave (mgProgress m) t w)) \<le> budget w"
begin

lemma sleepSuggested_budget: "valid w \<Longrightarrow> budget (sleepSuggested rt err w) \<le> budget w"
  using live_sleep by (auto simp: sleepSuggested_def split: prod.splits)

lemma try_put_budget:
  assumes "valid w" and "keyOf item = (ns, n)" and "try_put m ns item w = ((g, err), w')"
  shows "budget w' \<le> budget w \<and>
    (err \<noteq> None \<and> canRetry err \<and> \<not> IsNotFound err \<longrightarrow> budget w' < budget w)"
  using assms(3) live_put [OF assms(1) _ assms(2)]
  by (fastforce simp: try_put_def split: prod.splits sum.splits)

lemma try_migrate_budget:
  assumes "valid w" and "keyOf item = (ns, n)" and "try_migrate m ns n item gf w = ((g, err), w')"
  shows "budget w' \<le> budget w \<and>
    (err \<noteq> None \<and> canRetry err \<and> \<not> IsNotFound err \<longrightarrow> budget w' < budget w)"
proof (cases gf)
  case False
  then show ?thesis using assms try_put_budget by (simp add: try_migrate_def)
next
  case True
  obtain r w1 where r: "get m ns n w = (r, w1)" by (metis surj_pair)
  show ?thesis
  proof (cases r)
    case (Inl e)
    then show ?thesis using live_get [OF assms(1) r] True r assms(3) by (auto simp: try_migrate_def)
  next
    case (Inr item')
    have "valid w1" "keyOf item' = (ns, n)" using get_law [OF assms(1) r] Inr by (auto simp: calm_def)
    moreover have "try_put m ns item' w1 = ((g, err), w')"
      using assms(3) True r Inr by (simp add: try_migrate_def)
    ultimately show ?thesis using try_put_budget live_get [OF assms(1) r] by fastforce
  qed
qed

lemma migrateOneItem_loop_returns:
  assumes "valid w" and "keyOf item = (ns, n)"
  shows "\<exists>r w'. migrateOneItem_loop rt m ns n item gf w = Some (r, w') \<and> budget w' \<le> budget w"
  using assms
proof (induction "budget w" arbitrary: w gf rule: less_induct)
  case less
  obtain g err w1 where t: "try_migrate m ns n item gf w = ((g, err), w1)" by (metis surj_pair)
  note c = try_migrate_spec [OF less.prems t] and b = try_migrate_budget [OF less.prems t]
  show ?case
  proof (cases "err \<noteq> None \<and> canRetry err \<and> \<not> IsNotFound err")
    case True
    let ?w2 = "sleepSuggested rt err w1"
    have v1: "valid w1" using c by (simp add: calm_def)
    then have "valid ?w2" using sleepSuggested_calm by (simp add: calm_def)
    moreover have b2: "budget ?w2 < budget w" using sleepSuggested_budget [OF v1, of err] b True by auto
    ultimately obtain r w' where
      "migrateOneItem_loop rt m ns n item g ?w2 = Some (r, w')" "budget w' \<le> budget ?w2"
      using less.hyps [OF b2] less.prems(2) by blast
    moreover have "migrateOneItem_loop rt m ns n item gf w = migrateOneItem_loop rt m ns n item g ?w2"
      using t True by (subst migrateOneItem_loop.simps) auto
    ultimately show ?thesis using b2 by auto
  next
    case False
    then show ?thesis using t b by (subst migrateOneItem_loop.simps) auto
  qed
qed

lemma worker_returns:
  "valid w \<Longrightarrow> \<exists>errs w'. worker rt m items w = Some (errs, w') \<and> budget w' \<le> budget w"
proof (induction items arbitrary: w)
  case (Cons item items)
  obtain r w1 where r: "migrateOneItem rt m item w = Some (r, w1)" "budget w1 \<le> budget w"
    using migrateOneItem_loop_returns [OF Cons.prems, of item "uNamespace item" "uName item" False]
    by (auto simp: migrateOneItem_def accessorNamespace_def accessorName_def keyOf_def)
  then have "valid w1" using migrateOneItem_spec [OF r(1) Cons.prems] by (simp add: calm_def)
  from Cons.IH [OF this] r show ?case by fastforce
qed simp

lemma migrateList_returns:
  "valid w \<Longrightarrow> \<exists>r w'. migrateList rt m l w = Some (r, w') \<and> budget w' \<le> budget w"
  using worker_returns [of w "ulItems l"] by (auto simp: migrateList_def)

lemma saveProgress_valid: "valid w \<Longrightarrow> valid (saveProgress m t w) \<and> budget (saveProgress m t w) \<le> budget w"
  using save_cases [of w t] live_save [of w t]
  by (cases "piSave (mgProgress m) t w") (auto simp: saveProgress_def)

lemma Run_loop_returns:
  "valid w \<Longrightarrow> \<exists>y. Run_loop rt m t mt w = Some y"
proof (induction "(budget w, chunks t)" arbitrary: w t mt rule: wf_induct_rule [OF wf_lex_prod [OF wf_less_than wf_less_than]])
  case less: 1
  let ?opts = "\<lparr>loLimit = defaultChunkLimit, loContinue = t\<rparr>"
  obtain lr w1 where l: "list m ?opts w = (lr, w1)" by (metis surj_pair)
  have v1: "valid w1" using list_law [OF less.prems l] by (simp add: calm_def)
  note b = live_list [OF less.prems l]
  have again: "\<exists>y. Run_loop rt m t' mt' w' = Some y"
    if "valid w'" and "budget w' < budget w \<or> budget w' \<le> budget w \<and> chunks t' < chunks t" for w' t' mt'
    using less.hyps [of w' t'] that by (auto simp: less_le)
  show ?case
  proof (cases lr)
    case (Inl e)
    have expired: "canRetry (Some e)" if "IsResourceExpired (Some e)" "inconsistentContinueToken e = Inr t'" for t'
      using that api_reasons_exclusive(6) [of "Some e"]
      by (cases e) (auto simp: inconsistentContinueToken_def intro!: canRetry_status)
    have retry: "\<exists>y. Run_loop rt m t mt (sleepSuggested rt (Some e) w1) = Some y"
      if "canRetry (Some e)" "\<not> IsNotFound (Some e)"
      using again [of "sleepSuggested rt (Some e) w1" t mt] sleepSuggested_calm [OF v1, of "Some e"]
        sleepSuggested_budget [OF v1, of "Some e"] b Inl that by (auto simp: calm_def)
    have resume: "\<exists>y. Run_loop rt m t' mt (saveProgress m t' w1) = Some y"
      if "canRetry (Some e)" "\<not> IsNotFound (Some e)" for t'
      using again [of "saveProgress m t' w1" t' mt] saveProgress_valid [OF v1, of t'] b Inl that by auto
    show ?thesis
      using Inl l retry resume expired by (subst Run_loop.simps) (auto split: sum.splits)
  next
    case (Inr l')
    obtain r w2 where r: "migrateList rt m l' w1 = Some (r, w2)" "budget w2 \<le> budget w1"
      using migrateList_returns [OF v1] by blast
    have v2: "valid w2" using migrateList_spec [OF r(1) v1] by (simp add: calm_def)
    let ?t' = "ulContinue l'"
    have "\<exists>y. Run_loop rt m ?t' mt' (saveProgress m ?t' w2) = Some y" if "?t' \<noteq> []" for mt'
      using again [of "saveProgress m ?t' w2" ?t'] saveProgress_valid [OF v2, of ?t'] b r Inr that by auto
    then show ?thesis using Inr l r
      by (subst Run_loop.simps) (auto simp: accessorContinue_def Let_def split: option.splits)
  qed
qed

lemma Run_returns:
  assumes "valid w"
  shows "\<exists>y. Run rt m mt w = Some y"
proof (cases "piLoad (mgProgress m) w")
  case (Pair lr w1)
  then show ?thesis using Run_loop_returns [of w1] load_ok [OF assms]
    by (cases lr) (simp_all add: Run_def)
qed

end

end
