(* ===== verification/Fake_Dynamic.thy ===== *)
theory Fake_Dynamic
  imports Progress "HOL-Library.List_Lexorder" "HOL-Library.Product_Lexorder" "HOL-Library.Char_ord"
begin

section \<open>The fake dynamic client\<close>

text \<open>
  The vendored \<open>client-go/dynamic/fake\<close>, the dynamic client the tests of the migrator run against,
  with the calls the migrator makes: \<open>Get\<close>, \<open>Update\<close> and \<open>List\<close>. Its tracker's map of maps is an
  association list from resource, namespace and name; what it was asked is recorded.
  \<open>List\<close> returns the objects of all namespaces sorted by namespace and name, and ignores the
  limit and the continue token.
\<close>

datatype dynAction =
    DynGet SchemaGVR string string
  | DynUpdate SchemaGVR string Unstructured
  | DynList SchemaGVR string

record FakeDynamicClient =
  fdActions :: "dynAction list"
  fdObjects :: "((SchemaGVR \<times> string \<times> string) \<times> Unstructured) list"

definition fdRecord :: "dynAction \<Rightarrow> FakeDynamicClient \<Rightarrow> FakeDynamicClient" where
  "fdRecord a d = d\<lparr>fdActions := fdActions d @ [a]\<rparr>"

definition fdGet ::
    "SchemaGVR \<Rightarrow> string \<Rightarrow> string \<Rightarrow> (FakeDynamicClient, (Unstructured, error) result) call" where
  "fdGet gvr ns name d =
     ((case map_of (fdObjects d) (gvr, ns, name) of
         None \<Rightarrow> Inl (NewNotFound (sgvrGroup gvr) (sgvrResource gvr) name)
       | Some obj \<Rightarrow> Inr obj), fdRecord (DynGet gvr ns name) d)"

definition fdUpdate ::
    "SchemaGVR \<Rightarrow> string \<Rightarrow> Unstructured \<Rightarrow> (FakeDynamicClient, (Unstructured, error) result) call" where
  "fdUpdate gvr ns obj d =
     (let d1 = fdRecord (DynUpdate gvr ns obj) d;
          obj = (if uNamespace obj = [] then obj\<lparr>uNamespace := ns\<rparr> else obj)
      in if ns \<noteq> uNamespace obj then
           (Inl (NewBadRequest (''request namespace does not match object namespace, request: '' @ ns
                                @ '' object: '' @ uNamespace obj)), d1)
         else if map_of (fdObjects d) (gvr, ns, uName obj) = None then
           (Inl (NewNotFound (sgvrGroup gvr) (sgvrResource gvr) (uName obj)), d1)
         else (Inr obj, d1\<lparr>fdObjects := alist_upd (gvr, ns, uName obj) obj (fdObjects d)\<rparr>))"

definition filterByNamespace :: "SchemaGVR \<Rightarrow> string \<Rightarrow> FakeDynamicClient \<Rightarrow> Unstructured list" where
  "filterByNamespace gvr ns d =
     sort_key (\<lambda>u. (uNamespace u, uName u))
       (map snd (filter (\<lambda>((g, k), u). g = gvr \<and> (ns = [] \<or> uNamespace u = ns)) (fdObjects d)))"

definition fdList ::
    "SchemaGVR \<Rightarrow> string \<Rightarrow> ListOptions \<Rightarrow> (FakeDynamicClient, (UnstructuredList, error) result) call" where
  "fdList gvr ns opts d =
     (Inr \<lparr>ulItems = filterByNamespace gvr ns d, ulContinue = []\<rparr>, fdRecord (DynList gvr ns) d)"

text \<open>Each object is stored under its own namespace and name.\<close>

definition fd_wf :: "FakeDynamicClient \<Rightarrow> bool" where
  "fd_wf d \<longleftrightarrow> distinct (map fst (fdObjects d)) \<and>
     (\<forall>((gvr, ns, n), u) \<in> set (fdObjects d). uNamespace u = ns \<and> uName u = n)"

text \<open>The objects of a resource that have not been written since the client was set up.\<close>

definition fd_stale :: "SchemaGVR \<Rightarrow> FakeDynamicClient \<Rightarrow> (string \<times> string) set" where
  "fd_stale gvr d =
     {(ns, n). map_of (fdObjects d) (gvr, ns, n) \<noteq> None \<and>
        \<not> (\<exists>u. DynUpdate gvr ns u \<in> set (fdActions d) \<and> uName u = n)}"

lemma fdRecord_sel [simp]:
  "fdObjects (fdRecord a d) = fdObjects d" "fdActions (fdRecord a d) = fdActions d @ [a]"
  by (simp_all add: fdRecord_def)

lemma fd_wf_record [simp]: "fd_wf (fdRecord a d) = fd_wf d"
  by (simp add: fd_wf_def)

lemma fd_stale_record: "fd_stale gvr (fdRecord a d) \<subseteq> fd_stale gvr d"
  by (auto simp: fd_stale_def)

lemma fd_wf_lookup: "fd_wf d \<Longrightarrow> map_of (fdObjects d) (gvr, ns, n) = Some u \<Longrightarrow> uNamespace u = ns \<and> uName u = n"
  by (auto simp: fd_wf_def dest!: map_of_SomeD)

lemma fdGet_spec:
  assumes "fd_wf d" and "fdGet gvr ns n d = (r, d')"
  shows "fd_wf d' \<and> fd_stale gvr d' \<subseteq> fd_stale gvr d \<and>
    (case r of Inr u \<Rightarrow> uNamespace u = ns \<and> uName u = n
     | Inl e \<Rightarrow> IsNotFound (Some e) \<and> (ns, n) \<notin> fd_stale gvr d')"
  using assms fd_stale_record [of gvr "DynGet gvr ns n" d] fd_wf_lookup [OF assms(1), of gvr ns n]
  by (auto simp: fdGet_def fd_stale_def split: option.splits)

lemma fd_wf_upd:
  assumes "fd_wf d" and "uNamespace u = ns" "uName u = n"
  shows "fd_wf (d\<lparr>fdObjects := alist_upd (gvr, ns, n) u (fdObjects d)\<rparr>)"
proof -
  let ?xs = "alist_upd (gvr, ns, n) u (fdObjects d)"
  have dist: "distinct (map fst ?xs)" using assms(1) by (simp add: fd_wf_def)
  have "uNamespace v = ns' \<and> uName v = n'" if "((g, ns', n'), v) \<in> set ?xs" for g ns' n' v
  proof -
    have "map_of ?xs (g, ns', n') = Some v" using that dist by (intro map_of_is_SomeI) auto
    then show ?thesis using assms fd_wf_lookup [OF assms(1)] by (auto split: if_splits)
  qed
  then show ?thesis using dist by (auto simp: fd_wf_def)
qed

lemma fdUpdate_spec:
  assumes wf: "fd_wf d" and run: "fdUpdate gvr ns u d = (r, d')" and "uNamespace u = ns"
  shows "fd_wf d' \<and> fd_stale gvr d' \<subseteq> fd_stale gvr d \<and> (ns, uName u) \<notin> fd_stale gvr d' \<and>
    (\<forall>e. r = Inl e \<longrightarrow> IsNotFound (Some e))"
proof -
  let ?d1 = "fdRecord (DynUpdate gvr ns u) d"
  have fill: "(if uNamespace u = [] then u\<lparr>uNamespace := uNamespace u\<rparr> else u) = u" by (cases u) simp
  show ?thesis
  proof (cases "map_of (fdObjects d) (gvr, ns, uName u)")
    case None
    then have "d' = ?d1" "r = Inl (NewNotFound (sgvrGroup gvr) (sgvrResource gvr) (uName u))"
      using run unfolding fdUpdate_def Let_def assms(3) [symmetric] fill by auto
    then show ?thesis using wf by (auto simp: fd_stale_def)
  next
    case (Some v)
    then have d': "d' = ?d1\<lparr>fdObjects := alist_upd (gvr, ns, uName u) u (fdObjects ?d1)\<rparr>" "r = Inr u"
      using run unfolding fdUpdate_def Let_def assms(3) [symmetric] fill by auto
    then show ?thesis using fd_wf_upd [of ?d1 u ns "uName u" gvr] wf assms(3) Some
      by (auto simp: fd_stale_def)
  qed
qed

text \<open>Also when the namespace of the request is not that of the object.\<close>

lemma fdUpdate_frame:
  assumes "fd_wf d" and "fdUpdate gvr ns u d = (r, d')"
  shows "fd_wf d' \<and> (\<forall>g. fd_stale g d' \<subseteq> fd_stale g d)"
proof -
  let ?d1 = "fdRecord (DynUpdate gvr ns u) d"
  let ?v = "if uNamespace u = [] then u\<lparr>uNamespace := ns\<rparr> else u"
  have "d' = ?d1 \<or> (uNamespace ?v = ns \<and> map_of (fdObjects d) (gvr, ns, uName ?v) \<noteq> None \<and>
          d' = ?d1\<lparr>fdObjects := alist_upd (gvr, ns, uName ?v) ?v (fdObjects ?d1)\<rparr>)"
    using assms(2) unfolding fdUpdate_def Let_def by (auto split: if_splits)
  then have "d' = ?d1 \<or> (\<exists>v. uNamespace v = ns \<and> map_of (fdObjects d) (gvr, ns, uName v) \<noteq> None \<and>
          d' = ?d1\<lparr>fdObjects := alist_upd (gvr, ns, uName v) v (fdObjects ?d1)\<rparr>)"
    by metis
  then show ?thesis using assms(1) fd_wf_upd [of ?d1 _ ns]
    by (auto simp: fd_stale_def split: if_splits)
qed

lemma fdList_spec:
  assumes wf: "fd_wf d" and run: "fdList gvr [] opts d = (r, d')"
  shows "fd_wf d' \<and> fd_stale gvr d' \<subseteq> fd_stale gvr d \<and>
    (\<exists>l. r = Inr l \<and> ulContinue l = [] \<and>
       fd_stale gvr d' \<subseteq> (\<lambda>u. (uNamespace u, uName u)) ` set (ulItems l))"
proof -
  have "(ns, n) \<in> (\<lambda>u. (uNamespace u, uName u)) ` set (filterByNamespace gvr [] d)"
    if "map_of (fdObjects d) (gvr, ns, n) = Some u" for ns n u
    using map_of_SomeD [OF that] fd_wf_lookup [OF wf that]
    by (force simp: filterByNamespace_def image_iff)
  then show ?thesis using run wf fd_stale_record [of gvr _ d]
    by (auto simp: fdList_def fd_stale_def)
qed

text \<open>
  \<open>PrependReactor("update", ...)\<close> with a reactor that answers some updates with an error of its own
  and leaves the others to the rest of the chain. The request is recorded in either case.
\<close>

definition fdUpdate_reactor ::
    "(Unstructured \<Rightarrow> error option) \<Rightarrow> SchemaGVR \<Rightarrow> string \<Rightarrow> Unstructured \<Rightarrow>
     (FakeDynamicClient, (Unstructured, error) result) call" where
  "fdUpdate_reactor reaction gvr ns obj d =
     (case reaction obj of
        Some err \<Rightarrow> (Inl err, fdRecord (DynUpdate gvr ns obj) d)
      | None \<Rightarrow> fdUpdate gvr ns obj d)"

definition reactingClient :: "(Unstructured \<Rightarrow> error option) \<Rightarrow> FakeDynamicClient DynamicInterface" where
  "reactingClient reaction =
     \<lparr>dynGet = fdGet, dynUpdate = fdUpdate_reactor reaction, dynList = fdList\<rparr>"

subsection \<open>A cluster of both fake clients\<close>

text \<open>
  The world a test builds: the typed clientset (with its clock) and the dynamic client side by
  side. The interfaces are those of the two clients, each acting on its part.
\<close>

record FakeCluster =
  clTyped :: FakeClientset
  clDynamic :: FakeDynamicClient

definition onTyped :: "(FakeClientset, 'a) call \<Rightarrow> (FakeCluster, 'a) call" where
  "onTyped f w = (let (r, t) = f (clTyped w) in (r, w\<lparr>clTyped := t\<rparr>))"

definition onDynamic :: "(FakeDynamicClient, 'a) call \<Rightarrow> (FakeCluster, 'a) call" where
  "onDynamic f w = (let (r, d) = f (clDynamic w) in (r, w\<lparr>clDynamic := d\<rparr>))"

definition clusterMigrations :: "FakeCluster StorageVersionMigrationInterface" where
  "clusterMigrations = \<lparr>
     svmCreate = (\<lambda>m. onTyped (svmCreate FakeStorageVersionMigrations m)),
     svmUpdate = (\<lambda>m. onTyped (svmUpdate FakeStorageVersionMigrations m)),
     svmUpdateStatus = (\<lambda>m. onTyped (svmUpdateStatus FakeStorageVersionMigrations m)),
     svmDelete = (\<lambda>n. onTyped (svmDelete FakeStorageVersionMigrations n)),
     svmGet = (\<lambda>n. onTyped (svmGet FakeStorageVersionMigrations n))\<rparr>"

definition clusterDynamic :: "FakeCluster DynamicInterface" where
  "clusterDynamic = \<lparr>
     dynGet = (\<lambda>gvr ns n. onDynamic (fdGet gvr ns n)),
     dynUpdate = (\<lambda>gvr ns u. onDynamic (fdUpdate gvr ns u)),
     dynList = (\<lambda>gvr ns opts. onDynamic (fdList gvr ns opts))\<rparr>"

definition clusterRuntime :: "FakeCluster Runtime" where
  "clusterRuntime = \<lparr>
     rtNow = onTyped (rtNow clockRuntime),
     rtSleep = (\<lambda>d w. w\<lparr>clTyped := rtSleep clockRuntime d (clTyped w)\<rparr>),
     rtRand = onTyped (rtRand clockRuntime)\<rparr>"

definition cluster_migs :: "FakeCluster \<Rightarrow> string \<rightharpoonup> StorageVersionMigration" where
  "cluster_migs w = fake_migs (clTyped w)"

definition cluster_wf :: "FakeCluster \<Rightarrow> bool" where
  "cluster_wf w \<longleftrightarrow> fake_wf (clTyped w) \<and> fd_wf (clDynamic w)"

lemma onTyped_eq:
  "onTyped f w = (r, w') \<longleftrightarrow> (\<exists>t. f (clTyped w) = (r, t) \<and> w' = w\<lparr>clTyped := t\<rparr>)"
  by (auto simp: onTyped_def split: prod.splits)

lemma onDynamic_eq:
  "onDynamic f w = (r, w') \<longleftrightarrow> (\<exists>d. f (clDynamic w) = (r, d) \<and> w' = w\<lparr>clDynamic := d\<rparr>)"
  by (auto simp: onDynamic_def split: prod.splits)

lemma onTyped_part: "onTyped f = onPart clTyped (\<lambda>t w. w\<lparr>clTyped := t\<rparr>) f"
  by (simp add: fun_eq_iff onTyped_def onPart_def)

lemma clusterMigrations_api: "migration_api clusterMigrations cluster_migs cluster_wf"
proof -
  have "migration_api (liftMigrations clTyped (\<lambda>t w. w\<lparr>clTyped := t\<rparr>) FakeStorageVersionMigrations)
      (\<lambda>w. fake_migs (clTyped w)) (\<lambda>w. fake_wf (clTyped w) \<and> fd_wf (clDynamic w))"
    by (rule liftMigrations_api [OF fake_svm.migration_api_axioms]) simp_all
  then show ?thesis
    by (simp add: liftMigrations_def clusterMigrations_def onTyped_part cluster_migs_def [abs_def] cluster_wf_def [abs_def])
qed

interpretation cluster: migration_env clusterMigrations cluster_migs cluster_wf clusterRuntime
proof (intro migration_env.intro migration_env_axioms.intro clusterMigrations_api, goal_cases)
  case (1 w d) then show ?case
    using fake_svm.svm_sleep [of "clTyped w" d] by (simp add: clusterRuntime_def cluster_migs_def cluster_wf_def)
next
  case (3 w n e w' m) then show ?case
    using fake_svm_no_timeout [of n "clTyped w" e _ m] by (auto simp: clusterMigrations_def onTyped_eq)
qed (simp_all add: clusterRuntime_def cluster_migs_def cluster_wf_def onTyped_def)

end
