(* ===== verification/Core_Correct.thy ===== *)
theory Core_Correct
  imports Core_Migrator Fake_Dynamic
begin

section \<open>Correctness of the core migrator\<close>

text \<open>
  The contracts of \<open>Core_Migrator\<close> are interpreted on the migrator that \<open>NewMigrator\<close> builds over the
  two fake clients, and its results are stated for every server that keeps the contracts.
\<close>

subsection \<open>The contracts hold for the fake clients\<close>

abbreviation clusterMigrator :: "SchemaGVR \<Rightarrow> string \<Rightarrow> FakeCluster migrator" where
  "clusterMigrator gvr n \<equiv>
     NewMigrator gvr clusterDynamic (NewProgressTracker clusterRuntime clusterMigrations n)"

lemma clusterMigrations_dynamic:
  "svmGet clusterMigrations n w = (r, w') \<Longrightarrow> clDynamic w' = clDynamic w"
  "svmUpdate clusterMigrations m w = (r, w') \<Longrightarrow> clDynamic w' = clDynamic w"
  by (auto simp: clusterMigrations_def onTyped_eq)

lemma cluster_load_dynamic:
  "clDynamic (snd (load \<lparr>ptClient = clusterMigrations, ptName = n\<rparr> w)) = clDynamic w"
  using clusterMigrations_dynamic(1) [of n w] by (auto simp: load_def split: prod.splits sum.splits)

lemma cluster_save_dynamic:
  assumes "cluster_wf w"
  shows "clDynamic (snd (save clusterRuntime \<lparr>ptClient = clusterMigrations, ptName = n\<rparr> t w)) = clDynamic w"
proof -
  let ?p = "\<lparr>ptClient = clusterMigrations, ptName = n\<rparr>"
  let ?P = "\<lambda>(v :: unit, w'). cluster_wf w' \<and> clDynamic w' = clDynamic w"
  obtain r s' where run: "OnError clusterRuntime DefaultRetry IsConflict (save_attempt ?p t) ((), w) = (r, s')"
    by (metis surj_pair)
  have att: "?P s1 \<and> (\<forall>e. r1 = Some e \<longrightarrow> e \<noteq> ErrWaitTimeout)"
    if "?P s" and "save_attempt ?p t s = (r1, s1)" for s s1 r1
  proof -
    obtain w1 w2 where s: "s = ((), w1)" "s1 = ((), w2)" by (cases s, cases s1) auto
    have "cluster_wf w2" using cluster.save_attempt_spec [of w1 n t r1 "()" w2] that s by auto
    moreover have "clDynamic w2 = clDynamic w1" using that(2) s clusterMigrations_dynamic
      by (fastforce simp: save_attempt_def split: prod.splits sum.splits)
    ultimately show ?thesis using that s cluster.save_attempt_no_timeout [of w1 n t "()" _ s1] by auto
  qed
  have "case r of None \<Rightarrow> ?P s' | Some e \<Rightarrow> ?P s'"
    by (rule OnError_inv [where b = DefaultRetry and n = 4 and P = ?P and S = ?P, OF _ _ _ _ _ _ _ run])
      (use assms att cluster.svm_rand cluster.svm_sleep in
        \<open>auto simp: clusterRuntime_def onTyped_def split: prod.splits\<close>)
  then show ?thesis using run
    by (auto simp: save_def RetryOnConflict_def split: option.splits prod.splits)
qed

lemmas cluster_calls = get_def put_def list_def NewMigrator_def clusterDynamic_def onDynamic_eq
  NamespaceAll_def cluster_wf_def savedToken_def cluster_migs_def calm_def

interpretation cluster_migrator: migrator_live "clusterMigrator gvr n" "savedToken cluster_migs n"
    cluster_wf clusterRuntime "\<lambda>w. fd_stale gvr (clDynamic w)" "\<lambda>t. UNIV" "\<lambda>w. 0" "\<lambda>t. 0" for gvr n
proof (unfold_locales, goal_cases)
  case (1 w t w')
  then show ?case using cluster.tracker.load_ok [of w n t w'] by (simp add: NewMigrator_def)
next
  case (2 w e w')
  then show ?case using cluster.tracker.load_err [of w n e w'] by (simp add: NewMigrator_def)
next
  case (3 w t w')
  then show ?case using cluster.tracker.save_ok [of w n t w'] by (simp add: NewMigrator_def)
next
  case (4 w t e w')
  then show ?case using cluster.tracker.save_err [of w n t e w'] by (simp add: NewMigrator_def)
next
  case (5 w ns nm r w')
  then show ?case using fdGet_spec [of "clDynamic w" gvr ns nm r]
    by (auto simp: cluster_calls keyOf_def split: sum.splits)
next
  case (6 w ns item r w' nm)
  then show ?case using fdUpdate_spec [of "clDynamic w" gvr ns item r]
    by (auto simp: cluster_calls keyOf_def split: sum.splits)
next
  case (7 w opts rl w')
  then show ?case using fdList_spec [of "clDynamic w" gvr opts rl]
    by (auto simp: cluster_calls keyOf_def [abs_def])
next
  case (8 w d)
  then show ?case using cluster.svm_sleep [of w d]
    by (auto simp: calm_def savedToken_def clusterRuntime_def)
next
  case (9 w)
  then show ?case using cluster_load_dynamic [of n w] by (simp add: NewMigrator_def NewProgressTracker_def Let_def)
next
  case (10 w t)
  then show ?case using cluster_save_dynamic [of w n t] by (simp add: NewMigrator_def NewProgressTracker_def Let_def)
next
  case (11 w ns nm r w')
  then show ?case using fdGet_spec [of "clDynamic w" gvr ns nm r] by (auto simp: cluster_calls)
next
  case (12 w ns item r w' nm)
  then show ?case using fdUpdate_spec [of "clDynamic w" gvr ns item r]
    by (auto simp: cluster_calls keyOf_def)
next
  case (13 w opts rl w')
  then show ?case using fdList_spec [of "clDynamic w" gvr opts rl] by (auto simp: cluster_calls)
qed simp_all

subsection \<open>Run migrates every object\<close>

definition examplePods :: FakeDynamicClient where
  "examplePods = \<lparr>fdActions = [],
     fdObjects = [((WithResource \<lparr>gvGroup = [], gvVersion = ''v1''\<rparr> ''pods'', ''ns'', ''b''),
                   \<lparr>uNamespace = ''ns'', uName = ''b'', uResourceVersion = ''2'', uContent = ''B''\<rparr>),
                  ((WithResource \<lparr>gvGroup = [], gvVersion = ''v1''\<rparr> ''pods'', ''ns'', ''a''),
                   \<lparr>uNamespace = ''ns'', uName = ''a'', uResourceVersion = ''1'', uContent = ''A''\<rparr>)]\<rparr>"

definition podsResource :: SchemaGVR where
  "podsResource = WithResource \<lparr>gvGroup = [], gvVersion = ''v1''\<rparr> ''pods''"

definition exampleCluster :: FakeCluster where
  "exampleCluster = \<lparr>clTyped = exampleWorld, clDynamic = examplePods\<rparr>"

lemma exampleCluster_wf: "cluster_wf exampleCluster"
  using exampleWorld_wf by (simp add: cluster_wf_def exampleCluster_def fd_wf_def examplePods_def)

lemma exampleCluster_stale:
  "fd_stale podsResource (clDynamic exampleCluster) = {(''ns'', ''a''), (''ns'', ''b'')}"
  by (auto simp: fd_stale_def exampleCluster_def examplePods_def podsResource_def split: if_splits)

lemma exampleCluster_saved: "savedToken cluster_migs ''pods'' exampleCluster = Some []"
proof -
  have "map_option (\<lambda>m. specContinueToken (svmSpec m)) (fake_migs exampleWorld ''pods'') = Some []"
    by code_simp
  then show ?thesis by (simp add: savedToken_def cluster_migs_def exampleCluster_def)
qed

text \<open>The run of the migrator on the example: no error, and two objects counted.\<close>

lemma exampleCluster_run:
  "\<exists>mt' w'. Run clusterRuntime (clusterMigrator podsResource ''pods'') newCoreMigratorMetrics exampleCluster
     = Some (None, mt', w') \<and> migratedCount mt' ''/v1, Resource=pods'' = 2"
proof -
  let ?run = "Run clusterRuntime (clusterMigrator podsResource ''pods'') newCoreMigratorMetrics exampleCluster"
  have "map_option fst ?run = Some None" by code_simp
  moreover have "map_option (\<lambda>y. migratedCount (fst (snd y)) ''/v1, Resource=pods'') ?run = Some 2"
    by code_simp
  ultimately show ?thesis by auto
qed

text \<open>
  C1. Completeness of a migration. When \<open>Run\<close> returns without an error, no object that was
  listed from the token it started with is still stored in an old version: every one of them was
  written back, was written by someone else, or is gone. Retries, conflicts, expired continue
  tokens and failures to save the progress included, for every server that keeps its contract.
\<close>

theorem Run_migrates_everything:
  assumes "migrator_env m saved valid rt stale remaining" and "valid w" and "saved w = Some t0"
    and "Run rt m mt w = Some (None, mt', w')"
  shows "stale w' \<inter> remaining t0 = {}"
  using migrator_env.Run_spec [OF assms(1,4,2,3)] by (simp add: run_post_def)

theorem Run_migrates_everything_witness:
  "\<exists>mt' w'. Run clusterRuntime (clusterMigrator podsResource ''pods'') newCoreMigratorMetrics exampleCluster
     = Some (None, mt', w')
     \<and> fd_stale podsResource (clDynamic exampleCluster) \<noteq> {} \<and> fd_stale podsResource (clDynamic w') = {}"
proof -
  obtain mt' w' where run: "Run clusterRuntime (clusterMigrator podsResource ''pods'')
      newCoreMigratorMetrics exampleCluster = Some (None, mt', w')"
    using exampleCluster_run by blast
  from Run_migrates_everything [OF cluster_migrator.migrator_env_axioms exampleCluster_wf
      exampleCluster_saved run] run exampleCluster_stale
  show ?thesis by auto
qed



text \<open>
  C6. \<open>Run\<close> returns. On a server that answers with a bounded number of retriable failures
  and ends every listing after finitely many chunks, the migrator terminates, whatever the
  answers in between.
\<close>

theorem Run_terminates:
  assumes "migrator_live m saved valid rt stale remaining budget chunks" and "valid w"
  shows "\<exists>r mt' w'. Run rt m mt w = Some (r, mt', w')"
  using migrator_live.Run_returns [OF assms, of mt] by (metis prod_cases3)

theorem Run_terminates_witness:
  "\<exists>r mt' w'. Run clusterRuntime (clusterMigrator podsResource ''pods'') newCoreMigratorMetrics exampleCluster
     = Some (r, mt', w')"
  by (rule Run_terminates [OF cluster_migrator.migrator_live_axioms exampleCluster_wf])


text \<open>A client whose every PUT is answered with the same error, and no progress tracker.\<close>

definition rejectingMigrator :: "error \<Rightarrow> FakeDynamicClient migrator" where
  "rejectingMigrator e =
     NewMigrator podsResource (reactingClient (\<lambda>u. Some e))
       \<lparr>piSave = (\<lambda>t w. (None, w)), piLoad = (\<lambda>w. (Inr [], w))\<rparr>"

definition examplePod :: Unstructured where
  "examplePod = \<lparr>uNamespace = ''ns'', uName = ''a'', uResourceVersion = ''1'', uContent = ''A''\<rparr>"

definition noRuntime :: "'w Runtime" where
  "noRuntime = \<lparr>rtNow = (\<lambda>w. (0, w)), rtSleep = (\<lambda>d w. w), rtRand = (\<lambda>w. (0, w))\<rparr>"



definition forbidden :: Status where
  "forbidden = \<lparr>stContinue = [], stMessage = ''pods is forbidden'', stReason = ''Forbidden'',
                stDetails = None, stCode = 403\<rparr>"


end
