(* ===== verification/Migrate_List.thy ===== *)
theory Migrate_List
  imports Core_Correct
begin

section \<open>migrateList: workers, channels and the collector\<close>

text \<open>
  \<open>migrateList\<close> and \<open>worker\<close> of \<open>pkg/migrator/core.go\<close> as they run: a producer goroutine sends the items of
  the chunk over the unbuffered channel \<open>workc\<close> and closes it, \<open>m.concurrency\<close> workers take
  items and send errors over the unbuffered channel \<open>errc\<close>, a closer waits for the workers
  and closes \<open>errc\<close>, the caller collects the errors and returns their aggregate, which
  cancels the context. A step is one synchronisation or one call to the API server, so
  the calls of the workers interleave freely.
\<close>

subsection \<open>State\<close>

datatype workerState =
    WIdle                            \<comment> \<open>receiving from \<open>workc\<close>\<close>
  | WTry Unstructured bool           \<comment> \<open>at the call of \<open>try\<close>, with \<open>getBeforePut\<close>\<close>
  | WPut Unstructured Unstructured   \<comment> \<open>inside \<open>try\<close>, at the PUT of the refreshed object\<close>
  | WSend error                      \<comment> \<open>at the \<open>select\<close> that sends to \<open>errc\<close>\<close>
  | WExit                            \<comment> \<open>returned, \<open>wg.Done()\<close> called\<close>

record 'w mlState =
  mlItems :: "Unstructured list"     \<comment> \<open>what the producer still has to send\<close>
  mlClosed :: bool                   \<comment> \<open>\<open>workc\<close> is closed\<close>
  mlWorkers :: "workerState list"
  mlErrcClosed :: bool
  mlErrors :: "error list"
  mlReturned :: "error option option" \<comment> \<open>what \<open>migrateList\<close> returned; then \<open>ctx\<close> is cancelled\<close>
  mlWorld :: 'w

definition mlInit :: "UnstructuredList \<Rightarrow> nat \<Rightarrow> 'w \<Rightarrow> 'w mlState" where
  "mlInit l n w =
     \<lparr>mlItems = ulItems l, mlClosed = False, mlWorkers = replicate n WIdle, mlErrcClosed = False,
      mlErrors = [], mlReturned = None, mlWorld = w\<rparr>"

definition setWorker :: "nat \<Rightarrow> workerState \<Rightarrow> 'w mlState \<Rightarrow> 'w mlState" where
  "setWorker i ws s = s\<lparr>mlWorkers := (mlWorkers s)[i := ws]\<rparr>"

text \<open>What a worker does with the outcome of a try: the body of the loop of \<open>migrateOneItem\<close>.\<close>

definition afterTry ::
    "'w Runtime \<Rightarrow> nat \<Rightarrow> Unstructured \<Rightarrow> bool \<Rightarrow> error option \<Rightarrow> 'w \<Rightarrow> 'w mlState \<Rightarrow> 'w mlState" where
  "afterTry rt i item g err w s =
     (if err = None \<or> IsNotFound err then setWorker i WIdle (s\<lparr>mlWorld := w\<rparr>)
      else if canRetry err then setWorker i (WTry item g) (s\<lparr>mlWorld := sleepSuggested rt err w\<rparr>)
      else setWorker i (WSend (the err)) (s\<lparr>mlWorld := w\<rparr>))"

inductive mlStep :: "'w Runtime \<Rightarrow> 'w migrator \<Rightarrow> 'w mlState \<Rightarrow> 'w mlState \<Rightarrow> bool"
  for rt m where
  send: "mlItems s = item # items \<Longrightarrow> i < length (mlWorkers s) \<Longrightarrow> mlWorkers s ! i = WIdle \<Longrightarrow>
    mlStep rt m s (setWorker i (WTry item False) (s\<lparr>mlItems := items\<rparr>))"
| produced: "mlItems s = [] \<Longrightarrow> \<not> mlClosed s \<Longrightarrow> mlStep rt m s (s\<lparr>mlClosed := True\<rparr>)"
| cancelled: "mlReturned s \<noteq> None \<Longrightarrow> \<not> mlClosed s \<Longrightarrow>
    mlStep rt m s (s\<lparr>mlItems := [], mlClosed := True\<rparr>)"
| drained: "mlClosed s \<Longrightarrow> i < length (mlWorkers s) \<Longrightarrow> mlWorkers s ! i = WIdle \<Longrightarrow>
    mlStep rt m s (setWorker i WExit s)"
| tryGet: "i < length (mlWorkers s) \<Longrightarrow> mlWorkers s ! i = WTry item True \<Longrightarrow>
    get m (uNamespace item) (uName item) (mlWorld s) = (Inr cur, w') \<Longrightarrow>
    mlStep rt m s (setWorker i (WPut item cur) (s\<lparr>mlWorld := w'\<rparr>))"
| tryGetErr: "i < length (mlWorkers s) \<Longrightarrow> mlWorkers s ! i = WTry item True \<Longrightarrow>
    get m (uNamespace item) (uName item) (mlWorld s) = (Inl err, w') \<Longrightarrow>
    mlStep rt m s (afterTry rt i item True (Some err) w' s)"
| tryPut: "i < length (mlWorkers s) \<Longrightarrow>
    mlWorkers s ! i = WTry item False \<and> cur = item \<or> mlWorkers s ! i = WPut item cur \<Longrightarrow>
    try_put m (uNamespace item) cur (mlWorld s) = ((g, err), w') \<Longrightarrow>
    mlStep rt m s (afterTry rt i item g err w' s)"
| collect: "i < length (mlWorkers s) \<Longrightarrow> mlWorkers s ! i = WSend err \<Longrightarrow>
    \<not> mlErrcClosed s \<Longrightarrow> mlReturned s = None \<Longrightarrow>
    mlStep rt m s (setWorker i WIdle (s\<lparr>mlErrors := mlErrors s @ [err]\<rparr>))"
| abandon: "i < length (mlWorkers s) \<Longrightarrow> mlWorkers s ! i = WSend err \<Longrightarrow> mlReturned s \<noteq> None \<Longrightarrow>
    mlStep rt m s (setWorker i WExit s)"
| closeErrc: "\<forall>ws \<in> set (mlWorkers s). ws = WExit \<Longrightarrow> \<not> mlErrcClosed s \<Longrightarrow>
    mlStep rt m s (s\<lparr>mlErrcClosed := True\<rparr>)"
| return: "mlErrcClosed s \<Longrightarrow> mlReturned s = None \<Longrightarrow>
    mlStep rt m s (s\<lparr>mlReturned := Some (NewAggregate (mlErrors s))\<rparr>)"

abbreviation mlSteps :: "'w Runtime \<Rightarrow> 'w migrator \<Rightarrow> 'w mlState \<Rightarrow> 'w mlState \<Rightarrow> bool" where
  "mlSteps rt m \<equiv> (mlStep rt m)\<^sup>*\<^sup>*"

lemma setWorker_sel [simp]:
  "mlItems (setWorker i ws s) = mlItems s" "mlClosed (setWorker i ws s) = mlClosed s"
  "mlWorkers (setWorker i ws s) = (mlWorkers s)[i := ws]"
  "mlErrcClosed (setWorker i ws s) = mlErrcClosed s" "mlErrors (setWorker i ws s) = mlErrors s"
  "mlReturned (setWorker i ws s) = mlReturned s" "mlWorld (setWorker i ws s) = mlWorld s"
  by (simp_all add: setWorker_def)

subsection \<open>The protocol of the channels\<close>

text \<open>
  A worker leaves only when \<open>workc\<close> is closed, which happens when every item was sent; \<open>errc\<close> is
  closed only when all workers left, and only then the caller returns. So the context is
  never cancelled while there is work.
\<close>

definition mlProtocol :: "nat \<Rightarrow> 'w mlState \<Rightarrow> bool" where
  "mlProtocol n s \<longleftrightarrow> length (mlWorkers s) = n \<and>
     (mlClosed s \<longrightarrow> mlItems s = []) \<and> (WExit \<in> set (mlWorkers s) \<longrightarrow> mlClosed s) \<and>
     (mlErrcClosed s \<longrightarrow> (\<forall>ws \<in> set (mlWorkers s). ws = WExit)) \<and>
     (mlReturned s \<noteq> None \<longrightarrow> mlErrcClosed s \<and> mlReturned s = Some (NewAggregate (mlErrors s)))"

lemma afterTry_sel [simp]:
  "mlItems (afterTry rt i item g err w s) = mlItems s"
  "mlClosed (afterTry rt i item g err w s) = mlClosed s"
  "mlErrcClosed (afterTry rt i item g err w s) = mlErrcClosed s"
  "mlErrors (afterTry rt i item g err w s) = mlErrors s"
  "mlReturned (afterTry rt i item g err w s) = mlReturned s"
  "length (mlWorkers (afterTry rt i item g err w s)) = length (mlWorkers s)"
  by (simp_all add: afterTry_def)

lemma afterTry_not_exit:
  "\<exists>ws. ws \<noteq> WExit \<and> mlWorkers (afterTry rt i item g err w s) = (mlWorkers s)[i := ws]"
  by (auto simp: afterTry_def)

lemma busy_open:
  assumes "mlProtocol n s" and "i < length (mlWorkers s)" and "mlWorkers s ! i \<noteq> WExit"
  shows "\<not> mlErrcClosed s" and "mlReturned s = None"
  using assms by (auto simp: mlProtocol_def all_set_conv_all_nth)

lemma set_update_exit: "WExit \<in> set (xs[i := ws]) \<Longrightarrow> ws \<noteq> WExit \<Longrightarrow> WExit \<in> set xs"
  using set_update_subset_insert [of xs i ws] by auto

lemma mlProtocol_busy:
  assumes "mlProtocol n s" and "i < length (mlWorkers s)" and "mlWorkers s ! i \<noteq> WExit"
    and "ws \<noteq> WExit" and "mlWorkers s' = (mlWorkers s)[i := ws]"
    and "mlItems s = [] \<longrightarrow> mlItems s' = []" and "mlClosed s' = mlClosed s"
    and "mlErrcClosed s' = mlErrcClosed s" and "mlReturned s' = mlReturned s"
  shows "mlProtocol n s'"
  using assms busy_open [OF assms(1-3)] set_update_exit [of "mlWorkers s" i ws]
  by (auto simp: mlProtocol_def)

lemma mlProtocol_step:
  assumes "mlStep rt m s s'" and "mlProtocol n s"
  shows "mlProtocol n s'"
  using assms
proof (cases rule: mlStep.cases)
  case (send item items i)
  then show ?thesis using mlProtocol_busy [OF assms(2), of i "WTry item False" s']  assms(2)
    by (auto simp: mlProtocol_def)
next
  case (tryGetErr i item err w')
  then show ?thesis
    using mlProtocol_busy [OF assms(2), of i _ s'] afterTry_not_exit [of rt i item True "Some err" w' s] by auto
next
  case (tryPut i item cur g err w')
  then show ?thesis
    using mlProtocol_busy [OF assms(2), of i _ s'] afterTry_not_exit [of rt i item g err w' s] by auto
next
  case (tryGet i item cur w')
  then show ?thesis using mlProtocol_busy [OF assms(2), of i "WPut item cur" s'] by auto
next
  case (collect i err)
  then show ?thesis using mlProtocol_busy [OF assms(2), of i "WIdle" s'] by auto
next
  case (drained i)
  then show ?thesis using assms(2) busy_open [OF assms(2), of i] by (auto simp: mlProtocol_def)
next
  case (abandon i err)
  then show ?thesis using busy_open [OF assms(2), of i] by simp
qed (use assms(2) in \<open>auto simp: mlProtocol_def\<close>)

lemma mlProtocol_init: "mlProtocol n (mlInit l n w)"
  by (cases n) (auto simp: mlProtocol_def mlInit_def)

lemma mlProtocol_reachable: "mlSteps rt m (mlInit l n w) s \<Longrightarrow> mlProtocol n s"
  by (induction rule: rtranclp_induct) (auto intro: mlProtocol_init mlProtocol_step)

subsection \<open>No schedule gets stuck\<close>

lemma mlStep_progress:
  assumes "mlProtocol n s" and "mlReturned s = None"
  shows "\<exists>s'. mlStep rt m s s'"
proof (cases "mlErrcClosed s")
  case True
  then show ?thesis using assms(2) mlStep.return by blast
next
  case open_: False
  show ?thesis
  proof (cases "\<forall>ws \<in> set (mlWorkers s). ws = WExit")
    case True
    then show ?thesis using open_ mlStep.closeErrc by blast
  next
    case False
    then obtain i where i: "i < length (mlWorkers s)" and ne: "mlWorkers s ! i \<noteq> WExit"
      by (auto simp: in_set_conv_nth)
    show ?thesis
    proof (cases "mlWorkers s ! i")
      case WIdle
      then show ?thesis using i mlStep.send mlStep.produced mlStep.drained
        by (cases "mlItems s"; cases "mlClosed s") blast+
    next
      case (WTry item g)
      obtain r w' where r: "get m (uNamespace item) (uName item) (mlWorld s) = (r, w')" by (metis surj_pair)
      obtain g' err w'' where p: "try_put m (uNamespace item) item (mlWorld s) = ((g', err), w'')"
        by (metis surj_pair)
      show ?thesis
      proof (cases g)
        case True
        then show ?thesis using i WTry r mlStep.tryGet [of i s item m _ w' rt]
            mlStep.tryGetErr [of i s item m _ w' rt] by (cases r) auto
      next
        case False
        then show ?thesis using i WTry mlStep.tryPut [OF i _ p, of rt] by auto
      qed
    next
      case (WPut item cur)
      obtain g' err w'' where "try_put m (uNamespace item) cur (mlWorld s) = ((g', err), w'')"
        by (metis surj_pair)
      then show ?thesis using i WPut mlStep.tryPut [of i s item cur] by blast
    next
      case (WSend e)
      then show ?thesis using i open_ assms(2) mlStep.collect by blast
    next
      case WExit
      then show ?thesis using ne by simp
    qed
  qed
qed

subsection \<open>Every item is migrated or reported\<close>

fun holds :: "workerState \<Rightarrow> Unstructured \<Rightarrow> bool" where
  "holds (WTry item g) x = (item = x)"
| "holds (WPut item cur) x = (item = x)"
| "holds ws x = False"

text \<open>Where an item of the chunk is: still to be sent, with a worker, migrated; or an error is under way.\<close>

definition covered :: "('w \<Rightarrow> key set) \<Rightarrow> Unstructured \<Rightarrow> 'w mlState \<Rightarrow> bool" where
  "covered stale x s \<longleftrightarrow>
     x \<in> set (mlItems s) \<or> (\<exists>ws \<in> set (mlWorkers s). holds ws x) \<or> keyOf x \<notin> stale (mlWorld s)
     \<or> mlErrors s \<noteq> [] \<or> (\<exists>e. WSend e \<in> set (mlWorkers s))"

definition mlSound :: "('w \<Rightarrow> bool) \<Rightarrow> ('w \<Rightarrow> key set) \<Rightarrow> Unstructured list \<Rightarrow> 'w mlState \<Rightarrow> bool" where
  "mlSound valid stale items s \<longleftrightarrow> valid (mlWorld s) \<and>
     (\<forall>item cur. WPut item cur \<in> set (mlWorkers s) \<longrightarrow> keyOf cur = keyOf item) \<and>
     (\<forall>x \<in> set items. covered stale x s)"

lemma set_update_other: "y \<in> set xs \<Longrightarrow> y \<noteq> xs ! i \<Longrightarrow> y \<in> set (xs[i := z])"
  by (metis in_set_conv_nth length_list_update nth_list_update_neq)

lemma covered_update:
  assumes "covered stale x s" and i: "i < length (mlWorkers s)"
    and w: "mlWorkers s' = (mlWorkers s)[i := ws]"
    and items: "set (mlItems s) \<subseteq> set (mlItems s') \<union> {y. holds ws y}"
    and st: "stale (mlWorld s') \<subseteq> stale (mlWorld s)" and errs: "set (mlErrors s) \<subseteq> set (mlErrors s')"
    and held: "holds (mlWorkers s ! i) x \<Longrightarrow> holds ws x \<or> keyOf x \<notin> stale (mlWorld s') \<or> (\<exists>e. ws = WSend e)"
    and sent: "\<And>e. mlWorkers s ! i = WSend e \<Longrightarrow> mlErrors s' \<noteq> []"
  shows "covered stale x s'"
proof -
  have new: "ws \<in> set (mlWorkers s')" using i w by (simp add: set_update_memI)
  have old: "ws' \<in> set (mlWorkers s')" if "ws' \<in> set (mlWorkers s)" "ws' \<noteq> mlWorkers s ! i" for ws'
    using set_update_other [OF that] w by simp
  consider "x \<in> set (mlItems s)" | "keyOf x \<notin> stale (mlWorld s)" | "mlErrors s \<noteq> []"
    | ws' where "ws' \<in> set (mlWorkers s)" "holds ws' x" | e where "WSend e \<in> set (mlWorkers s)"
    using assms(1) by (auto simp: covered_def)
  then show ?thesis
  proof cases
    case 4
    then show ?thesis using old [of ws'] new held by (cases "ws' = mlWorkers s ! i") (auto simp: covered_def)
  next
    case 5
    then show ?thesis using old [of "WSend e"] sent [of e]
      by (cases "mlWorkers s ! i = WSend e") (auto simp: covered_def)
  qed (use items st errs new in \<open>auto simp: covered_def\<close>)
qed

context migrator_env
begin

lemma mlSound_afterTry:
  assumes snd: "mlSound valid stale items s" and i: "i < length (mlWorkers s)"
    and item: "\<And>x. holds (mlWorkers s ! i) x \<longleftrightarrow> x = item" and c: "calm valid stale saved (mlWorld s) w'"
    and ok: "err = None \<or> IsNotFound err \<Longrightarrow> keyOf item \<notin> stale w'"
  shows "mlSound valid stale items (afterTry rt i item g err w' s)"
proof -
  let ?s' = "afterTry rt i item g err w' s"
  have v: "valid w'" using c by (simp add: calm_def)
  have c2: "calm valid stale saved (mlWorld s) (mlWorld ?s')"
    using c calm_trans [OF c sleepSuggested_calm [OF v]] by (auto simp: afterTry_def)
  define ws where "ws = (if err = None \<or> IsNotFound err then WIdle
                         else if canRetry err then WTry item g else WSend (the err))"
  have ws: "mlWorkers ?s' = (mlWorkers s)[i := ws]" "ws = WIdle \<or> ws = WTry item g \<or> (\<exists>e. ws = WSend e)"
    by (auto simp: afterTry_def ws_def)
  have idle: "ws = WIdle \<Longrightarrow> keyOf item \<notin> stale (mlWorld ?s')"
    using ok by (auto simp: afterTry_def ws_def split: if_splits)
  have notsend: "mlWorkers s ! i \<noteq> WSend e" for e using item [of item] by auto
  have "covered stale x ?s'" if "x \<in> set items" for x
    using ws(2) idle notsend item snd that c2
    by (intro covered_update [of stale x s i ?s' ws]) (auto simp: i ws(1) mlSound_def calm_def)
  moreover have "keyOf cur = keyOf it" if "WPut it cur \<in> set (mlWorkers ?s')" for it cur
    using that set_update_subset_insert [of "mlWorkers s" i ws] ws snd by (auto simp: mlSound_def)
  ultimately show ?thesis using c2 by (auto simp: mlSound_def calm_def)
qed

lemma mlSound_step:
  assumes "mlStep rt m s s'" and "mlSound valid stale items s" and "mlProtocol n s" and "0 < n"
  shows "mlSound valid stale items s'"
proof -
  have v: "valid (mlWorld s)" using assms(2) by (simp add: mlSound_def)
  have cov: "covered stale x s" if "x \<in> set items" for x using assms(2) that by (simp add: mlSound_def)
  have puts: "\<And>it cur. WPut it cur \<in> set (mlWorkers s) \<Longrightarrow> keyOf cur = keyOf it"
    using assms(2) by (simp add: mlSound_def)
  show ?thesis using assms(1)
  proof (cases rule: mlStep.cases)
    case (send item rest i)
    have "covered stale x s'" if "x \<in> set items" for x
      by (rule covered_update [OF cov [OF that], of i _ "WTry item False"]) (use send in auto)
    then show ?thesis using send v puts set_update_subset_insert [of "mlWorkers s" i]
      by (fastforce simp: mlSound_def)
  next
    case (drained i)
    have "covered stale x s'" if "x \<in> set items" for x
      by (rule covered_update [OF cov [OF that], of i _ WExit]) (use drained in auto)
    then show ?thesis using drained v puts set_update_subset_insert [of "mlWorkers s" i WExit]
      by (fastforce simp: mlSound_def)
  next
    case (tryGet i item cur w')
    note law = get_law [OF v tryGet(4)]
    have "covered stale x s'" if "x \<in> set items" for x
      by (rule covered_update [OF cov [OF that], of i _ "WPut item cur"])
        (use tryGet law in \<open>auto simp: calm_def\<close>)
    then show ?thesis using tryGet law puts set_update_subset_insert [of "mlWorkers s" i "WPut item cur"]
      by (fastforce simp: mlSound_def calm_def keyOf_def)
  next
    case (tryGetErr i item err w')
    then show ?thesis using get_law [OF v tryGetErr(4)]
      by (auto intro!: mlSound_afterTry [OF assms(2)] simp: keyOf_def)
  next
    case (tryPut i item cur g err w')
    have "keyOf cur = keyOf item" using tryPut(2,3) puts by (metis nth_mem)
    then have "keyOf cur = (uNamespace item, uName item)" by (simp add: keyOf_def)
    from try_put_spec [OF v this tryPut(4)] tryPut(1-3) show ?thesis
      by (auto intro!: mlSound_afterTry [OF assms(2)] simp: keyOf_def)
  next
    case (collect i err)
    have "covered stale x s'" if "x \<in> set items" for x
      by (rule covered_update [OF cov [OF that], of i _ WIdle]) (use collect in auto)
    then show ?thesis using collect v puts set_update_subset_insert [of "mlWorkers s" i WIdle]
      by (fastforce simp: mlSound_def)
  next
    case (abandon i err)
    then show ?thesis using busy_open [OF assms(3), of i] by simp
  next
    case cancelled
    then have "WExit \<in> set (mlWorkers s)"
      using assms(3,4) by (cases "mlWorkers s") (auto simp: mlProtocol_def)
    then show ?thesis using assms(3) cancelled by (simp add: mlProtocol_def)
  qed (use v puts cov in \<open>auto simp: mlSound_def covered_def\<close>)
qed

lemma mlSound_reachable:
  assumes "mlSteps rt m (mlInit l n w) s" and "valid w" and "0 < n"
  shows "mlSound valid stale (ulItems l) s"
  using assms(1)
proof (induction rule: rtranclp_induct)
  case base
  then show ?case using assms(2) by (auto simp: mlSound_def mlInit_def covered_def)
next
  case (step s s')
  then show ?case using mlSound_step [OF step(2) step(3) mlProtocol_reachable [OF step(1)]] assms(3) by simp
qed

end

subsection \<open>One worker computes migrateList\<close>

definition errorList :: "error option \<Rightarrow> error list" where
  "errorList err = (case err of None \<Rightarrow> [] | Some e \<Rightarrow> [e])"

definition loopAfter ::
    "'w Runtime \<Rightarrow> 'w migrator \<Rightarrow> Unstructured \<Rightarrow> bool \<Rightarrow> error option \<Rightarrow> 'w \<Rightarrow> (error option \<times> 'w) option" where
  "loopAfter rt m x g err w =
     (if err = None \<or> IsNotFound err then Some (None, w)
      else if canRetry err then
        migrateOneItem_loop rt m (uNamespace x) (uName x) x g (sleepSuggested rt err w)
      else Some (err, w))"

lemma migrateOneItem_loop_try:
  "migrateOneItem_loop rt m (uNamespace x) (uName x) x g w =
     (case try_migrate m (uNamespace x) (uName x) x g w of ((g', err), w1) \<Rightarrow> loopAfter rt m x g' err w1)"
  by (subst migrateOneItem_loop.simps) (simp add: loopAfter_def)

text \<open>The outcome of a run from a state of the single worker, as the sequential functions give it.\<close>

fun finishItem :: "'w Runtime \<Rightarrow> 'w migrator \<Rightarrow> workerState \<Rightarrow> 'w \<Rightarrow> (error list \<times> 'w) option" where
  "finishItem rt m (WTry x g) w =
     map_option (apfst errorList) (migrateOneItem_loop rt m (uNamespace x) (uName x) x g w)"
| "finishItem rt m (WPut x cur) w =
     (case try_put m (uNamespace x) cur w of
        ((g, err), w1) \<Rightarrow> map_option (apfst errorList) (loopAfter rt m x g err w1))"
| "finishItem rt m (WSend e) w = Some ([e], w)"
| "finishItem rt m ws w = Some ([], w)"

definition complete :: "'w Runtime \<Rightarrow> 'w migrator \<Rightarrow> 'w mlState \<Rightarrow> (error list \<times> 'w) option" where
  "complete rt m s =
     Option.bind (finishItem rt m (hd (mlWorkers s)) (mlWorld s)) (\<lambda>(es, w1).
       map_option (apfst (\<lambda>es'. mlErrors s @ es @ es')) (worker rt m (mlItems s) w1))"

lemma finishItem_WTry:
  "finishItem rt m (WTry x False) w = finishItem rt m (WPut x x) w"
  "get m (uNamespace x) (uName x) w = (Inr cur, w') \<Longrightarrow>
     finishItem rt m (WTry x True) w = finishItem rt m (WPut x cur) w'"
  "get m (uNamespace x) (uName x) w = (Inl e, w') \<Longrightarrow>
     finishItem rt m (WTry x True) w = map_option (apfst errorList) (loopAfter rt m x True (Some e) w')"
  by (simp_all add: migrateOneItem_loop_try try_migrate_def split: prod.splits)

lemma complete_afterTry:
  assumes "mlWorkers s = [ws]"
  shows "complete rt m (afterTry rt 0 x g err w s) =
    Option.bind (map_option (apfst errorList) (loopAfter rt m x g err w)) (\<lambda>(es, w1).
       map_option (apfst (\<lambda>es'. mlErrors s @ es @ es')) (worker rt m (mlItems s) w1))"
  using assms by (cases err) (auto simp: complete_def afterTry_def loopAfter_def errorList_def)

lemma complete_send:
  assumes "mlWorkers s = [WIdle]" and "mlItems s = x # xs"
  shows "complete rt m (setWorker 0 (WTry x False) (s\<lparr>mlItems := xs\<rparr>)) = complete rt m s"
proof (cases "migrateOneItem rt m x (mlWorld s)")
  case None
  with assms show ?thesis
    by (simp add: complete_def migrateOneItem_def accessorNamespace_def accessorName_def)
next
  case (Some y)
  moreover have "migrateOneItem_loop rt m (uNamespace x) (uName x) x False (mlWorld s) = Some y"
    using Some by (simp add: migrateOneItem_def accessorNamespace_def accessorName_def)
  ultimately show ?thesis using assms
    by (cases y) (auto simp: complete_def errorList_def map_option_case split: option.splits)
qed

lemma complete_step:
  assumes "mlStep rt m s s'" and "mlProtocol 1 s"
  shows "complete rt m s' = complete rt m s"
proof -
  obtain ws where ws: "mlWorkers s = [ws]" using assms(2) by (auto simp: mlProtocol_def length_Suc_conv)
  show ?thesis using assms(1)
  proof (cases rule: mlStep.cases)
    case (send x xs i)
    then show ?thesis using ws complete_send [of s x xs rt m] by simp
  next
    case (tryGet i x cur w')
    then show ?thesis using ws finishItem_WTry(2) [OF tryGet(4), of rt] by (simp add: complete_def)
  next
    case (tryGetErr i x err w')
    then show ?thesis using ws finishItem_WTry(3) [OF tryGetErr(4), of rt] complete_afterTry [OF ws, of rt m]
      by (simp add: complete_def)
  next
    case (tryPut i x cur g err w')
    then show ?thesis using ws finishItem_WTry(1) [of rt m x "mlWorld s"] complete_afterTry [OF ws, of rt m]
      by (auto simp: complete_def)
  next
    case cancelled
    then show ?thesis using assms(2) ws by (auto simp: mlProtocol_def)
  next
    case (abandon i err)
    then show ?thesis using busy_open [OF assms(2), of i] by simp
  next
    case (collect i err)
    then show ?thesis using ws by (simp add: complete_def)
  next
    case (drained i)
    then show ?thesis using ws by (simp add: complete_def)
  qed (simp_all add: complete_def)
qed

lemma complete_reachable:
  assumes "mlSteps rt m (mlInit l 1 w) s"
  shows "complete rt m s = worker rt m (ulItems l) w"
  using assms
proof (induction rule: rtranclp_induct)
  case base
  then show ?case
    by (cases "worker rt m (ulItems l) w") (auto simp: complete_def mlInit_def)
next
  case (step s s')
  then show ?case using complete_step [OF step(2) mlProtocol_reachable [OF step(1)]] by simp
qed

lemma one_worker_sound:
  assumes "mlSteps rt m (mlInit l 1 w) s" and "mlReturned s = Some r"
  shows "migrateList rt m l w = Some (r, mlWorld s)"
proof -
  have P: "mlProtocol 1 s" by (rule mlProtocol_reachable [OF assms(1)])
  then obtain ws where ws: "mlWorkers s = [ws]" by (auto simp: mlProtocol_def length_Suc_conv)
  then have "ws = WExit" "mlItems s = []" "r = NewAggregate (mlErrors s)"
    using P assms(2) by (auto simp: mlProtocol_def)
  moreover from this have "worker rt m (ulItems l) w = Some (mlErrors s, mlWorld s)"
    using complete_reachable [OF assms(1)] ws by (simp add: complete_def)
  ultimately show ?thesis by (simp add: migrateList_def)
qed

text \<open>Conversely, the single worker can run to the outcome of the sequential functions.\<close>

definition idleAt :: "error list \<Rightarrow> 'w \<Rightarrow> 'w mlState \<Rightarrow> 'w mlState" where
  "idleAt errs w s = s\<lparr>mlWorkers := [WIdle], mlErrors := mlErrors s @ errs, mlWorld := w\<rparr>"

abbreviation running :: "'w mlState \<Rightarrow> bool" where
  "running s \<equiv> \<not> mlErrcClosed s \<and> mlReturned s = None"

lemma run_sent:
  assumes "mlWorkers s = [WSend e]" and "running s"
  shows "mlSteps rt m s (idleAt [e] (mlWorld s) s)"
proof -
  have "mlStep rt m s (setWorker 0 WIdle (s\<lparr>mlErrors := mlErrors s @ [e]\<rparr>))"
    using assms by (intro mlStep.collect) auto
  moreover have "setWorker 0 WIdle (s\<lparr>mlErrors := mlErrors s @ [e]\<rparr>) = idleAt [e] (mlWorld s) s"
    using assms(1) by (simp add: setWorker_def idleAt_def)
  ultimately show ?thesis by simp
qed

lemma run_afterTry:
  assumes w: "mlWorkers s = [ws]" and run: "running s"
    and again: "\<And>w2 y. canRetry err \<Longrightarrow> w2 = sleepSuggested rt err w1 \<Longrightarrow> loopRes w2 = Some y \<Longrightarrow>
        mlSteps rt m (s\<lparr>mlWorkers := [WTry x g], mlWorld := w2\<rparr>) (idleAt (errorList (fst y)) (snd y) s)"
    and res: "(if err = None \<or> IsNotFound err then Some (None, w1)
               else if canRetry err then loopRes (sleepSuggested rt err w1) else Some (err, w1)) = Some y"
  shows "mlSteps rt m (afterTry rt 0 x g err w1 s) (idleAt (errorList (fst y)) (snd y) s)"
proof -
  consider (fine) "err = None \<or> IsNotFound err" | (retry) "err \<noteq> None" "\<not> IsNotFound err" "canRetry err"
    | (final) e where "err = Some e" "\<not> IsNotFound err" "\<not> canRetry err" by (cases err) auto
  then show ?thesis
  proof cases
    case fine
    then have "afterTry rt 0 x g err w1 s = idleAt (errorList (fst y)) (snd y) s"
      using res w by (auto simp: afterTry_def idleAt_def setWorker_def errorList_def)
    then show ?thesis by simp
  next
    case retry
    then have "afterTry rt 0 x g err w1 s = s\<lparr>mlWorkers := [WTry x g], mlWorld := sleepSuggested rt err w1\<rparr>"
      using w by (auto simp: afterTry_def setWorker_def)
    then show ?thesis using again [OF retry(3) refl] res retry by simp
  next
    case final
    let ?s1 = "s\<lparr>mlWorkers := [WSend e], mlWorld := w1\<rparr>"
    have a: "afterTry rt 0 x g err w1 s = ?s1" and y: "y = (err, w1)"
      using final w res by (auto simp: afterTry_def setWorker_def)
    have "mlSteps rt m ?s1 (idleAt [e] (mlWorld ?s1) ?s1)" by (rule run_sent) (use run in auto)
    moreover have "idleAt [e] (mlWorld ?s1) ?s1 = idleAt (errorList (fst y)) (snd y) s"
      using y final by (simp add: idleAt_def errorList_def)
    ultimately show ?thesis using a by simp
  qed
qed

lemma run_try:
  assumes w: "mlWorkers s = [WTry x g]" and run: "running s"
    and t: "try_migrate m (uNamespace x) (uName x) x g (mlWorld s) = ((g', err), w1)"
  shows "mlSteps rt m s (afterTry rt 0 x g' err w1 s)"
proof (cases g)
  case False
  then have "mlStep rt m s (afterTry rt 0 x g' err w1 s)"
    using w t by (intro mlStep.tryPut [of 0 s x x]) (auto simp: try_migrate_def)
  then show ?thesis by simp
next
  case True
  obtain r w2 where r: "get m (uNamespace x) (uName x) (mlWorld s) = (r, w2)" by (metis surj_pair)
  show ?thesis
  proof (cases r)
    case (Inl e)
    then have "mlStep rt m s (afterTry rt 0 x g' err w1 s)"
      using w t True r mlStep.tryGetErr [of 0 s x m e w2 rt] by (auto simp: try_migrate_def)
    then show ?thesis by simp
  next
    case (Inr cur)
    let ?s1 = "setWorker 0 (WPut x cur) (s\<lparr>mlWorld := w2\<rparr>)"
    have "mlStep rt m s ?s1" using w True r Inr by (intro mlStep.tryGet) auto
    moreover have "mlStep rt m ?s1 (afterTry rt 0 x g' err w1 ?s1)"
      using w t True r Inr by (intro mlStep.tryPut [of 0 ?s1 x cur]) (auto simp: try_migrate_def)
    moreover have "afterTry rt 0 x g' err w1 ?s1 = afterTry rt 0 x g' err w1 s"
      using w by (simp add: afterTry_def setWorker_def)
    ultimately show ?thesis by (metis converse_rtranclp_into_rtranclp r_into_rtranclp)
  qed
qed

lemma run_item:
  assumes "migrateOneItem_loop rt m (uNamespace x) (uName x) x g w = Some y"
    and "mlWorkers s = [WTry x g]" and "running s" and "mlWorld s = w"
  shows "mlSteps rt m s (idleAt (errorList (fst y)) (snd y) s)"
proof -
  let ?P = "\<lambda>rt' m' ns' n' x' g w y. rt' = rt \<longrightarrow> m' = m \<longrightarrow> x' = x \<longrightarrow> ns' = uNamespace x \<longrightarrow> n' = uName x \<longrightarrow>
      (\<forall>s. mlWorkers s = [WTry x g] \<longrightarrow> running s \<longrightarrow> mlWorld s = w \<longrightarrow>
           mlSteps rt m s (idleAt (errorList (fst y)) (snd y) s))"
  have "?P rt m (uNamespace x) (uName x) x g w y"
  proof (rule migrateOneItem_loop.raw_induct [of ?P, OF _ assms(1)], intro impI allI, goal_cases)
    case (1 loop rt' m' ns' n' x' g w y s)
    obtain g' err w1 where t: "try_migrate m (uNamespace x) (uName x) x g w = ((g', err), w1)"
      by (metis surj_pair)
    have "mlSteps rt m s (afterTry rt 0 x g' err w1 s)"
      by (rule run_try [OF 1(8,9)]) (use t 1(10) in simp)
    moreover have "mlSteps rt m (afterTry rt 0 x g' err w1 s) (idleAt (errorList (fst y)) (snd y) s)"
    proof (rule run_afterTry [OF 1(8,9), where loopRes = "loop rt m (uNamespace x) (uName x) x g'"])
      show "(if err = None \<or> IsNotFound err then Some (None, w1)
             else if canRetry err then loop rt m (uNamespace x) (uName x) x g' (sleepSuggested rt err w1)
             else Some (err, w1)) = Some y"
        using 1(2) t unfolding 1(3-7) by simp
      fix w2 y'
      assume "loop rt m (uNamespace x) (uName x) x g' w2 = Some y'"
      from 1(1) [OF this, rule_format, of "s\<lparr>mlWorkers := [WTry x g'], mlWorld := w2\<rparr>"] 1(9)
      show "mlSteps rt m (s\<lparr>mlWorkers := [WTry x g'], mlWorld := w2\<rparr>) (idleAt (errorList (fst y')) (snd y') s)"
        by (simp add: idleAt_def)
    qed
    ultimately show ?case by (rule rtranclp_trans)
  qed
  then show ?thesis using assms by simp
qed

lemma run_worker:
  assumes "worker rt m items (mlWorld s) = Some (errs, w')" and "mlItems s = items"
    and "mlWorkers s = [WIdle]" and "running s"
  shows "mlSteps rt m s (idleAt errs w' (s\<lparr>mlItems := []\<rparr>))"
  using assms
proof (induction items arbitrary: s errs)
  case Nil
  then have "idleAt errs w' (s\<lparr>mlItems := []\<rparr>) = s" by (simp add: idleAt_def)
  then show ?case by simp
next
  case (Cons x xs)
  obtain err w1 errs1 where x: "migrateOneItem_loop rt m (uNamespace x) (uName x) x False (mlWorld s) = Some (err, w1)"
      and xs: "worker rt m xs w1 = Some (errs1, w')" and e: "errs = errorList err @ errs1"
    using Cons.prems(1)
    by (auto simp: migrateOneItem_def accessorNamespace_def accessorName_def errorList_def split: option.splits)
  let ?s1 = "setWorker 0 (WTry x False) (s\<lparr>mlItems := xs\<rparr>)"
  let ?s2 = "idleAt (errorList err) w1 ?s1"
  have "mlStep rt m s ?s1" using Cons.prems by (intro mlStep.send) auto
  moreover have "mlSteps rt m ?s1 ?s2"
    using run_item [OF x, of ?s1] Cons.prems by simp
  moreover have "mlSteps rt m ?s2 (idleAt errs1 w' (?s2\<lparr>mlItems := []\<rparr>))"
    using Cons.IH [of ?s2 errs1] xs Cons.prems by (simp add: idleAt_def)
  moreover have "idleAt errs1 w' (?s2\<lparr>mlItems := []\<rparr>) = idleAt errs w' (s\<lparr>mlItems := []\<rparr>)"
    by (simp add: idleAt_def setWorker_def e)
  ultimately show ?case by (metis converse_rtranclp_into_rtranclp rtranclp_trans)
qed

lemma one_worker_complete:
  assumes "migrateList rt m l w = Some (r, w')"
  shows "\<exists>s. mlSteps rt m (mlInit l 1 w) s \<and> mlReturned s = Some r \<and> mlWorld s = w'"
proof -
  obtain errs where e: "worker rt m (ulItems l) w = Some (errs, w')" and r: "r = NewAggregate errs"
    using assms by (auto simp: migrateList_def split: option.splits)
  let ?s0 = "mlInit l 1 w"
  let ?s1 = "idleAt errs w' (?s0\<lparr>mlItems := []\<rparr>)"
  let ?s2 = "?s1\<lparr>mlClosed := True\<rparr>"
  let ?s3 = "setWorker 0 WExit ?s2"
  let ?s4 = "?s3\<lparr>mlErrcClosed := True\<rparr>"
  let ?s5 = "?s4\<lparr>mlReturned := Some (NewAggregate (mlErrors ?s4))\<rparr>"
  have "mlSteps rt m ?s0 ?s1" using run_worker [of rt m "ulItems l" ?s0 errs w'] e by (simp add: mlInit_def)
  moreover have "mlStep rt m ?s1 ?s2" by (rule mlStep.produced) (simp_all add: idleAt_def mlInit_def)
  moreover have "mlStep rt m ?s2 ?s3" by (rule mlStep.drained) (simp_all add: idleAt_def mlInit_def)
  moreover have "mlStep rt m ?s3 ?s4" by (rule mlStep.closeErrc) (simp_all add: idleAt_def mlInit_def)
  moreover have "mlStep rt m ?s4 ?s5" by (rule mlStep.return) (simp_all add: idleAt_def mlInit_def)
  ultimately have "mlSteps rt m ?s0 ?s5" by (meson rtranclp.rtrancl_into_rtrancl)
  moreover have "mlReturned ?s5 = Some r" "mlWorld ?s5 = w'" by (simp_all add: r idleAt_def mlInit_def)
  ultimately show ?thesis by blast
qed

subsection \<open>The properties of migrateList\<close>

text \<open>
  C7. The concurrent \<open>migrateList\<close> with one worker, as every migrator runs it, has exactly the
  outcomes of the sequential function: under every schedule of its goroutines it returns what
  the function returns and leaves the world as the function does, and it can return
  whenever the function does.
\<close>

theorem one_worker_refines:
  "(\<exists>s. mlSteps rt m (mlInit l 1 w) s \<and> mlReturned s = Some r \<and> mlWorld s = w')
     \<longleftrightarrow> migrateList rt m l w = Some (r, w')"
  using one_worker_sound [of rt m l w _ r] one_worker_complete [of rt m l w r w'] by auto

text \<open>
  C4. With any positive number of workers and under every schedule: when \<open>migrateList\<close> returns nil,
  no object of the chunk is stored in an old version any more.
\<close>

theorem migrateList_concurrent:
  assumes "migrator_env m saved valid rt stale remaining" and "valid w" and "0 < n"
    and steps: "mlSteps rt m (mlInit l n w) s" and ret: "mlReturned s = Some None"
  shows "keyOf ` set (ulItems l) \<inter> stale (mlWorld s) = {}"
proof -
  have P: "mlProtocol n s" by (rule mlProtocol_reachable [OF steps])
  have exited: "\<forall>ws \<in> set (mlWorkers s). ws = WExit" and "mlErrors s = []"
    using P ret NewAggregate_None [of "mlErrors s"] by (auto simp: mlProtocol_def)
  moreover have "mlWorkers s \<noteq> []" using P \<open>0 < n\<close> by (auto simp: mlProtocol_def)
  then have "WExit \<in> set (mlWorkers s)" using exited by (cases "mlWorkers s") auto
  then have "mlItems s = []" using P by (simp add: mlProtocol_def)
  ultimately show ?thesis using migrator_env.mlSound_reachable [OF assms(1) steps assms(2,3)]
    by (fastforce simp: mlSound_def covered_def)
qed

text \<open>A concrete run: the two example pods, one worker.\<close>

definition exampleList :: UnstructuredList where
  "exampleList = \<lparr>ulItems = filterByNamespace podsResource [] examplePods, ulContinue = []\<rparr>"

theorem migrateList_concurrent_witness:
  "\<exists>s. mlSteps clusterRuntime (clusterMigrator podsResource ''pods'') (mlInit exampleList 1 exampleCluster) s
     \<and> mlReturned s = Some None
     \<and> keyOf ` set (ulItems exampleList) \<inter> fd_stale podsResource (clDynamic (mlWorld s)) = {}"
proof -
  have "map_option fst (migrateList clusterRuntime (clusterMigrator podsResource ''pods'')
          exampleList exampleCluster) = Some None" by code_simp
  then obtain w' where "migrateList clusterRuntime (clusterMigrator podsResource ''pods'')
      exampleList exampleCluster = Some (None, w')" by auto
  from one_worker_complete [OF this] obtain s where
    s: "mlSteps clusterRuntime (clusterMigrator podsResource ''pods'') (mlInit exampleList 1 exampleCluster) s"
       "mlReturned s = Some None" by auto
  have "keyOf ` set (ulItems exampleList) \<inter> fd_stale podsResource (clDynamic (mlWorld s)) = {}"
    by (rule migrateList_concurrent [OF cluster_migrator.migrator_env_axioms exampleCluster_wf _ s]) simp
  with s show ?thesis by blast
qed

text \<open>
  C8. No schedule of the goroutines deadlocks: in every state that \<open>migrateList\<close> reaches before it
  returned, some goroutine can take a step, whatever the number of workers.
\<close>

theorem migrateList_no_deadlock:
  assumes "mlSteps rt m (mlInit l n w) s" and "mlReturned s = None"
  shows "\<exists>s'. mlStep rt m s s'"
  using mlStep_progress [OF mlProtocol_reachable [OF assms(1)] assms(2)] .

theorem migrateList_no_deadlock_witness:
  "\<exists>s'. mlStep clusterRuntime (clusterMigrator podsResource ''pods'') (mlInit exampleList 3 exampleCluster) s'"
  by (rule migrateList_no_deadlock [OF rtranclp.rtrancl_refl]) (simp add: mlInit_def)

end
