(* ===== verification/Conditions.thy ===== *)
theory Conditions
  imports Api_Types
begin

section \<open>Migration conditions and the index functions\<close>

text \<open>
  \<open>pkg/controller/helpers.go\<close> (\<open>HasCondition\<close>, \<open>indexOfCondition\<close>, \<open>resource\<close>) and the index
  functions of \<open>pkg/controller/indexer.go\<close>, by which the controllers sort the cached
  migrations: by status (Pending, Running, Completed) and by resource.
\<close>

subsection \<open>helpers.go\<close>

text \<open>The loop of \<open>indexOfCondition\<close>, from position \<open>i\<close> on.\<close>

fun indexOfCondition_from :: "int \<Rightarrow> MigrationCondition list \<Rightarrow> MigrationConditionType \<Rightarrow> int" where
  "indexOfCondition_from i [] conditionType = -1"
| "indexOfCondition_from i (c # cs) conditionType =
     (if mcType c = conditionType \<and> mcStatus c = ConditionTrue then i
      else indexOfCondition_from (i + 1) cs conditionType)"

definition indexOfCondition :: "StorageVersionMigration \<Rightarrow> MigrationConditionType \<Rightarrow> int" where
  "indexOfCondition m conditionType = indexOfCondition_from 0 (svmConditions m) conditionType"

definition HasCondition :: "StorageVersionMigration \<Rightarrow> MigrationConditionType \<Rightarrow> bool" where
  "HasCondition m conditionType = (indexOfCondition m conditionType \<noteq> -1)"

definition resource :: "StorageVersionMigration \<Rightarrow> SchemaGVR" where
  "resource m = \<lparr>sgvrGroup = gvrGroup (svmResource m), sgvrVersion = gvrVersion (svmResource m),
                 sgvrResource = gvrResource (svmResource m)\<rparr>"

lemma indexOfCondition_from_cases:
  "0 \<le> i \<Longrightarrow>
   (indexOfCondition_from i cs t = -1 \<and>
      (\<forall>c \<in> set cs. \<not> (mcType c = t \<and> mcStatus c = ConditionTrue)))
   \<or> (\<exists>k < length cs. indexOfCondition_from i cs t = i + int k
        \<and> mcType (cs ! k) = t \<and> mcStatus (cs ! k) = ConditionTrue
        \<and> (\<forall>j < k. \<not> (mcType (cs ! j) = t \<and> mcStatus (cs ! j) = ConditionTrue)))"
proof (induction cs arbitrary: i)
  case Nil
  then show ?case by simp
next
  case (Cons c cs)
  show ?case
  proof (cases "mcType c = t \<and> mcStatus c = ConditionTrue")
    case True
    then show ?thesis by (intro disjI2 exI [of _ 0]) simp
  next
    case False
    from Cons.prems have "0 \<le> i + 1" by simp
    from Cons.IH [OF this] show ?thesis
    proof (elim disjE exE conjE)
      assume "indexOfCondition_from (i + 1) cs t = -1"
        and "\<forall>c \<in> set cs. \<not> (mcType c = t \<and> mcStatus c = ConditionTrue)"
      with False show ?thesis by auto
    next
      fix k
      assume "k < length cs" "indexOfCondition_from (i + 1) cs t = i + 1 + int k"
        "mcType (cs ! k) = t" "mcStatus (cs ! k) = ConditionTrue"
        "\<forall>j < k. \<not> (mcType (cs ! j) = t \<and> mcStatus (cs ! j) = ConditionTrue)"
      with False show ?thesis
        by (intro disjI2 exI [of _ "Suc k"]) (auto simp: less_Suc_eq_0_disj)
    qed
  qed
qed

lemma HasCondition_iff:
  "HasCondition m t \<longleftrightarrow> (\<exists>c \<in> set (svmConditions m). mcType c = t \<and> mcStatus c = ConditionTrue)"
  using indexOfCondition_from_cases [of 0 "svmConditions m" t]
  by (fastforce simp: HasCondition_def indexOfCondition_def in_set_conv_nth)

definition completed :: "StorageVersionMigration \<Rightarrow> bool" where
  "completed m \<longleftrightarrow> HasCondition m MigrationSucceeded \<or> HasCondition m MigrationFailed"


subsection \<open>indexer.go: the index functions\<close>

text \<open>
  A value of type \<open>interface{}\<close> as it reaches the index functions and event handlers: a pointer to
  a StorageVersionMigration, a StorageState, the tombstone \<open>cache.DeletedFinalStateUnknown\<close>, or anything else
  (its type name).
\<close>

datatype goObject =
    GoSVM StorageVersionMigration
  | GoState StorageState
  | GoTombstone string goObject
  | GoOther string

definition StatusIndex :: string where "StatusIndex = ''Status''"
definition StatusRunning :: string where "StatusRunning = ''Running''"
definition StatusPending :: string where "StatusPending = ''Pending''"
definition StatusCompleted :: string where "StatusCompleted = ''Completed''"
definition ResourceIndex :: string where "ResourceIndex = ''Resource''"

lemmas index_name_defs =
  StatusIndex_def StatusRunning_def StatusPending_def StatusCompleted_def ResourceIndex_def

fun goTypeName :: "goObject \<Rightarrow> string" where
  "goTypeName (GoSVM m) = ''*v1alpha1.StorageVersionMigration''"
| "goTypeName (GoState s) = ''*v1alpha1.StorageState''"
| "goTypeName (GoTombstone k obj) = ''cache.DeletedFinalStateUnknown''"
| "goTypeName (GoOther t) = t"

fun migrationStatusIndexFunc :: "goObject \<Rightarrow> (string list, error) result" where
  "migrationStatusIndexFunc (GoSVM m) =
     (if HasCondition m MigrationSucceeded \<or> HasCondition m MigrationFailed
      then Inr [StatusCompleted]
      else if HasCondition m MigrationRunning then Inr [StatusRunning]
      else Inr [StatusPending])"
| "migrationStatusIndexFunc obj =
     Inl (ErrorString (''expected StroageVersionMigration, got '' @ goTypeName obj))"

definition ToIndex :: "GroupVersionResource \<Rightarrow> string" where
  "ToIndex r = gvrResource r @ ''.'' @ gvrGroup r"

fun migrationResourceIndexFunc :: "goObject \<Rightarrow> (string list, error) result" where
  "migrationResourceIndexFunc (GoSVM m) = Inr [ToIndex (svmResource m)]"
| "migrationResourceIndexFunc obj =
     Inl (ErrorString (''expected StroageVersionMigration, got '' @ goTypeName obj))"

abbreviation dot :: char where "dot \<equiv> CHR ''.''"


text \<open>
  C27. The resource index identifies the group and resource of a migration: for resource names
  without a dot (which Kubernetes requires of resource names), two migrations fall under the
  same index value exactly when they are about the same group and resource. The version is
  not part of it.
\<close>

theorem ToIndex_inject:
  assumes "dot \<notin> set (gvrResource r)" and "dot \<notin> set (gvrResource r')"
  shows "ToIndex r = ToIndex r' \<longleftrightarrow> gvrGroup r = gvrGroup r' \<and> gvrResource r = gvrResource r'"
  using join_sep_inject [OF assms] by (auto simp: ToIndex_def)

theorem ToIndex_inject_witness:
  "ToIndex \<lparr>gvrGroup = ''apps'', gvrVersion = ''v1'', gvrResource = ''deployments''\<rparr>
   = ToIndex \<lparr>gvrGroup = ''apps'', gvrVersion = ''v1beta1'', gvrResource = ''deployments''\<rparr>"
proof (rule ToIndex_inject [THEN iffD2])
  show "dot \<notin> set (gvrResource
    \<lparr>gvrGroup = ''apps'', gvrVersion = ''v1'', gvrResource = ''deployments''\<rparr>)" by simp
  show "dot \<notin> set (gvrResource
    \<lparr>gvrGroup = ''apps'', gvrVersion = ''v1beta1'', gvrResource = ''deployments''\<rparr>)" by simp
qed simp

end
