(* ===== verification/Kube_Migrator.thy ===== *)
theory Kube_Migrator
  imports Core_Correct Conditions
begin

section \<open>The migration controller\<close>

text \<open>
  \<open>pkg/controller/kubemigrator.go\<close>: the controller picks one migration at a time from its cache, marks
  it Running, runs the core migrator on its resource and records the outcome in the status.

  In \<open>updateStatus\<close>, \<open>return m, wait.ExponentialBackoff(...)\<close> reads the variable \<open>m\<close> and calls a closure
  that assigns to it; Go does not specify which comes first. The parameter \<open>late\<close> says whether
  \<open>m\<close> is read after the call; what is proved here holds for both. The closure also changes the
  object that \<open>m\<close> points to, so the object of the caller changes as long as \<open>m\<close> still points to
  it (\<open>usSame\<close>).
\<close>

subsection \<open>updateStatus\<close>

record usVars =
  usOrig :: StorageVersionMigration \<comment> \<open>the object the caller passed\<close>
  usCur :: StorageVersionMigration \<comment> \<open>the object \<open>m\<close> points to\<close>
  usSame :: bool

definition updateStatus_backoff :: Backoff where
  "updateStatus_backoff =
     \<lparr>bDuration = 10 * millisecond, bFactor = 5, bJitter = 1 / 10, bSteps = 6, bCap = 0\<rparr>"

definition knownCondition :: "MigrationConditionType \<Rightarrow> bool" where
  "knownCondition t \<longleftrightarrow> t = MigrationRunning \<or> t = MigrationSucceeded \<or> t = MigrationFailed"

fun keepUnknown :: "MigrationCondition list \<Rightarrow> MigrationCondition list" where
  "keepUnknown [] = []"
| "keepUnknown (c # cs) = (if knownCondition (mcType c) then keepUnknown cs else c # keepUnknown cs)"

definition newConditions ::
    "MigrationConditionType \<Rightarrow> string \<Rightarrow> Time \<Rightarrow> MigrationCondition list \<Rightarrow> MigrationCondition list" where
  "newConditions condition message now cs =
     keepUnknown cs @
     [\<lparr>mcType = condition, mcStatus = ConditionTrue, mcLastUpdateTime = now, mcReason = [],
       mcMessage = message\<rparr>]"

definition setConditions :: "MigrationCondition list \<Rightarrow> StorageVersionMigration \<Rightarrow> StorageVersionMigration" where
  "setConditions cs m = m\<lparr>svmStatus := (svmStatus m)\<lparr>smConditions := cs\<rparr>\<rparr>"

definition updateStatus_attempt ::
    "'w Runtime \<Rightarrow> 'w StorageVersionMigrationInterface \<Rightarrow> MigrationConditionType \<Rightarrow> string \<Rightarrow>
     (usVars, 'w) cond" where
  "updateStatus_attempt rt c condition message = (\<lambda>(v, w).
     let (now, w0) = rtNow rt w;
         m = setConditions (newConditions condition message now (svmConditions (usCur v))) (usCur v);
         v1 = v\<lparr>usCur := m, usOrig := (if usSame v then m else usOrig v)\<rparr>
     in case svmUpdateStatus c m w0 of
          (Inr m', w1) \<Rightarrow> ((True, None), (v1, w1))
        | (Inl err, w1) \<Rightarrow>
            (case svmGet c (svmName m) w1 of
               (Inr updated, w2) \<Rightarrow> ((False, None), (v1\<lparr>usCur := updated, usSame := False\<rparr>, w2))
             | (Inl err', w2) \<Rightarrow> ((False, None), (v1, w2))))"

definition updateStatus ::
    "bool \<Rightarrow> 'w Runtime \<Rightarrow> 'w StorageVersionMigrationInterface \<Rightarrow> StorageVersionMigration \<Rightarrow>
     MigrationConditionType \<Rightarrow> string \<Rightarrow> ('w, StorageVersionMigration \<times> error option) call" where
  "updateStatus late rt c m condition message w =
     (let (err, (v, w')) =
            ExponentialBackoff rt updateStatus_backoff (updateStatus_attempt rt c condition message)
              (\<lparr>usOrig = m, usCur = m, usSame = True\<rparr>, w)
      in ((if late then usCur v else usOrig v, err), w'))"

subsection \<open>processOne\<close>

record 'w KubeMigrator =
  kmDynamic :: "'w DynamicInterface"
  kmMigrationClient :: "'w StorageVersionMigrationInterface"
  kmIndexer :: "'w IndexerInterface"

text \<open>From the running migration on: run the core migrator and record the outcome.\<close>

definition processRunning ::
    "bool \<Rightarrow> 'w Runtime \<Rightarrow> 'w KubeMigrator \<Rightarrow> StorageVersionMigration \<Rightarrow> CoreMigratorMetrics \<Rightarrow> 'w \<Rightarrow>
     (error option \<times> CoreMigratorMetrics \<times> 'w) option" where
  "processRunning late rt km m mt w =
     (let c = kmMigrationClient km;
          core = NewMigrator (resource m) (kmDynamic km) (NewProgressTracker rt c (svmName m))
      in case Run rt core mt w of
           None \<Rightarrow> None
         | Some (None, mt1, w1) \<Rightarrow>
             (let (r, w2) = updateStatus late rt c m MigrationSucceeded [] w1
              in Some (None, ObserveSucceededMigration (SchemaGVR_String (resource m)) mt1, w2))
         | Some (Some err, mt1, w1) \<Rightarrow>
             (let (r, w2) = updateStatus late rt c m MigrationFailed (Error err) w1
              in Some (Some err, ObserveFailedMigration (SchemaGVR_String (resource m)) mt1, w2)))"

fun processOne ::
    "bool \<Rightarrow> 'w Runtime \<Rightarrow> 'w KubeMigrator \<Rightarrow> goObject \<Rightarrow> CoreMigratorMetrics \<Rightarrow> 'w \<Rightarrow>
     (error option \<times> CoreMigratorMetrics \<times> 'w) option" where
  "processOne late rt km (GoSVM m0) mt w =
     (case svmGet (kmMigrationClient km) (svmName m0) w of
        (Inl err, w1) \<Rightarrow> Some (Some err, mt, w1)
      | (Inr m, w1) \<Rightarrow>
          if HasCondition m MigrationSucceeded \<or> HasCondition m MigrationFailed then Some (None, mt, w1)
          else
            (case updateStatus late rt (kmMigrationClient km) m MigrationRunning [] w1 of
               ((m', Some err), w2) \<Rightarrow> Some (Some err, mt, w2)
             | ((m', None), w2) \<Rightarrow> processRunning late rt km m' mt w2))"
| "processOne late rt km obj mt w =
     Some (Some (ErrorString (''expected StorageVersionMigration, got '' @ goTypeName obj)), mt, w)"

subsection \<open>process and Run\<close>

text \<open>The migration that \<open>process\<close> picks: a running one first, then a pending one.\<close>

definition process ::
    "bool \<Rightarrow> 'w Runtime \<Rightarrow> 'w KubeMigrator \<Rightarrow> CoreMigratorMetrics \<Rightarrow> 'w \<Rightarrow>
     (CoreMigratorMetrics \<times> 'w) option" where
  "process late rt km mt w =
     (case ixByIndex (kmIndexer km) StatusIndex StatusRunning w of
        (Inl err, w1) \<Rightarrow> Some (mt, w1)
      | (Inr (r # rs), w1) \<Rightarrow> map_option snd (processOne late rt km (GoSVM r) mt w1)
      | (Inr [], w1) \<Rightarrow>
          (case ixByIndex (kmIndexer km) StatusIndex StatusPending w1 of
             (Inl err, w2) \<Rightarrow> Some (mt, w2)
           | (Inr (p # ps), w2) \<Rightarrow> map_option snd (processOne late rt km (GoSVM p) mt w2)
           | (Inr [], w2) \<Rightarrow> Some (mt, w2)))"

text \<open>
  \<open>Run\<close> calls \<open>process\<close> once a second until its context is cancelled: \<open>rounds\<close> is the number of rounds
  that happen before. When the cache cannot be synced, it returns at once.
\<close>

fun untilWithContext ::
    "bool \<Rightarrow> 'w Runtime \<Rightarrow> 'w KubeMigrator \<Rightarrow> nat \<Rightarrow> CoreMigratorMetrics \<Rightarrow> 'w \<Rightarrow>
     (CoreMigratorMetrics \<times> 'w) option" where
  "untilWithContext late rt km 0 mt w = Some (mt, w)"
| "untilWithContext late rt km (Suc rounds) mt w =
     (case process late rt km mt w of
        None \<Rightarrow> None
      | Some (mt1, w1) \<Rightarrow> untilWithContext late rt km rounds mt1 (rtSleep rt second w1))"

definition KubeMigrator_Run ::
    "bool \<Rightarrow> 'w Runtime \<Rightarrow> 'w KubeMigrator \<Rightarrow> bool \<Rightarrow> nat \<Rightarrow> CoreMigratorMetrics \<Rightarrow> 'w \<Rightarrow>
     (CoreMigratorMetrics \<times> 'w) option" where
  "KubeMigrator_Run late rt km synced rounds mt w =
     (if \<not> synced then Some (mt, w) else untilWithContext late rt km rounds mt w)"

subsection \<open>Conditions after updateStatus\<close>

lemma keepUnknown_filter: "keepUnknown cs = filter (\<lambda>c. \<not> knownCondition (mcType c)) cs"
  by (induction cs) auto

lemma keepUnknown_new [simp]:
  "knownCondition t \<Longrightarrow> keepUnknown (newConditions t msg now cs) = keepUnknown cs"
  by (simp add: newConditions_def keepUnknown_filter)

lemma setConditions_sel [simp]:
  "svmConditions (setConditions cs m) = cs" "svmMeta (setConditions cs m) = svmMeta m"
  "svmSpec (setConditions cs m) = svmSpec m"
  by (simp_all add: setConditions_def)

text \<open>The only true known condition is the one that was set.\<close>

lemma HasCondition_new:
  assumes "svmConditions m = newConditions t msg now cs" and "knownCondition t'"
  shows "HasCondition m t' \<longleftrightarrow> t' = t"
  using assms by (auto simp: HasCondition_iff newConditions_def keepUnknown_filter)

lemma knownCondition_types [simp]:
  "knownCondition MigrationRunning" "knownCondition MigrationSucceeded" "knownCondition MigrationFailed"
  by (simp_all add: knownCondition_def)

lemma HasCondition_after:
  assumes "svmStatus m' = svmStatus m \<or> (\<exists>msg now cs. svmConditions m' = newConditions t msg now cs)"
    and "knownCondition t'" and "t' \<noteq> t" and "\<not> HasCondition m t'"
  shows "\<not> HasCondition m' t'"
  using assms HasCondition_new [of m' t _ _ _ t'] by (auto simp: HasCondition_iff)

text \<open>
  What \<open>updateStatus\<close> may do to the migrations of the server: touch the named one only, keep its
  spec in a given set \<open>R\<close> and its unknown conditions \<open>U\<close>, and either leave its status or replace it
  by the new condition.
\<close>

definition same_mig ::
    "string \<Rightarrow> MigrationCondition list \<Rightarrow> StorageVersionMigrationSpec set \<Rightarrow> StorageVersionMigration \<Rightarrow> bool" where
  "same_mig n U R m \<longleftrightarrow> svmName m = n \<and> keepUnknown (svmConditions m) = U \<and> svmSpec m \<in> R"

definition status_frame ::
    "string \<Rightarrow> MigrationCondition list \<Rightarrow> StorageVersionMigrationSpec set \<Rightarrow> MigrationConditionType \<Rightarrow> string \<Rightarrow>
     (string \<rightharpoonup> StorageVersionMigration) \<Rightarrow> (string \<rightharpoonup> StorageVersionMigration) \<Rightarrow> bool" where
  "status_frame n U R t msg ms ms' \<longleftrightarrow>
     (\<forall>k. k \<noteq> n \<longrightarrow> ms' k = ms k) \<and> (ms' n = None \<longleftrightarrow> ms n = None) \<and>
     (\<forall>m'. ms' n = Some m' \<longrightarrow> same_mig n U R m' \<and>
        (map_option svmStatus (ms n) = Some (svmStatus m')
         \<or> (\<exists>now cs. svmConditions m' = newConditions t msg now cs \<and> keepUnknown cs = U)))"

definition status_set ::
    "string \<Rightarrow> MigrationCondition list \<Rightarrow> MigrationConditionType \<Rightarrow> string \<Rightarrow>
     (string \<rightharpoonup> StorageVersionMigration) \<Rightarrow> bool" where
  "status_set n U t msg ms \<longleftrightarrow>
     (\<exists>m' now cs. ms n = Some m' \<and> svmConditions m' = newConditions t msg now cs \<and> keepUnknown cs = U)"

lemma status_frame_put:
  assumes "status_frame n U R t msg ms0 ms" and "same_mig n U R m" and "knownCondition t"
    and "put_svm_status ms (setConditions (newConditions t msg now (svmConditions m)) m) ms'"
  shows "status_frame n U R t msg ms0 ms'" and "status_set n U t msg ms'"
proof -
  let ?m = "setConditions (newConditions t msg now (svmConditions m)) m"
  obtain old stored where o: "ms n = Some old" "ms' = ms(n \<mapsto> stored)" "svmName stored = n"
      "svmStatus stored = svmStatus ?m" "svmSpec stored \<in> {svmSpec m, svmSpec old}"
    using assms(2,4) by (auto simp: put_svm_status_def same_mig_def)
  have "same_mig n U R old" using assms(1) o(1) by (auto simp: status_frame_def)
  then have st: "same_mig n U R stored"
    using o assms(2,3) by (auto simp: same_mig_def)
  then show "status_frame n U R t msg ms0 ms'" and "status_set n U t msg ms'"
    using assms(1,2) o by (auto simp: status_frame_def status_set_def same_mig_def)
qed

context migration_env
begin

lemma updateStatus_attempt_spec:
  assumes known: "knownCondition t" and wf: "wf w"
    and fr: "status_frame n U R t msg ms0 (migs w)"
    and cur: "same_mig n U R (usCur v)" and orig: "same_mig n U R (usOrig v)"
    and run: "updateStatus_attempt rt c t msg (v, w) = ((ok, err), (v', w'))"
  shows "wf w' \<and> err = None \<and> status_frame n U R t msg ms0 (migs w') \<and> same_mig n U R (usCur v')
     \<and> same_mig n U R (usOrig v') \<and> (ok \<longrightarrow> status_set n U t msg (migs w'))"
proof -
  obtain now w0 where now: "rtNow rt w = (now, w0)" by (metis surj_pair)
  have w0: "wf w0" "migs w0 = migs w" using svm_now [OF wf] now by auto
  let ?m = "setConditions (newConditions t msg now (svmConditions (usCur v))) (usCur v)"
  have m: "same_mig n U R ?m" using cur known by (simp add: same_mig_def)
  obtain ur w1 where u: "svmUpdateStatus c ?m w0 = (ur, w1)" by (metis surj_pair)
  note put = status_frame_put [OF fr cur known, of now]
  show ?thesis
  proof (cases ur)
    case (Inr m')
    then have "wf w1" "put_svm_status (migs w) ?m (migs w1)"
      using svm_status_ok [OF w0(1)] u w0(2) by auto
    then show ?thesis using run now u Inr m orig put by (auto simp: updateStatus_attempt_def Let_def)
  next
    case (Inl e)
    then have w1: "wf w1" "migs w1 = migs w \<or> put_svm_status (migs w) ?m (migs w1)"
      using svm_status_err [OF w0(1)] u w0(2) by auto
    have fr1: "status_frame n U R t msg ms0 (migs w1)" using w1(2) put(1) fr by auto
    obtain gr w2 where g: "svmGet c (svmName ?m) w1 = (gr, w2)" by (metis surj_pair)
    show ?thesis
    proof (cases gr)
      case gr: (Inl e')
      then have "wf w2" "migs w2 = migs w1" using svm_get_err [OF w1(1)] g by auto
      then show ?thesis using run now u Inl g gr m orig fr1 by (auto simp: updateStatus_attempt_def Let_def)
    next
      case gr: (Inr up)
      then have "wf w2" "migs w2 = migs w1" "migs w1 (svmName ?m) = Some up"
        using svm_get_ok [OF w1(1)] g by auto
      moreover from this have "same_mig n U R up" using fr1 m by (auto simp: status_frame_def same_mig_def)
      ultimately show ?thesis using run now u Inl g gr m orig fr1
        by (auto simp: updateStatus_attempt_def Let_def)
    qed
  qed
qed

lemma updateStatus_spec:
  assumes known: "knownCondition t" and wf: "wf w" and m: "same_mig n U R m"
    and srv: "\<And>m0. migs w n = Some m0 \<Longrightarrow> same_mig n U R m0"
    and run: "updateStatus late rt c m t msg w = ((m', r), w')"
  shows "wf w' \<and> same_mig n U R m' \<and> status_frame n U R t msg (migs w) (migs w')
     \<and> (r = None \<longrightarrow> status_set n U t msg (migs w'))"
proof -
  let ?P = "\<lambda>(v, w1). wf w1 \<and> status_frame n U R t msg (migs w) (migs w1) \<and> same_mig n U R (usCur v)
              \<and> same_mig n U R (usOrig v)"
  let ?Q = "\<lambda>r (v, w1). ?P (v, w1) \<and> (r = None \<longrightarrow> status_set n U t msg (migs w1))"
  let ?s = "(\<lparr>usOrig = m, usCur = m, usSame = True\<rparr>, w)"
  obtain v where e: "ExponentialBackoff rt updateStatus_backoff (updateStatus_attempt rt c t msg) ?s = (r, (v, w'))"
      and m': "m' = (if late then usCur v else usOrig v)"
    using run by (auto simp: updateStatus_def split: prod.splits)
  have att: "?P s1 \<and> err = None \<and> (ok \<longrightarrow> ?Q None s1)"
    if "?P s" and "updateStatus_attempt rt c t msg s = ((ok, err), s1)" for s s1 ok err
    using that updateStatus_attempt_spec [OF known, of "snd s" n U R msg "migs w" "fst s" ok err "fst s1" "snd s1"]
    by (cases s, cases s1) auto
  have init: "?P ?s" using wf m srv by (auto simp: status_frame_def)
  have "?Q r (v, w')"
  proof (rule ExponentialBackoff_inv [where P = ?P and Q = ?Q and n = 5, OF _ _ init _ _ _ _ _ e])
    show "?P s1" if "?P s" and "updateStatus_attempt rt c t msg s = ((False, None), s1)" for s s1
      using att [OF that] by (rule conjunct1)
    show "?Q err s1" if "?P s" and "updateStatus_attempt rt c t msg s = ((ok, err), s1)" and "err \<noteq> None \<or> ok"
      for s ok err s1
      using att [OF that(1,2)] that(3) by blast
    show "?P (v, snd (rtRand rt w1))" if "?P (v, w1)" for v w1 using that svm_rand [of w1] by simp
    show "?P (v, rtSleep rt d w1)" if "?P (v, w1)" for v w1 d using that svm_sleep [of w1 d] by simp
    show "?Q (Some ErrWaitTimeout) s" if "?P s" for s using that by auto
  qed (simp_all add: updateStatus_backoff_def)
  then show ?thesis using m' by auto
qed

end

subsection \<open>The controller and the API server\<close>

text \<open>
  The contract for the whole controller: the migration client as in \<open>migration_env\<close>, the objects of
  every resource as in \<open>migrator_env\<close>. Calls on objects leave the migrations alone and no call
  makes an object stale.
\<close>

definition undisturbed ::
    "('w \<Rightarrow> bool) \<Rightarrow> ('w \<Rightarrow> string \<rightharpoonup> StorageVersionMigration) \<Rightarrow> (SchemaGVR \<Rightarrow> 'w \<Rightarrow> key set) \<Rightarrow>
     'w \<Rightarrow> 'w \<Rightarrow> bool" where
  "undisturbed valid migs stale w w' \<longleftrightarrow> valid w' \<and> migs w' = migs w \<and> (\<forall>g. stale g w' \<subseteq> stale g w)"

locale kube_env = migration_env +
  fixes dyn :: "'a DynamicInterface"
    and stale :: "SchemaGVR \<Rightarrow> 'a \<Rightarrow> key set" and remaining :: "SchemaGVR \<Rightarrow> string \<Rightarrow> key set"
  assumes k_get: "wf w \<Longrightarrow> dynGet dyn g ns n w = (r, w') \<Longrightarrow> undisturbed wf migs stale w w' \<and>
        (case r of Inr item \<Rightarrow> keyOf item = (ns, n)
         | Inl e \<Rightarrow> IsNotFound (Some e) \<longrightarrow> (ns, n) \<notin> stale g w')"
    and k_put: "wf w \<Longrightarrow> dynUpdate dyn g ns item w = (r, w') \<Longrightarrow> undisturbed wf migs stale w w' \<and>
        (keyOf item = (ns, n) \<longrightarrow>
           (case r of Inr item' \<Rightarrow> (ns, n) \<notin> stale g w'
            | Inl e \<Rightarrow> IsNotFound (Some e) \<longrightarrow> (ns, n) \<notin> stale g w'))"
    and k_list: "wf w \<Longrightarrow> dynList dyn g NamespaceAll opts w = (rl, w') \<Longrightarrow> undisturbed wf migs stale w w' \<and>
        (case rl of
           Inr l \<Rightarrow> stale g w' \<inter> remaining g (loContinue opts) \<subseteq>
                      keyOf ` set (ulItems l) \<union> (if ulContinue l = [] then {} else remaining g (ulContinue l))
         | Inl e \<Rightarrow> IsResourceExpired (Some e) \<longrightarrow>
                      (\<forall>t. inconsistentContinueToken e = Inr t \<longrightarrow>
                           remaining g (loContinue opts) \<subseteq> remaining g t))"
    and k_sleep: "wf w \<Longrightarrow> stale g (rtSleep rt d w) \<subseteq> stale g w"
    and k_rand: "wf w \<Longrightarrow> stale g (snd (rtRand rt w)) \<subseteq> stale g w"
    and k_now: "wf w \<Longrightarrow> stale g (snd (rtNow rt w)) \<subseteq> stale g w"
    and k_svmGet: "wf w \<Longrightarrow> stale g (snd (svmGet c n w)) \<subseteq> stale g w"
    and k_svmUpdate: "wf w \<Longrightarrow> stale g (snd (svmUpdate c m w)) \<subseteq> stale g w"
    and k_svmStatus: "wf w \<Longrightarrow> stale g (snd (svmUpdateStatus c m w)) \<subseteq> stale g w"
begin

lemma save_attempt_stale:
  assumes "wf w" and "save_attempt \<lparr>ptClient = c, ptName = n\<rparr> t (v, w) = (r, (v', w'))"
  shows "stale g w' \<subseteq> stale g w"
proof -
  obtain gr w1 where g: "svmGet c n w = (gr, w1)" by (metis surj_pair)
  have s1: "stale g w1 \<subseteq> stale g w" using k_svmGet [OF assms(1), of g n] g by simp
  show ?thesis
  proof (cases gr)
    case (Inl e)
    then show ?thesis using assms(2) g s1 by (simp add: save_attempt_def)
  next
    case (Inr m)
    then have "wf w1" using svm_get_ok [OF assms(1)] g by blast
    then show ?thesis using assms(2) g s1 Inr k_svmUpdate [of w1 g "setContinueToken t m"]
      by (auto simp: save_attempt_def split: prod.splits sum.splits)
  qed
qed

lemma save_stale_k:
  assumes "wf w"
  shows "stale g (snd (save rt \<lparr>ptClient = c, ptName = n\<rparr> t w)) \<subseteq> stale g w"
proof -
  let ?p = "\<lparr>ptClient = c, ptName = n\<rparr>"
  let ?P = "\<lambda>(v :: unit, w'). wf w' \<and> stale g w' \<subseteq> stale g w"
  obtain r s' where run: "OnError rt DefaultRetry IsConflict (save_attempt ?p t) ((), w) = (r, s')"
    by (metis surj_pair)
  have att: "?P s1 \<and> (\<forall>e. r1 = Some e \<longrightarrow> e \<noteq> ErrWaitTimeout)"
    if P: "?P s" and a: "save_attempt ?p t s = (r1, s1)" for s s1 r1
  proof -
    obtain w1 w2 where s: "s = ((), w1)" "s1 = ((), w2)" by (cases s, cases s1) auto
    then have "wf w1" using P by simp
    then show ?thesis
      using P a s save_attempt_spec [of w1 n t r1 "()" w2] save_attempt_stale [of w1 n t "()" r1 "()" w2 g]
        save_attempt_no_timeout [of w1 n t "()" _ s1] by auto
  qed
  have "case r of None \<Rightarrow> ?P s' | Some e \<Rightarrow> ?P s'"
  proof (rule OnError_inv [where b = DefaultRetry and n = 4 and P = ?P and S = ?P, OF _ _ _ _ _ _ _ run])
    show "?P (v, snd (rtRand rt w1))" if "?P (v, w1)" for v w1
      using that svm_rand [of w1] k_rand [of w1 g] by auto
    show "?P (v, rtSleep rt d w1)" if "?P (v, w1)" for v w1 d
      using that svm_sleep [of w1 d] k_sleep [of w1 g d] by auto
    show "?P s1" if "?P s" and "save_attempt ?p t s = (None, s1)" for s s1
      using att [OF that] by (rule conjunct1)
    show "?P s1 \<and> e \<noteq> ErrWaitTimeout" if "?P s" and "save_attempt ?p t s = (Some e, s1)" for s s1 e
      using att [OF that] by simp
  qed (use assms in auto)
  then show ?thesis using run by (auto simp: save_def RetryOnConflict_def split: option.splits prod.splits)
qed

lemma load_stale_k: "wf w \<Longrightarrow> stale g (snd (load \<lparr>ptClient = c, ptName = n\<rparr> w)) \<subseteq> stale g w"
  using k_svmGet [of w g n] by (auto simp: load_def split: prod.splits sum.splits)

end

text \<open>The controller's contract gives the core migrator's, for every resource and migration.\<close>

sublocale kube_env \<subseteq> core: migrator_env "NewMigrator g dyn (NewProgressTracker rt c n)"
    "savedToken migs n" wf rt "stale g" "remaining g" for g n
proof (unfold_locales, goal_cases)
  case (1 w t w') then show ?case using tracker.load_ok [of w n t w'] by (simp add: NewMigrator_def)
next
  case (2 w e w') then show ?case using tracker.load_err [of w n e w'] by (simp add: NewMigrator_def)
next
  case (3 w t w') then show ?case using tracker.save_ok [of w n t w'] by (simp add: NewMigrator_def)
next
  case (4 w t e w') then show ?case using tracker.save_err [of w n t e w'] by (simp add: NewMigrator_def)
next
  case (5 w ns nm r w') then show ?case using k_get [of w g ns nm r w']
    by (auto simp: get_def NewMigrator_def undisturbed_def calm_def savedToken_def)
next
  case (6 w ns item r w' nm) then show ?case using k_put [of w g ns item r w' nm]
    by (auto simp: put_def NewMigrator_def undisturbed_def calm_def savedToken_def)
next
  case (7 w opts rl w') then show ?case using k_list [of w g opts rl w']
    by (auto simp: list_def NewMigrator_def undisturbed_def calm_def savedToken_def)
next
  case (8 w d) then show ?case using svm_sleep [of w d] k_sleep [of w g d]
    by (auto simp: calm_def savedToken_def)
next
  case (9 w) then show ?case using load_stale_k [of w g n]
    by (simp add: NewMigrator_def NewProgressTracker_def Let_def)
next
  case (10 w t) then show ?case using save_stale_k [of w g n t]
    by (simp add: NewMigrator_def NewProgressTracker_def Let_def)
qed

text \<open>What a run of the core migrator does to the migrations: the token of its own one may change.\<close>

definition token_frame ::
    "string \<Rightarrow> (string \<rightharpoonup> StorageVersionMigration) \<Rightarrow> (string \<rightharpoonup> StorageVersionMigration) \<Rightarrow> bool" where
  "token_frame n ms ms' \<longleftrightarrow>
     (\<forall>k. k \<noteq> n \<longrightarrow> ms' k = ms k) \<and> (ms' n = None \<longleftrightarrow> ms n = None) \<and>
     (\<forall>m m'. ms n = Some m \<and> ms' n = Some m' \<longrightarrow>
        svmName m' = svmName m \<and> svmStatus m' = svmStatus m \<and> svmResource m' = svmResource m)"

lemma token_frame_refl [simp]: "token_frame n ms ms"
  by (auto simp: token_frame_def)

lemma token_frame_set:
  assumes "token_frame n ms ms1" and "token_set n t ms1 ms'"
  shows "token_frame n ms ms'"
proof -
  obtain old stored where o: "ms1 n = Some old" "ms' = ms1(n \<mapsto> stored)" "svmName stored = svmName old"
      "svmResource stored = svmResource old" "svmStatus stored = svmStatus old"
    using assms(2) by (auto simp: token_set_def)
  then show ?thesis using assms(1) by (simp add: token_frame_def)
qed

context kube_env
begin

abbreviation theCore :: "SchemaGVR \<Rightarrow> string \<Rightarrow> 'a migrator" where
  "theCore g n \<equiv> NewMigrator g dyn (NewProgressTracker rt c n)"

lemma Run_migs:
  assumes wf: "wf w" and run: "Run rt (theCore g n) mt w = Some (r, mt', w')"
  shows "wf w' \<and> token_frame n (migs w) (migs w') \<and> migration mt' = migration mt"
proof -
  let ?P = "\<lambda>w'. wf w' \<and> token_frame n (migs w) (migs w')"
  have "?P w' \<and> migration mt' = migration mt"
  proof (rule Run_inv [OF run, of ?P])
    show "?P w" using wf by simp
    show "?P (snd (get (theCore g n) ns nm w1))" if "?P w1" for ns nm w1
      using that k_get [of w1 g ns nm] by (cases "dynGet dyn g ns nm w1")
        (auto simp: get_def NewMigrator_def undisturbed_def)
    show "?P (snd (put (theCore g n) ns u w1))" if "?P w1" for ns u w1
      using that k_put [of w1 g ns u] by (cases "dynUpdate dyn g ns u w1")
        (auto simp: put_def NewMigrator_def undisturbed_def)
    show "?P (snd (list (theCore g n) opts w1))" if "?P w1" for opts w1
      using that k_list [of w1 g opts] by (cases "dynList dyn g NamespaceAll opts w1")
        (auto simp: list_def NewMigrator_def undisturbed_def)
    show "?P (rtSleep rt d w1)" if "?P w1" for d w1 using that svm_sleep [of w1 d] by simp
    show "?P (snd (piLoad (mgProgress (theCore g n)) w1))" if "?P w1" for w1
      using that load_spec [of w1 n] by (cases "load \<lparr>ptClient = c, ptName = n\<rparr> w1")
        (auto simp: NewMigrator_def NewProgressTracker_def Let_def)
    show "?P (snd (piSave (mgProgress (theCore g n)) t w1))" if "?P w1" for t w1
      using that save_spec [of w1 n t] token_frame_set [of n "migs w" "migs w1" t]
      by (cases "save rt \<lparr>ptClient = c, ptName = n\<rparr> t w1")
        (auto simp: NewMigrator_def NewProgressTracker_def Let_def split: option.splits)
  qed
  then show ?thesis by simp
qed

lemma updateStatus_attempt_stale:
  assumes "wf w" and "updateStatus_attempt rt c t msg (v, w) = ((ok, err), (v', w'))"
  shows "wf w' \<and> stale g w' \<subseteq> stale g w"
proof -
  obtain now w0 where now: "rtNow rt w = (now, w0)" by (metis surj_pair)
  have w0: "wf w0" "stale g w0 \<subseteq> stale g w" using svm_now [OF assms(1)] k_now [OF assms(1), of g] now by auto
  let ?m = "setConditions (newConditions t msg now (svmConditions (usCur v))) (usCur v)"
  obtain ur w1 where u: "svmUpdateStatus c ?m w0 = (ur, w1)" by (metis surj_pair)
  have w1: "wf w1" "stale g w1 \<subseteq> stale g w0"
    using svm_status_ok [OF w0(1)] svm_status_err [OF w0(1)] k_svmStatus [OF w0(1), of g ?m] u
    by (cases ur; auto)+
  obtain gr w2 where gr: "svmGet c (svmName ?m) w1 = (gr, w2)" by (metis surj_pair)
  have w2: "wf w2" "stale g w2 \<subseteq> stale g w1"
    using svm_get_ok [OF w1(1)] svm_get_err [OF w1(1)] k_svmGet [OF w1(1), of g "svmName ?m"] gr
    by (cases gr; auto)+
  have "w' = w1 \<or> w' = w2"
    using assms(2) now u gr by (auto simp: updateStatus_attempt_def Let_def split: sum.splits)
  then show ?thesis using w0 w1 w2 by auto
qed

lemma updateStatus_stale:
  assumes wf: "wf w" and run: "updateStatus late rt c m t msg w = (r, w')"
  shows "stale g w' \<subseteq> stale g w"
proof -
  let ?P = "\<lambda>(v :: usVars, w1). wf w1 \<and> stale g w1 \<subseteq> stale g w"
  let ?s = "(\<lparr>usOrig = m, usCur = m, usSame = True\<rparr>, w)"
  obtain e v where e: "ExponentialBackoff rt updateStatus_backoff (updateStatus_attempt rt c t msg) ?s = (e, (v, w'))"
    using run by (auto simp: updateStatus_def split: prod.splits)
  have att: "?P s1" if "?P s" and "updateStatus_attempt rt c t msg s = ((ok, err), s1)" for s s1 ok err
    using that updateStatus_attempt_stale [of "snd s" t msg "fst s" ok err "fst s1" "snd s1" g]
    by (cases s, cases s1) auto
  have init: "?P ?s" using wf by simp
  have "?P (v, w')"
  proof (rule ExponentialBackoff_inv [where P = ?P and Q = "\<lambda>_. ?P" and n = 5, OF _ _ init _ _ _ _ _ e])
    show "?P s1" if "?P s" and "updateStatus_attempt rt c t msg s = ((False, None), s1)" for s s1
      by (rule att [OF that])
    show "?P s1" if "?P s" and "updateStatus_attempt rt c t msg s = ((ok, err), s1)" and "err \<noteq> None \<or> ok"
      for s ok err s1 by (rule att [OF that(1,2)])
    show "?P (v, snd (rtRand rt w1))" if "?P (v, w1)" for v w1
      using that svm_rand [of w1] k_rand [of w1 g] by auto
    show "?P (v, rtSleep rt d w1)" if "?P (v, w1)" for v w1 d
      using that svm_sleep [of w1 d] k_sleep [of w1 g d] by auto
  qed (simp_all add: updateStatus_backoff_def)
  then show ?thesis by simp
qed

lemma after_Run:
  assumes wf: "wf w" and run: "Run rt (theCore g n) mt w = Some (r, mt', w1)"
    and m1: "migs w n = Some m1" and t: "knownCondition t"
    and m: "same_mig n U {S. specResource S = R} m" "same_mig n U {S. specResource S = R} m1"
    and upd: "updateStatus late rt c m t msg w1 = (x, w')"
  shows "wf w' \<and> (\<forall>k. k \<noteq> n \<longrightarrow> migs w' k = migs w k) \<and>
    (\<exists>m'. migs w' n = Some m' \<and> same_mig n U {S. specResource S = R} m' \<and>
       (svmStatus m' = svmStatus m1 \<or> (\<exists>now cs. svmConditions m' = newConditions t msg now cs)))
    \<and> (\<forall>g. stale g w' \<subseteq> stale g w1)"
proof -
  have fr: "wf w1" "token_frame n (migs w) (migs w1)" using Run_migs [OF wf run] by auto
  then obtain m2 where m2: "migs w1 n = Some m2" "svmStatus m2 = svmStatus m1"
      "svmResource m2 = svmResource m1" "svmName m2 = svmName m1"
    using m1 by (auto simp: token_frame_def)
  then have s2: "same_mig n U {S. specResource S = R} m2" using m(2) by (simp add: same_mig_def)
  obtain m' e where x: "x = (m', e)" by (cases x)
  have up: "wf w'" "status_frame n U {S. specResource S = R} t msg (migs w1) (migs w')"
    using updateStatus_spec [OF t fr(1) m(1) _ upd [unfolded x]] m2(1) s2 by auto
  then obtain m3 where m3: "migs w' n = Some m3" using m2(1) by (auto simp: status_frame_def)
  then have "same_mig n U {S. specResource S = R} m3"
      "svmStatus m3 = svmStatus m1 \<or> (\<exists>now cs. svmConditions m3 = newConditions t msg now cs)"
    using up(2) m2 by (auto simp: status_frame_def)
  moreover have "\<forall>k. k \<noteq> n \<longrightarrow> migs w' k = migs w k"
    using up(2) fr(2) by (simp add: status_frame_def token_frame_def)
  ultimately show ?thesis using up(1) m3 updateStatus_stale [OF fr(1) upd] by auto
qed

lemma processRunning_spec:
  assumes wf: "wf w" and km: "kmDynamic km = dyn" "kmMigrationClient km = c"
    and m1: "migs w n = Some m1"
    and m: "same_mig n U {S. specResource S = R} m" "same_mig n U {S. specResource S = R} m1"
    and run: "processRunning late rt km m mt w = Some (r, mt', w')"
  shows "wf w' \<and> (\<forall>k. k \<noteq> n \<longrightarrow> migs w' k = migs w k) \<and>
    (\<exists>m'. migs w' n = Some m' \<and> same_mig n U {S. specResource S = R} m' \<and>
       (svmStatus m' = svmStatus m1 \<or> (\<exists>msg now cs. svmConditions m' =
          newConditions (if r = None then MigrationSucceeded else MigrationFailed) msg now cs)))
    \<and> (r = None \<longrightarrow> stale (resource m) w' \<inter> remaining (resource m) (specContinueToken (svmSpec m1)) = {})"
proof -
  let ?g = "resource m"
  have n: "svmName m = n" using m(1) by (simp add: same_mig_def)
  obtain r0 mt1 w1 where R: "Run rt (theCore ?g n) mt w = Some (r0, mt1, w1)"
    using run km n by (auto simp: processRunning_def Let_def split: option.splits)
  have tok: "savedToken migs n w = Some (specContinueToken (svmSpec m1))" using m1 by (simp add: savedToken_def)
  have st: "r0 = None \<Longrightarrow> stale ?g w1 \<inter> remaining ?g (specContinueToken (svmSpec m1)) = {}"
    using core.Run_spec [OF R wf tok] by (simp add: run_post_def)
  show ?thesis
  proof (cases r0)
    case None
    obtain x w2 where u: "updateStatus late rt c m MigrationSucceeded [] w1 = (x, w2)" by (metis surj_pair)
    have "r = None" "w' = w2" using run R None u km n by (auto simp: processRunning_def Let_def)
    then show ?thesis
      using after_Run [OF wf R m1 _ m u] st None by (fastforce simp: knownCondition_def)
  next
    case (Some e)
    obtain x w2 where u: "updateStatus late rt c m MigrationFailed (Error e) w1 = (x, w2)" by (metis surj_pair)
    have "r = Some e" "w' = w2" using run R Some u km n by (auto simp: processRunning_def Let_def)
    then show ?thesis
      using after_Run [OF wf R m1 _ m u] by (fastforce simp: knownCondition_def)
  qed
qed

text \<open>The whole of \<open>processOne\<close> on a migration that the server holds.\<close>

lemma processOne_spec:
  assumes wf: "wf w" and km: "kmDynamic km = dyn" "kmMigrationClient km = c"
    and srv: "migs w (svmName obj) = Some m"
    and run: "processOne late rt km (GoSVM obj) mt w = Some (r, mt', w')"
  shows "wf w' \<and> (\<forall>k. k \<noteq> svmName obj \<longrightarrow> migs w' k = migs w k) \<and>
    (\<exists>m'. migs w' (svmName obj) = Some m' \<and> svmResource m' = svmResource m
       \<and> keepUnknown (svmConditions m') = keepUnknown (svmConditions m)
       \<and> (completed m \<longrightarrow> m' = m)
       \<and> (\<not> completed m \<and> HasCondition m' MigrationSucceeded \<longrightarrow> r = None \<and>
            stale (resource m) w' \<inter> remaining (resource m) (specContinueToken (svmSpec m)) = {})
       \<and> (\<not> completed m \<and> HasCondition m' MigrationFailed \<longrightarrow> r \<noteq> None))"
proof -
  let ?n = "svmName obj"
  let ?U = "keepUnknown (svmConditions m)"
  obtain gr w1 where g: "svmGet c ?n w = (gr, w1)" by (metis surj_pair)
  show ?thesis
  proof (cases gr)
    case (Inl e)
    then show ?thesis using run km g svm_get_err [OF wf] srv by (auto simp: completed_def)
  next
    case (Inr m0)
    then have m0: "wf w1" "m0 = m" "svmName m = ?n" "migs w1 = migs w"
      using svm_get_ok [OF wf] g srv by auto
    show ?thesis
    proof (cases "completed m")
      case True
      then show ?thesis using run km g Inr m0 srv by (auto simp: completed_def)
    next
      case False
      obtain m1 e w2 where u: "updateStatus late rt c m MigrationRunning [] w1 = ((m1, e), w2)"
        by (metis surj_pair)
      have same: "same_mig ?n ?U {svmSpec m} m" using m0 by (simp add: same_mig_def)
      have up: "wf w2" "same_mig ?n ?U {svmSpec m} m1"
          "status_frame ?n ?U {svmSpec m} MigrationRunning [] (migs w) (migs w2)"
          "e = None \<Longrightarrow> status_set ?n ?U MigrationRunning [] (migs w2)"
        using updateStatus_spec [OF _ m0(1) same _ u] srv same m0(4) by (auto simp: knownCondition_def)
      obtain m2 where m2: "migs w2 ?n = Some m2" using up(3) srv by (auto simp: status_frame_def)
      then have s2: "same_mig ?n ?U {svmSpec m} m2"
          "svmStatus m2 = svmStatus m \<or> (\<exists>now cs. svmConditions m2 = newConditions MigrationRunning [] now cs)"
        using up(3) srv by (auto simp: status_frame_def)
      have open2: "\<not> HasCondition m2 MigrationSucceeded" "\<not> HasCondition m2 MigrationFailed"
      proof -
        have "svmStatus m2 = svmStatus m \<or> (\<exists>msg now cs. svmConditions m2 = newConditions MigrationRunning msg now cs)"
          using s2(2) by blast
        from HasCondition_after [OF this] False
        show "\<not> HasCondition m2 MigrationSucceeded" "\<not> HasCondition m2 MigrationFailed"
          by (auto simp: completed_def)
      qed
      have others: "\<forall>k. k \<noteq> ?n \<longrightarrow> migs w2 k = migs w k" using up(3) by (simp add: status_frame_def)
      show ?thesis
      proof (cases e)
        case (Some e')
        then have "w' = w2" using run km g Inr m0(2) False u by (auto simp: completed_def)
        then show ?thesis using up(1) m2 s2(1) open2 others False by (auto simp: same_mig_def)
      next
        case None
        let ?R = "svmResource m"
        have pr: "processRunning late rt km m1 mt w2 = Some (r, mt', w')"
          using run km g Inr m0(2) False u None by (auto simp: completed_def)
        have wide: "same_mig ?n ?U {S. specResource S = ?R} m1" "same_mig ?n ?U {S. specResource S = ?R} m2"
          using up(2) s2(1) by (auto simp: same_mig_def)
        have res: "resource m1 = resource m" using up(2) by (simp add: resource_def same_mig_def)
        have tok: "specContinueToken (svmSpec m2) = specContinueToken (svmSpec m)"
          using s2(1) by (simp add: same_mig_def)
        note P = processRunning_spec [OF up(1) km m2 wide pr, unfolded res tok]
        then obtain m' where m': "migs w' ?n = Some m'" "same_mig ?n ?U {S. specResource S = ?R} m'"
            "svmStatus m' = svmStatus m2 \<or> (\<exists>msg now cs. svmConditions m' =
               newConditions (if r = None then MigrationSucceeded else MigrationFailed) msg now cs)" by blast
        have "HasCondition m' MigrationSucceeded \<Longrightarrow> r = None" "HasCondition m' MigrationFailed \<Longrightarrow> r \<noteq> None"
          using open2 HasCondition_after [OF m'(3), of MigrationSucceeded]
            HasCondition_after [OF m'(3), of MigrationFailed] by (cases r; auto)+
        with P m' others False show ?thesis by (auto simp: same_mig_def)
      qed
    qed
  qed
qed

end

subsection \<open>The contract holds for the fake clients\<close>

interpretation cluster_kube: kube_env clusterMigrations cluster_migs cluster_wf clusterRuntime
    clusterDynamic "\<lambda>g w. fd_stale g (clDynamic w)" "\<lambda>g t. UNIV"
proof (unfold_locales, goal_cases)
  case (1 w g ns n r w')
  then obtain d' where d: "fdGet g ns n (clDynamic w) = (r, d')" "w' = w\<lparr>clDynamic := d'\<rparr>"
    by (auto simp: clusterDynamic_def onDynamic_eq)
  have "\<forall>g'. fd_stale g' d' \<subseteq> fd_stale g' (clDynamic w)"
    using d(1) fd_stale_record by (auto simp: fdGet_def)
  then show ?case using 1 d fdGet_spec [of "clDynamic w" g ns n r d']
    by (auto simp: cluster_wf_def cluster_migs_def undisturbed_def keyOf_def split: sum.splits)
next
  case (2 w g ns item r w' n)
  then obtain d' where d: "fdUpdate g ns item (clDynamic w) = (r, d')" "w' = w\<lparr>clDynamic := d'\<rparr>"
    by (auto simp: clusterDynamic_def onDynamic_eq)
  have wf: "fd_wf (clDynamic w)" using 2 by (simp add: cluster_wf_def)
  have "fd_wf d' \<and> (\<forall>g'. fd_stale g' d' \<subseteq> fd_stale g' (clDynamic w))"
    by (rule fdUpdate_frame [OF wf d(1)])
  then show ?case using 2 d fdUpdate_spec [OF wf d(1)]
    by (auto simp: cluster_wf_def cluster_migs_def undisturbed_def keyOf_def split: sum.splits)
next
  case (3 w g opts rl w')
  then obtain d' where d: "fdList g [] opts (clDynamic w) = (rl, d')" "w' = w\<lparr>clDynamic := d'\<rparr>"
    by (auto simp: clusterDynamic_def onDynamic_eq NamespaceAll_def)
  have "\<forall>g'. fd_stale g' d' \<subseteq> fd_stale g' (clDynamic w)"
    using d(1) fd_stale_record by (auto simp: fdList_def)
  then show ?case using 3 d fdList_spec [of "clDynamic w" g opts rl d']
    by (auto simp: cluster_wf_def cluster_migs_def undisturbed_def keyOf_def [abs_def])
qed (auto simp: clusterRuntime_def clusterMigrations_def onTyped_def split: prod.splits)

subsection \<open>The properties of the controller\<close>

abbreviation clusterKube :: "FakeCluster KubeMigrator" where
  "clusterKube \<equiv> \<lparr>kmDynamic = clusterDynamic, kmMigrationClient = clusterMigrations,
                  kmIndexer = \<lparr>ixByIndex = (\<lambda>i v w. (Inr [], w))\<rparr>\<rparr>"

lemma exampleCluster_mig: "cluster_migs exampleCluster (svmName exampleMigration) = Some exampleMigration"
proof -
  have "tGet storageversionmigrationsResource [] ''pods'' (fcTracker exampleWorld) = Inr (TSVM exampleMigration)"
    by code_simp
  then show ?thesis using exampleWorld_wf fake_migs_Some [of exampleWorld "''pods''" exampleMigration]
    by (simp add: tGet_view cluster_migs_def exampleCluster_def exampleMigration_def zeroObjectMeta_def
        split: option.splits)
qed





end
