(* ===== verification/Trigger_Migration.thy ===== *)
theory Trigger_Migration
  imports Fake_Clientset Conditions
begin

section \<open>The trigger: finished migrations\<close>

text \<open>
  \<open>pkg/trigger/migration_handler.go\<close>: when a migration has succeeded, the StorageState of its resource
  is reduced to the current storage version. The StorageState lists the versions in which objects
  of the resource may still be stored; \<open>hashes_ok\<close> is the invariant that the list covers the
  version in which the API server writes now.
\<close>

subsection \<open>The environment of the trigger\<close>

record 'w MigrationTrigger =
  mtStates :: "'w StorageStateInterface"
  mtMigrations :: "'w StorageVersionMigrationInterface"
  mtDiscovery :: "'w DiscoveryInterface"
  mtIndexer :: "'w IndexerInterface"
  mtHeartbeat :: Time

definition trigger_backoff :: Backoff where
  "trigger_backoff =
     \<lparr>bDuration = 10 * millisecond, bFactor = 5, bJitter = 1 / 10, bSteps = 6, bCap = 0\<rparr>"

lemma trigger_backoff_sel [simp]: "bSteps trigger_backoff = int (Suc 5)" "bCap trigger_backoff = 0"
  by (simp_all add: trigger_backoff_def)

subsection \<open>migration_handler.go\<close>

definition storageStateName :: "GroupVersionResource \<Rightarrow> string" where
  "storageStateName r =
     (if gvrGroup r = [] then gvrResource r else gvrResource r @ ''.'' @ gvrGroup r)"

definition setPersisted :: "string list \<Rightarrow> StorageState \<Rightarrow> StorageState" where
  "setPersisted hs ss = ss\<lparr>ssStatus := (ssStatus ss)\<lparr>PersistedStorageVersionHashes := hs\<rparr>\<rparr>"

definition markSucceeded_attempt :: "'w MigrationTrigger \<Rightarrow> string \<Rightarrow> (unit, 'w) cond" where
  "markSucceeded_attempt mt name = (\<lambda>(v, w).
     case ssGet (mtStates mt) name w of
       (Inl err, w1) \<Rightarrow>
         if \<not> IsNotFound (Some err) then ((False, None), (v, w1)) else ((True, None), (v, w1))
     | (Inr ss, w1) \<Rightarrow>
         (case ssUpdateStatus (mtStates mt)
                 (setPersisted [CurrentStorageVersionHash (ssStatus ss)] ss) w1 of
            (Inl err, w2) \<Rightarrow> ((False, None), (v, w2))
          | (Inr ss', w2) \<Rightarrow> ((True, None), (v, w2))))"

definition markStorageStateSucceeded ::
    "'w Runtime \<Rightarrow> 'w MigrationTrigger \<Rightarrow> GroupVersionResource \<Rightarrow> ('w, error option) call" where
  "markStorageStateSucceeded rt mt r w =
     (let (err, (v, w')) =
            ExponentialBackoff rt trigger_backoff (markSucceeded_attempt mt (storageStateName r)) ((), w)
      in (err, w'))"

definition processMigration ::
    "'w Runtime \<Rightarrow> 'w MigrationTrigger \<Rightarrow> StorageVersionMigration \<Rightarrow> ('w, error option) call" where
  "processMigration rt mt m w =
     (if HasCondition m MigrationSucceeded then markStorageStateSucceeded rt mt (svmResource m) w
      else if HasCondition m MigrationFailed then (None, w)
      else (None, w))"

record queueItem =
  qiNamespace :: string
  qiName :: string
  qiResource :: GroupVersionResource

text \<open>The workqueue holds \<open>interface{}\<close> values: a \<open>*queueItem\<close>, or anything else (its type name).\<close>

datatype queueObject = QItem queueItem | QOther string

fun processQueue ::
    "'w Runtime \<Rightarrow> 'w MigrationTrigger \<Rightarrow> queueObject \<Rightarrow> ('w, error option) call" where
  "processQueue rt mt (QItem item) w =
     (case svmGet (mtMigrations mt) (qiName item) w of
        (Inr m, w1) \<Rightarrow> processMigration rt mt m w1
      | (Inl err, w1) \<Rightarrow> if IsNotFound (Some err) then (None, w1) else (Some err, w1))"
| "processQueue rt mt (QOther t) w = (Some (ErrorString (''expected queueItem, got '' @ t)), w)"

subsection \<open>The name of a StorageState\<close>

text \<open>
  C28. The names of StorageStates are unique: for resource names without a dot (and not
  empty), two resources share a StorageState exactly when their group and resource agree.
\<close>

theorem storageStateName_inject:
  assumes "dot \<notin> set (gvrResource r)" and "dot \<notin> set (gvrResource r')"
  shows "storageStateName r = storageStateName r' \<longleftrightarrow>
           gvrGroup r = gvrGroup r' \<and> gvrResource r = gvrResource r'"
proof -
  have "gvrResource r = gvrResource r' @ ''.'' @ g \<Longrightarrow> False" for g using assms(1) by auto
  moreover have "gvrResource r @ ''.'' @ g = gvrResource r' \<Longrightarrow> False" for g
    using assms(2) by (metis append_Cons in_set_conv_decomp)
  ultimately show ?thesis using join_sep_inject [OF assms]
    by (auto simp: storageStateName_def)
qed

theorem storageStateName_inject_witness:
  "storageStateName \<lparr>gvrGroup = ''apps'', gvrVersion = ''v1'', gvrResource = ''deployments''\<rparr>
   \<noteq> storageStateName \<lparr>gvrGroup = ''extensions'', gvrVersion = ''v1'', gvrResource = ''deployments''\<rparr>"
  by (subst storageStateName_inject) simp_all

subsection \<open>The invariant of the version hashes\<close>

text \<open>
  A StorageState that was just created has no hashes. From then on, the current hash is
  among the persisted ones, or \<open>Unknown\<close> is, which stands for any version.
\<close>

definition hashes_ok :: "StorageStateStatus \<Rightarrow> bool" where
  "hashes_ok st \<longleftrightarrow>
     (CurrentStorageVersionHash st = [] \<and> PersistedStorageVersionHashes st = [])
     \<or> CurrentStorageVersionHash st \<in> set (PersistedStorageVersionHashes st)
     \<or> Unknown \<in> set (PersistedStorageVersionHashes st)"

definition states_ok :: "(string \<rightharpoonup> StorageState) \<Rightarrow> bool" where
  "states_ok ss \<longleftrightarrow> (\<forall>n s. ss n = Some s \<longrightarrow> hashes_ok (ssStatus s))"

lemma states_ok_upd: "states_ok ss \<Longrightarrow> hashes_ok (ssStatus s) \<Longrightarrow> states_ok (ss(n \<mapsto> s))"
  by (auto simp: states_ok_def)

lemma states_ok_del: "states_ok ss \<Longrightarrow> states_ok (ss(n := None))"
  by (auto simp: states_ok_def)

lemma setPersisted_sel [simp]:
  "ssMeta (setPersisted hs ss) = ssMeta ss" "ssSpec (setPersisted hs ss) = ssSpec ss"
  "PersistedStorageVersionHashes (ssStatus (setPersisted hs ss)) = hs"
  "CurrentStorageVersionHash (ssStatus (setPersisted hs ss)) = CurrentStorageVersionHash (ssStatus ss)"
  "LastHeartbeatTime (ssStatus (setPersisted hs ss)) = LastHeartbeatTime (ssStatus ss)"
  by (simp_all add: setPersisted_def)

text \<open>The states of a server after a migration of the resource was recorded.\<close>

definition marked :: "string \<Rightarrow> (string \<rightharpoonup> StorageState) \<Rightarrow> (string \<rightharpoonup> StorageState) \<Rightarrow> bool" where
  "marked n ss ss' \<longleftrightarrow>
     (\<exists>old new. ss n = Some old \<and> ss' = ss(n \<mapsto> new) \<and> ssName new = n \<and>
        ssStatus new = (ssStatus old)\<lparr>PersistedStorageVersionHashes := [CurrentStorageVersionHash (ssStatus old)]\<rparr>)"

lemma marked_trans: "marked n ss ss1 \<Longrightarrow> marked n ss1 ss2 \<Longrightarrow> marked n ss ss2"
  by (auto simp: marked_def)

lemma marked_ok: "marked n ss ss' \<Longrightarrow> states_ok ss \<Longrightarrow> states_ok ss'"
  by (auto simp: marked_def hashes_ok_def intro!: states_ok_upd)

context storage_state_env
begin

lemma markSucceeded_attempt_spec:
  assumes wf: "wf w" and mt: "mtStates mt = c"
    and run: "markSucceeded_attempt mt n (v, w) = ((ok, err), (v', w'))"
  shows "wf w' \<and> err = None \<and> (states w' = states w \<or> marked n (states w) (states w'))
     \<and> (ok \<longrightarrow> states w n = None \<and> states w' = states w \<or> marked n (states w) (states w'))"
proof -
  obtain gr w1 where g: "ssGet c n w = (gr, w1)" by (metis surj_pair)
  show ?thesis
  proof (cases gr)
    case (Inl e)
    then show ?thesis using run mt g ss_get_err [OF wf] by (auto simp: markSucceeded_attempt_def split: if_splits)
  next
    case (Inr ss)
    then have w1: "wf w1" "states w n = Some ss" "ssName ss = n" "states w1 = states w"
      using ss_get_ok [OF wf] g by auto
    let ?s = "setPersisted [CurrentStorageVersionHash (ssStatus ss)] ss"
    obtain ur w2 where u: "ssUpdateStatus c ?s w1 = (ur, w2)" by (metis surj_pair)
    have put: "marked n (states w) (states w2)" if "put_status (states w1) ?s (states w2)"
      using that w1 by (auto simp: put_status_def status_written_def marked_def setPersisted_def)
    show ?thesis
    proof (cases ur)
      case ur: (Inl e)
      then have "wf w2 \<and> (states w2 = states w \<or> marked n (states w) (states w2))"
        using ss_status_err [OF w1(1), of ?s e w2] u w1(4) put by auto
      then show ?thesis using run mt g Inr u ur by (auto simp: markSucceeded_attempt_def)
    next
      case ur: (Inr s')
      then have "wf w2 \<and> marked n (states w) (states w2)"
        using ss_status_ok [OF w1(1), of ?s s' w2] u put by auto
      then show ?thesis using run mt g Inr u ur by (auto simp: markSucceeded_attempt_def)
    qed
  qed
qed

lemma markStorageStateSucceeded_spec:
  assumes wf: "wf w" and mt: "mtStates mt = c"
    and run: "markStorageStateSucceeded rt mt r w = (err, w')"
  shows "wf w' \<and> (states w' = states w \<or> marked (storageStateName r) (states w) (states w'))
    \<and> (err = None \<longrightarrow> states w (storageStateName r) = None \<and> states w' = states w
                        \<or> marked (storageStateName r) (states w) (states w'))"
proof -
  let ?n = "storageStateName r"
  let ?P = "\<lambda>(v :: unit, w1). wf w1 \<and> (states w1 = states w \<or> marked ?n (states w) (states w1))"
  let ?Q = "\<lambda>e (v :: unit, w1). ?P (v, w1) \<and> (e = None \<longrightarrow> states w ?n = None \<and> states w1 = states w
                        \<or> marked ?n (states w) (states w1))"
  obtain v where e: "ExponentialBackoff rt trigger_backoff (markSucceeded_attempt mt ?n) ((), w) = (err, (v, w'))"
    using run by (auto simp: markStorageStateSucceeded_def split: prod.splits)
  have att: "?P s1 \<and> er = None \<and> (ok \<longrightarrow> ?Q None s1)"
    if P: "?P s" and a: "markSucceeded_attempt mt ?n s = ((ok, er), s1)" for s s1 ok er
  proof -
    obtain w1 w2 where s: "s = ((), w1)" "s1 = ((), w2)" by (cases s, cases s1) auto
    have "wf w1" using P s by simp
    from markSucceeded_attempt_spec [OF this mt a [unfolded s]] P s marked_trans [of ?n "states w" "states w1" "states w2"]
    show ?thesis by (auto simp: marked_def)
  qed
  have init: "?P ((), w)" using wf by simp
  have "?Q err (v, w')"
  proof (rule ExponentialBackoff_inv [where P = ?P and Q = ?Q, OF trigger_backoff_sel init _ _ _ _ _ e])
    show "?P s1" if "?P s" and "markSucceeded_attempt mt ?n s = ((False, None), s1)" for s s1
      using att [OF that] by (rule conjunct1)
    show "?Q er s1" if "?P s" and "markSucceeded_attempt mt ?n s = ((ok, er), s1)" and "er \<noteq> None \<or> ok"
      for s ok er s1 using att [OF that(1,2)] that(3) by blast
    show "?P (v, snd (rtRand rt w1))" if "?P (v, w1)" for v w1 using that ss_rand [of w1] by simp
    show "?P (v, rtSleep rt d w1)" if "?P (v, w1)" for v w1 d using that ss_sleep [of w1 d] by simp
    show "?Q (Some ErrWaitTimeout) s" if "?P s" for s using that by auto
  qed
  then show ?thesis by simp
qed

end

subsection \<open>The properties\<close>

text \<open>A trigger over the fake clientset; discovery and cache are not used by these operations.\<close>

definition fakeTrigger :: "FakeClientset MigrationTrigger" where
  "fakeTrigger =
     \<lparr>mtStates = FakeStorageStates, mtMigrations = FakeStorageVersionMigrations,
      mtDiscovery = \<lparr>discServerPreferredResources = (\<lambda>w. (([], None), w))\<rparr>,
      mtIndexer = \<lparr>ixByIndex = (\<lambda>i v w. (Inr [], w))\<rparr>, mtHeartbeat = 0\<rparr>"

definition twoHashes :: StorageState where
  "twoHashes = exampleState\<lparr>ssStatus :=
     \<lparr>PersistedStorageVersionHashes = [''h1'', ''h2''], CurrentStorageVersionHash = ''h2'',
      LastHeartbeatTime = 7\<rparr>\<rparr>"

definition twoHashesWorld :: FakeClientset where
  "twoHashesWorld = the (NewSimpleClientset [TSS twoHashes] 0)"

lemma twoHashesWorld_wf: "fake_wf twoHashesWorld"
proof -
  have "\<not> Option.is_none (NewSimpleClientset [TSS twoHashes] 0)" by code_simp
  then have "NewSimpleClientset [TSS twoHashes] 0 = Some twoHashesWorld"
    by (auto simp: twoHashesWorld_def Option.is_none_def)
  then show ?thesis
    by (rule NewSimpleClientset_wf [rotated]) (simp add: twoHashes_def exampleState_def zeroObjectMeta_def)
qed



end
