(* ===== verification/Trigger_Discovery.thy ===== *)
theory Trigger_Discovery
  imports Trigger_Migration
begin

section \<open>The trigger: discovery\<close>

text \<open>
  \<open>pkg/trigger/discovery_handler.go\<close>: the trigger reads the storage version hash of every resource from
  the discovery document, launches a migration when it changed (or when its own knowledge is
  too old, or a migration is missing) and keeps the StorageState of the resource up to date.
\<close>

subsection \<open>Migrations\<close>

definition discoveryPeriod :: Duration where "discoveryPeriod = 10 * minute"

definition toGroupResource :: "APIResource \<Rightarrow> GroupVersionResource" where
  "toGroupResource r = \<lparr>gvrGroup = arGroup r, gvrVersion = arVersion r, gvrResource = arName r\<rparr>"

fun deleteMigrations ::
    "'w MigrationTrigger \<Rightarrow> StorageVersionMigration list \<Rightarrow> ('w, error option) call" where
  "deleteMigrations mt [] w = (None, w)"
| "deleteMigrations mt (m # l) w =
     (case svmDelete (mtMigrations mt) (svmName m) w of
        (Some err, w1) \<Rightarrow>
          (Some (ErrorString (''unexpected error deleting migration '' @ svmName m @ '', '' @ Error err)), w1)
      | (None, w1) \<Rightarrow> deleteMigrations mt l w1)"

definition cleanMigrations :: "'w MigrationTrigger \<Rightarrow> APIResource \<Rightarrow> ('w, error option) call" where
  "cleanMigrations mt r w =
     (case ixByIndex (mtIndexer mt) ResourceIndex (ToIndex (toGroupResource r)) w of
        (Inl err, w1) \<Rightarrow> (Some err, w1)
      | (Inr l, w1) \<Rightarrow> deleteMigrations mt l w1)"

definition newMigration :: "GroupVersionResource \<Rightarrow> StorageVersionMigration" where
  "newMigration r =
     \<lparr>svmTypeMeta = zeroTypeMeta,
      svmMeta = zeroObjectMeta\<lparr>omGenerateName := storageStateName r @ ''-''\<rparr>,
      svmSpec = \<lparr>specResource = r, specContinueToken = []\<rparr>, svmStatus = \<lparr>smConditions = []\<rparr>\<rparr>"

definition launchMigration :: "'w MigrationTrigger \<Rightarrow> GroupVersionResource \<Rightarrow> ('w, error option) call" where
  "launchMigration mt r w =
     (case svmCreate (mtMigrations mt) (newMigration r) w of
        (Inl err, w1) \<Rightarrow> (Some err, w1)
      | (Inr m, w1) \<Rightarrow> (None, w1))"

definition relaunchMigration :: "'w MigrationTrigger \<Rightarrow> APIResource \<Rightarrow> ('w, error option) call" where
  "relaunchMigration mt r w =
     (case cleanMigrations mt r w of
        (Some err, w1) \<Rightarrow> (Some err, w1)
      | (None, w1) \<Rightarrow> launchMigration mt (toGroupResource r) w1)"

subsection \<open>StorageStates\<close>

definition newStorageState :: "APIResource \<Rightarrow> StorageState" where
  "newStorageState r =
     \<lparr>ssTypeMeta = zeroTypeMeta,
      ssMeta = zeroObjectMeta\<lparr>omName := storageStateName (toGroupResource r)\<rparr>,
      ssSpec = \<lparr>ssSpecResource = \<lparr>grGroup = arGroup r, grResource = arName r\<rparr>\<rparr>,
      ssStatus = zeroStorageStateStatus\<rparr>"

text \<open>The change that \<open>updateStorageState\<close> makes to a status.\<close>

definition advance :: "string \<Rightarrow> Time \<Rightarrow> StorageStateStatus \<Rightarrow> StorageStateStatus" where
  "advance currentHash heartbeat st =
     (let st1 = (if CurrentStorageVersionHash st \<noteq> currentHash then
                   (let st0 = st\<lparr>CurrentStorageVersionHash := currentHash\<rparr> in
                    if length (PersistedStorageVersionHashes st) = 0
                    then st0\<lparr>PersistedStorageVersionHashes := [Unknown]\<rparr>
                    else st0\<lparr>PersistedStorageVersionHashes := PersistedStorageVersionHashes st @ [currentHash]\<rparr>)
                 else st)
      in st1\<lparr>LastHeartbeatTime := heartbeat\<rparr>)"

definition updateStorageState_put ::
    "'w MigrationTrigger \<Rightarrow> string \<Rightarrow> StorageState \<Rightarrow> 'w \<Rightarrow> (bool \<times> error option) \<times> (unit \<times> 'w)" where
  "updateStorageState_put mt currentHash ss w =
     (case ssUpdateStatus (mtStates mt)
             (ss\<lparr>ssStatus := advance currentHash (mtHeartbeat mt) (ssStatus ss)\<rparr>) w of
        (Inl err, w1) \<Rightarrow> ((False, None), ((), w1))
      | (Inr ss', w1) \<Rightarrow> ((True, None), ((), w1)))"

definition updateStorageState_attempt ::
    "'w MigrationTrigger \<Rightarrow> string \<Rightarrow> APIResource \<Rightarrow> (unit, 'w) cond" where
  "updateStorageState_attempt mt currentHash r = (\<lambda>(v, w).
     case ssGet (mtStates mt) (storageStateName (toGroupResource r)) w of
       (Inr ss, w1) \<Rightarrow> updateStorageState_put mt currentHash ss w1
     | (Inl err, w1) \<Rightarrow>
         if \<not> IsNotFound (Some err) then ((False, None), ((), w1))
         else (case ssCreate (mtStates mt) (newStorageState r) w1 of
                 (Inl err', w2) \<Rightarrow> ((False, None), ((), w2))
               | (Inr ss, w2) \<Rightarrow> updateStorageState_put mt currentHash ss w2))"

definition updateStorageState ::
    "'w Runtime \<Rightarrow> 'w MigrationTrigger \<Rightarrow> string \<Rightarrow> APIResource \<Rightarrow> ('w, error option) call" where
  "updateStorageState rt mt currentHash r w =
     (let (err, (v, w')) =
            ExponentialBackoff rt trigger_backoff (updateStorageState_attempt mt currentHash r) ((), w)
      in (err, w'))"

definition staleStorageState :: "'w MigrationTrigger \<Rightarrow> StorageState \<Rightarrow> bool" where
  "staleStorageState mt ss = (LastHeartbeatTime (ssStatus ss) + 2 * discoveryPeriod < mtHeartbeat mt)"

definition isMigrated :: "StorageState \<Rightarrow> bool" where
  "isMigrated ss =
     (let hs = PersistedStorageVersionHashes (ssStatus ss) in
      if length hs \<noteq> 1 then False else CurrentStorageVersionHash (ssStatus ss) = hs ! 0)"

fun anyUnfinished :: "StorageVersionMigration list \<Rightarrow> bool" where
  "anyUnfinished [] = False"
| "anyUnfinished (m # ms) =
     (if HasCondition m MigrationSucceeded \<or> HasCondition m MigrationFailed then anyUnfinished ms else True)"

definition hasPendingOrRunningMigration :: "'w MigrationTrigger \<Rightarrow> APIResource \<Rightarrow> ('w, bool) call" where
  "hasPendingOrRunningMigration mt r w =
     (case ixByIndex (mtIndexer mt) ResourceIndex (ToIndex (toGroupResource r)) w of
        (Inl err, w1) \<Rightarrow> (False, w1)
      | (Inr migrations, w1) \<Rightarrow> (anyUnfinished migrations, w1))"

subsection \<open>One resource of the discovery document\<close>

text \<open>
  The decisions of \<open>processDiscoveryResource\<close> about the StorageState it got: whether it is stale and
  whether to relaunch. The cache is asked only if the state was found and is not migrated.
\<close>

definition relaunchDecision ::
    "'w MigrationTrigger \<Rightarrow> APIResource \<Rightarrow> StorageState option \<Rightarrow> ('w, bool \<times> bool) call" where
  "relaunchDecision mt r found w =
     (case found of
        None \<Rightarrow> ((False, True), w)
      | Some ss \<Rightarrow>
          (let stale = staleStorageState mt ss;
               storageVersionChanged = (CurrentStorageVersionHash (ssStatus ss) \<noteq> arStorageVersionHash r);
               (needsMigration, w1) =
                 (if isMigrated ss then (False, w)
                  else let (running, w1) = hasPendingOrRunningMigration mt r w in (\<not> running, w1))
           in ((stale, stale \<or> storageVersionChanged \<or> needsMigration), w1)))"

definition processDiscoveryResource ::
    "'w Runtime \<Rightarrow> 'w MigrationTrigger \<Rightarrow> APIResource \<Rightarrow> 'w \<Rightarrow> 'w" where
  "processDiscoveryResource rt mt r w =
     (if arStorageVersionHash r = [] then w
      else
        (let name = storageStateName (toGroupResource r) in
         case ssGet (mtStates mt) name w of
           (getRes, w1) \<Rightarrow>
             (if (case getRes of Inl e \<Rightarrow> \<not> IsNotFound (Some e) | Inr ss \<Rightarrow> False) then w1
              else
                (case relaunchDecision mt r (case getRes of Inl e \<Rightarrow> None | Inr ss \<Rightarrow> Some ss) w1 of
                   ((stale, relaunch), w2) \<Rightarrow>
                     (case (if stale then ssDelete (mtStates mt) name w2 else (None, w2)) of
                        (Some err, w3) \<Rightarrow> w3
                      | (None, w3) \<Rightarrow>
                          (let w4 = (if relaunch then snd (relaunchMigration mt r w3) else w3)
                           in snd (updateStorageState rt mt (arStorageVersionHash r) r w4)))))))"

subsection \<open>The whole discovery document\<close>

definition discover_attempt ::
    "'w MigrationTrigger \<Rightarrow> (APIResourceList list \<times> error option, 'w) cond" where
  "discover_attempt mt = (\<lambda>(v, w).
     case discServerPreferredResources (mtDiscovery mt) w of
       ((resources, err2), w1) \<Rightarrow>
         if err2 \<noteq> None then ((False, None), ((resources, err2), w1))
         else ((True, None), ((resources, err2), w1)))"

definition fillGroupVersion :: "GroupVersion \<Rightarrow> APIResource \<Rightarrow> APIResource" where
  "fillGroupVersion gv r =
     (let r1 = (if arGroup r = [] then r\<lparr>arGroup := gvGroup gv\<rparr> else r)
      in if arVersion r1 = [] then r1\<lparr>arVersion := gvVersion gv\<rparr> else r1)"

fun processResources :: "'w Runtime \<Rightarrow> 'w MigrationTrigger \<Rightarrow> GroupVersion \<Rightarrow> APIResource list \<Rightarrow> 'w \<Rightarrow> 'w" where
  "processResources rt mt gv [] w = w"
| "processResources rt mt gv (r # rs) w =
     processResources rt mt gv rs (processDiscoveryResource rt mt (fillGroupVersion gv r) w)"

fun processLists :: "'w Runtime \<Rightarrow> 'w MigrationTrigger \<Rightarrow> APIResourceList list \<Rightarrow> 'w \<Rightarrow> 'w" where
  "processLists rt mt [] w = w"
| "processLists rt mt (l # ls) w =
     (case ParseGroupVersion (arlGroupVersion l) of
        Inl err \<Rightarrow> processLists rt mt ls w
      | Inr gv \<Rightarrow> processLists rt mt ls (processResources rt mt gv (arlAPIResources l) w))"

definition processDiscovery ::
    "'w Runtime \<Rightarrow> 'w MigrationTrigger \<Rightarrow> 'w \<Rightarrow> 'w MigrationTrigger \<times> 'w" where
  "processDiscovery rt mt w =
     (let (err, ((resources, err2), w1)) =
            ExponentialBackoff rt trigger_backoff (discover_attempt mt) (([], None), w);
          (now, w2) = rtNow rt w1;
          mt1 = mt\<lparr>mtHeartbeat := now\<rparr>
      in (mt1, processLists rt mt1 resources w2))"

subsection \<open>What updateStorageState does to the states\<close>

lemma advance_idem: "advance h hb (advance h hb' st) = advance h hb st"
  by (simp add: advance_def Let_def)

lemma advance_sel [simp]:
  "CurrentStorageVersionHash (advance h hb st) = h" "LastHeartbeatTime (advance h hb st) = hb"
  by (simp_all add: advance_def Let_def)

lemma advance_ok: "hashes_ok st \<Longrightarrow> hashes_ok (advance h hb st)"
  by (auto simp: advance_def hashes_ok_def Let_def)

lemma advance_keeps: "set (PersistedStorageVersionHashes st) \<subseteq> set (PersistedStorageVersionHashes (advance h hb st))"
  by (auto simp: advance_def Let_def)

lemma hashes_ok_zero [simp]: "hashes_ok zeroStorageStateStatus"
  by (simp add: hashes_ok_def zeroStorageStateStatus_def)

definition baseStatus :: "(string \<rightharpoonup> StorageState) \<Rightarrow> string \<Rightarrow> StorageStateStatus" where
  "baseStatus ss n = (case ss n of None \<Rightarrow> zeroStorageStateStatus | Some s \<Rightarrow> ssStatus s)"

definition stored_as ::
    "string \<Rightarrow> StorageStateStatus \<Rightarrow> (string \<rightharpoonup> StorageState) \<Rightarrow> (string \<rightharpoonup> StorageState) \<Rightarrow> bool" where
  "stored_as n st ss ss' \<longleftrightarrow> (\<exists>new. ss' = ss(n \<mapsto> new) \<and> ssName new = n \<and> ssStatus new = st)"

text \<open>The state of \<open>n\<close> was advanced; the result of \<open>updateStorageState\<close> on success.\<close>

definition advanced ::
    "string \<Rightarrow> string \<Rightarrow> Time \<Rightarrow> (string \<rightharpoonup> StorageState) \<Rightarrow> (string \<rightharpoonup> StorageState) \<Rightarrow> bool" where
  "advanced n h hb ss ss' \<longleftrightarrow> stored_as n (advance h hb (baseStatus ss n)) ss ss'"

text \<open>Nothing happened yet, the state was created with an empty status, or it was advanced.\<close>

definition underway ::
    "string \<Rightarrow> string \<Rightarrow> Time \<Rightarrow> (string \<rightharpoonup> StorageState) \<Rightarrow> (string \<rightharpoonup> StorageState) \<Rightarrow> bool" where
  "underway n h hb ss ss' \<longleftrightarrow>
     ss' = ss \<or> (ss n = None \<and> stored_as n zeroStorageStateStatus ss ss') \<or> advanced n h hb ss ss'"

lemma underway_refl [simp]: "underway n h hb ss ss"
  by (simp add: underway_def)

lemma underway_base:
  "underway n h hb ss ss1 \<Longrightarrow> advance h hb (baseStatus ss1 n) = advance h hb (baseStatus ss n)"
  by (auto simp: underway_def advanced_def stored_as_def baseStatus_def advance_idem)

lemma stored_as_after: "underway n h hb ss ss1 \<Longrightarrow> stored_as n st ss1 ss2 \<Longrightarrow> stored_as n st ss ss2"
  by (auto simp: underway_def advanced_def stored_as_def)

lemma advanced_after: "underway n h hb ss ss1 \<Longrightarrow> advanced n h hb ss1 ss2 \<Longrightarrow> advanced n h hb ss ss2"
  using underway_base stored_as_after by (metis advanced_def)

lemma underway_trans:
  assumes "underway n h hb ss ss1" and "underway n h hb ss1 ss2"
  shows "underway n h hb ss ss2"
proof -
  consider "ss2 = ss1" | "ss1 n = None" "stored_as n zeroStorageStateStatus ss1 ss2" | "advanced n h hb ss1 ss2"
    using assms(2) by (auto simp: underway_def)
  then show ?thesis
  proof cases
    case 2
    then have "ss1 = ss" using assms(1) by (auto simp: underway_def advanced_def stored_as_def)
    then show ?thesis using 2 by (simp add: underway_def)
  next
    case 3
    then show ?thesis using advanced_after [OF assms(1)] by (simp add: underway_def)
  qed (use assms in simp)
qed

lemma underway_ok: "underway n h hb ss ss' \<Longrightarrow> states_ok ss \<Longrightarrow> states_ok ss'"
  by (auto simp: underway_def advanced_def stored_as_def baseStatus_def intro!: states_ok_upd advance_ok
      split: option.splits) (auto simp: states_ok_def)

context storage_state_env
begin

lemma updateStorageState_put_spec:
  assumes wf: "wf w" and mt: "mtStates mt = c" and s: "states w n = Some s0" "ssStatus s0 = ssStatus s" "ssName s = n"
    and run: "updateStorageState_put mt h s w = ((ok, err), (v, w'))"
  shows "wf w' \<and> err = None \<and> (states w' = states w \<or> advanced n h (mtHeartbeat mt) (states w) (states w'))
    \<and> (ok \<longrightarrow> advanced n h (mtHeartbeat mt) (states w) (states w'))"
proof -
  let ?s = "s\<lparr>ssStatus := advance h (mtHeartbeat mt) (ssStatus s)\<rparr>"
  obtain ur w1 where u: "ssUpdateStatus c ?s w = (ur, w1)" by (metis surj_pair)
  have put: "advanced n h (mtHeartbeat mt) (states w) (states w1)" if "put_status (states w) ?s (states w1)"
    using that s by (auto simp: put_status_def status_written_def advanced_def stored_as_def baseStatus_def)
  show ?thesis
  proof (cases ur)
    case (Inl e)
    then have "wf w1 \<and> (states w1 = states w \<or> advanced n h (mtHeartbeat mt) (states w) (states w1))"
      using ss_status_err [OF wf, of ?s e w1] u put by auto
    then show ?thesis using run mt u Inl by (auto simp: updateStorageState_put_def)
  next
    case (Inr s')
    then have "wf w1 \<and> advanced n h (mtHeartbeat mt) (states w) (states w1)"
      using ss_status_ok [OF wf, of ?s s' w1] u put by auto
    then show ?thesis using run mt u Inr by (auto simp: updateStorageState_put_def)
  qed
qed

lemma updateStorageState_attempt_spec:
  assumes wf: "wf w" and mt: "mtStates mt = c"
    and run: "updateStorageState_attempt mt h r (v, w) = ((ok, err), (v', w'))"
  defines "n \<equiv> storageStateName (toGroupResource r)"
  shows "wf w' \<and> err = None \<and> underway n h (mtHeartbeat mt) (states w) (states w')
    \<and> (ok \<longrightarrow> advanced n h (mtHeartbeat mt) (states w) (states w'))"
proof -
  obtain gr w1 where g: "ssGet c n w = (gr, w1)" by (metis surj_pair)
  show ?thesis
  proof (cases gr)
    case (Inr ss)
    then have w1: "wf w1" "states w1 n = Some ss" "ssName ss = n" "states w1 = states w"
      using ss_get_ok [OF wf] g by auto
    have "updateStorageState_put mt h ss w1 = ((ok, err), (v', w'))"
      using run mt g Inr by (simp add: updateStorageState_attempt_def n_def)
    from updateStorageState_put_spec [OF w1(1) mt w1(2) refl w1(3) this] w1(4)
    show ?thesis by (auto simp: underway_def)
  next
    case (Inl e)
    then have w1: "wf w1" "states w1 = states w" "IsNotFound (Some e) \<Longrightarrow> states w n = None"
      using ss_get_err [OF wf] g by auto
    show ?thesis
    proof (cases "IsNotFound (Some e)")
      case False
      then show ?thesis using run mt g Inl w1 by (auto simp: updateStorageState_attempt_def n_def)
    next
      case True
      obtain cr w2 where c: "ssCreate c (newStorageState r) w1 = (cr, w2)" by (metis surj_pair)
      have st: "ssName (newStorageState r) = n" "ssStatus (newStorageState r) = zeroStorageStateStatus"
        by (simp_all add: newStorageState_def n_def)
      have made: "states w n = None \<and> states w2 = (states w)(n \<mapsto> s') \<and> ssName s' = n
          \<and> ssStatus s' = zeroStorageStateStatus"
        if "post_state (states w1) (newStorageState r) s' (states w2)" for s'
        using that st w1(2) by (auto simp: post_state_def)
      show ?thesis
      proof (cases cr)
        case cr: (Inl e')
        then have "wf w2 \<and> underway n h (mtHeartbeat mt) (states w) (states w2)"
          using ss_create_err [OF w1(1), of "newStorageState r" e' w2] c w1(2) made
          by (auto simp: underway_def stored_as_def)
        then show ?thesis using run mt g Inl True c cr by (auto simp: updateStorageState_attempt_def n_def)
      next
        case cr: (Inr s')
        then have w2: "wf w2" and s': "states w n = None" "states w2 = (states w)(n \<mapsto> s')" "ssName s' = n"
            "ssStatus s' = zeroStorageStateStatus"
          using ss_create_ok [OF w1(1), of "newStorageState r" s' w2] c made by auto
        have put: "updateStorageState_put mt h s' w2 = ((ok, err), (v', w'))"
          using run mt g Inl True c cr by (simp add: updateStorageState_attempt_def n_def)
        have un: "underway n h (mtHeartbeat mt) (states w) (states w2)"
          using s' by (auto simp: underway_def stored_as_def)
        have here: "states w2 n = Some s'" using s'(2) by simp
        from updateStorageState_put_spec [OF w2 mt here refl s'(3) put] un
        show ?thesis using advanced_after [OF un] by (auto simp: underway_def)
      qed
    qed
  qed
qed

lemma updateStorageState_spec:
  assumes wf: "wf w" and mt: "mtStates mt = c" and run: "updateStorageState rt mt h r w = (err, w')"
  defines "n \<equiv> storageStateName (toGroupResource r)"
  shows "wf w' \<and> underway n h (mtHeartbeat mt) (states w) (states w')
    \<and> (err = None \<longrightarrow> advanced n h (mtHeartbeat mt) (states w) (states w'))"
proof -
  let ?hb = "mtHeartbeat mt"
  let ?P = "\<lambda>(v :: unit, w1). wf w1 \<and> underway n h ?hb (states w) (states w1)"
  let ?Q = "\<lambda>e (v :: unit, w1). ?P (v, w1) \<and> (e = None \<longrightarrow> advanced n h ?hb (states w) (states w1))"
  obtain v where e: "ExponentialBackoff rt trigger_backoff (updateStorageState_attempt mt h r) ((), w) = (err, (v, w'))"
    using run by (auto simp: updateStorageState_def split: prod.splits)
  have att: "?P s1 \<and> er = None \<and> (ok \<longrightarrow> ?Q None s1)"
    if P: "?P s" and a: "updateStorageState_attempt mt h r s = ((ok, er), s1)" for s s1 ok er
  proof -
    obtain w1 w2 where s: "s = ((), w1)" "s1 = ((), w2)" by (cases s, cases s1) auto
    have "wf w1" and u: "underway n h ?hb (states w) (states w1)" using P s by auto
    from updateStorageState_attempt_spec [OF this(1) mt a [unfolded s]] s
    show ?thesis using underway_trans [OF u] advanced_after [OF u] by (auto simp: n_def)
  qed
  have init: "?P ((), w)" using wf by simp
  have "?Q err (v, w')"
  proof (rule ExponentialBackoff_inv [where P = ?P and Q = ?Q, OF trigger_backoff_sel init _ _ _ _ _ e])
    show "?P s1" if "?P s" and "updateStorageState_attempt mt h r s = ((False, None), s1)" for s s1
      using att [OF that] by (rule conjunct1)
    show "?Q er s1" if "?P s" and "updateStorageState_attempt mt h r s = ((ok, er), s1)" and "er \<noteq> None \<or> ok"
      for s ok er s1 using att [OF that(1,2)] that(3) by blast
    show "?P (v, snd (rtRand rt w1))" if "?P (v, w1)" for v w1 using that ss_rand [of w1] by simp
    show "?P (v, rtSleep rt d w1)" if "?P (v, w1)" for v w1 d using that ss_sleep [of w1 d] by simp
    show "?Q (Some ErrWaitTimeout) s" if "?P s" for s using that by auto
  qed
  then show ?thesis by simp
qed

end

subsection \<open>The environment of the whole trigger\<close>

text \<open>
  Both clients on one server: calls on StorageStates do not touch migrations and the other way
  round; asking the cache, the discovery endpoint or the clock changes neither. Nothing is
  assumed about what the cache holds.
\<close>

definition unchanged ::
    "('w \<Rightarrow> bool) \<Rightarrow> ('w \<Rightarrow> string \<rightharpoonup> StorageState) \<Rightarrow> ('w \<Rightarrow> string \<rightharpoonup> StorageVersionMigration) \<Rightarrow>
     'w \<Rightarrow> 'w \<Rightarrow> bool" where
  "unchanged valid states migs w w' \<longleftrightarrow> valid w' \<and> states w' = states w \<and> migs w' = migs w"

locale trigger_env =
  ss: storage_state_env sc states wf rt + svm: migration_env mc migs wf rt
  for sc :: "'w StorageStateInterface" and states wf rt
    and mc :: "'w StorageVersionMigrationInterface" and migs +
  fixes ix :: "'w IndexerInterface" and dc :: "'w DiscoveryInterface"
  assumes ss_migs: "wf w \<Longrightarrow> migs (snd (ssGet sc n w)) = migs w" "wf w \<Longrightarrow> migs (snd (ssCreate sc s w)) = migs w"
      "wf w \<Longrightarrow> migs (snd (ssUpdateStatus sc s w)) = migs w" "wf w \<Longrightarrow> migs (snd (ssDelete sc n w)) = migs w"
    and svm_states: "wf w \<Longrightarrow> states (snd (svmGet mc n w)) = states w"
      "wf w \<Longrightarrow> states (snd (svmCreate mc m w)) = states w" "wf w \<Longrightarrow> states (snd (svmDelete mc n w)) = states w"
    and ix_frame: "wf w \<Longrightarrow> unchanged wf states migs w (snd (ixByIndex ix a b w))"
    and disc_frame: "wf w \<Longrightarrow> unchanged wf states migs w (snd (discServerPreferredResources dc w))"
    and now_states: "wf w \<Longrightarrow> states (snd (rtNow rt w)) = states w"
begin

abbreviation of_trigger :: "'w MigrationTrigger \<Rightarrow> bool" where
  "of_trigger mt \<equiv> mtStates mt = sc \<and> mtMigrations mt = mc \<and> mtIndexer mt = ix \<and> mtDiscovery mt = dc"

lemma deleteMigrations_spec:
  assumes "wf w" and "mtMigrations mt = mc" and "deleteMigrations mt l w = (err, w')"
  shows "wf w' \<and> states w' = states w \<and> (\<exists>D \<subseteq> svmName ` set l. migs w' = migs w |` (- D)) \<and>
    (err = None \<longrightarrow> migs w' = migs w |` (- svmName ` set l))"
  using assms
proof (induction l arbitrary: w)
  case Nil
  then show ?case by auto
next
  case (Cons m l)
  obtain e w1 where d: "svmDelete mc (svmName m) w = (e, w1)" by (metis surj_pair)
  have st: "states w1 = states w" using svm_states(3) [OF Cons.prems(1), of "svmName m"] d by simp
  show ?case
  proof (cases e)
    case (Some e')
    then have "wf w1 \<and> (migs w1 = migs w \<or> migs w1 = (migs w)(svmName m := None))"
      using svm.svm_delete_err [OF Cons.prems(1)] d by blast
    then have "wf w1" and D: "migs w1 = migs w |` (- {}) \<or> migs w1 = migs w |` (- {svmName m})"
      by (auto simp: restrict_map_def fun_eq_iff)
    moreover have "\<exists>D \<subseteq> svmName ` set (m # l). migs w1 = migs w |` (- D)"
      using D
    proof
      assume "migs w1 = migs w |` (- {})"
      then show ?thesis by (intro exI [of _ "{}"] conjI) auto
    next
      assume "migs w1 = migs w |` (- {svmName m})"
      then show ?thesis by (intro exI [of _ "{svmName m}"] conjI) auto
    qed
    ultimately have "wf w1" "\<exists>D \<subseteq> svmName ` set (m # l). migs w1 = migs w |` (- D)" by auto
    then show ?thesis using Cons.prems d Some st by auto
  next
    case None
    have w1: "wf w1" "migs w1 = migs w |` (- {svmName m})"
      using svm.svm_delete_ok [OF Cons.prems(1)] d None by (auto simp: restrict_complement_singleton_eq)
    have run: "deleteMigrations mt l w1 = (err, w')" using Cons.prems d None by simp
    note IH = Cons.IH [OF w1(1) Cons.prems(2) run]
    have join: "migs w1 |` (- D) = migs w |` (- insert (svmName m) D)" for D
      using w1(2) by (auto simp: restrict_map_def fun_eq_iff)
    obtain D where D: "D \<subseteq> svmName ` set l" "migs w' = migs w1 |` (- D)" using IH by blast
    have "\<exists>D \<subseteq> svmName ` set (m # l). migs w' = migs w |` (- D)"
      using D join by (intro exI [of _ "insert (svmName m) D"]) auto
    then show ?thesis using IH st join by auto
  qed
qed

lemma relaunchMigration_spec:
  assumes wf: "wf w" and mt: "of_trigger mt" and run: "relaunchMigration mt r w = (err, w')"
  shows "wf w' \<and> states w' = states w \<and>
    (err = None \<longrightarrow> (\<exists>l w0 m'. ixByIndex ix ResourceIndex (ToIndex (toGroupResource r)) w = (Inr l, w0) \<and>
        post_mig (migs w |` (- svmName ` set l)) (newMigration (toGroupResource r)) m' (migs w')))"
proof -
  obtain lr w1 where i: "ixByIndex ix ResourceIndex (ToIndex (toGroupResource r)) w = (lr, w1)" by (metis surj_pair)
  have w1: "wf w1" "states w1 = states w" "migs w1 = migs w"
    using ix_frame [OF wf, of ResourceIndex "ToIndex (toGroupResource r)"] i by (auto simp: unchanged_def)
  show ?thesis
  proof (cases lr)
    case (Inl e)
    then show ?thesis using run mt i w1 by (auto simp: relaunchMigration_def cleanMigrations_def)
  next
    case (Inr l)
    obtain de w2 where d: "deleteMigrations mt l w1 = (de, w2)" by (metis surj_pair)
    have "mtMigrations mt = mc" using mt by simp
    note D = deleteMigrations_spec [OF w1(1) this d]
    show ?thesis
    proof (cases de)
      case (Some e)
      then show ?thesis using run mt i Inr d D w1
        by (auto simp: relaunchMigration_def cleanMigrations_def)
    next
      case None
      let ?m = "newMigration (toGroupResource r)"
      obtain cr w3 where c: "svmCreate mc ?m w2 = (cr, w3)" by (metis surj_pair)
      have w2: "wf w2" using D by simp
      have st: "states w3 = states w2" using svm_states(2) [OF w2, of ?m] c by simp
      show ?thesis
        using run mt i Inr d D w1 None c st svm.svm_create_ok [OF w2, of ?m] svm.svm_create_err [OF w2, of ?m]
        by (cases cr) (auto simp: relaunchMigration_def cleanMigrations_def launchMigration_def)
    qed
  qed
qed

lemma updateStorageState_attempt_migs:
  assumes wf: "wf w" and mt: "of_trigger mt"
    and run: "updateStorageState_attempt mt h r (v, w) = ((ok, err), (v', w'))"
  shows "migs w' = migs w"
proof -
  let ?n = "storageStateName (toGroupResource r)"
  have put: "migs (snd (snd (updateStorageState_put mt h ss w1))) = migs w1" if "wf w1" for ss w1
    using ss_migs(3) [OF that] mt
    by (auto simp: updateStorageState_put_def split: prod.splits sum.splits) (metis snd_conv)+
  obtain gr w1 where g: "ssGet sc ?n w = (gr, w1)" by (metis surj_pair)
  have w1: "wf w1" "migs w1 = migs w"
    using ss.ss_get_ok [OF wf] ss.ss_get_err [OF wf] ss_migs(1) [OF wf, of ?n] g by (cases gr; auto)+
  obtain cr w2 where c: "ssCreate sc (newStorageState r) w1 = (cr, w2)" by (metis surj_pair)
  have w2: "wf w2" "migs w2 = migs w"
    using ss.ss_create_ok [OF w1(1)] ss.ss_create_err [OF w1(1)] ss_migs(2) [OF w1(1), of "newStorageState r"] c w1(2)
    by (cases cr; auto)+
  show ?thesis using run mt g c w1 w2 put
    by (auto simp: updateStorageState_attempt_def split: sum.splits if_splits) (metis snd_conv)+
qed

lemma updateStorageState_migs:
  assumes wf: "wf w" and mt: "of_trigger mt" and run: "updateStorageState rt mt h r w = (err, w')"
  shows "migs w' = migs w"
proof -
  let ?P = "\<lambda>(v :: unit, w1). wf w1 \<and> migs w1 = migs w"
  obtain v where e: "ExponentialBackoff rt trigger_backoff (updateStorageState_attempt mt h r) ((), w) = (err, (v, w'))"
    using run by (auto simp: updateStorageState_def split: prod.splits)
  have att: "?P s1" if P: "?P s" and a: "updateStorageState_attempt mt h r s = ((ok, er), s1)" for s s1 ok er
  proof -
    obtain w1 w2 where s: "s = ((), w1)" "s1 = ((), w2)" by (cases s, cases s1) auto
    then show ?thesis using P ss.updateStorageState_attempt_spec [of w1 mt h r "()" ok er "()" w2]
        updateStorageState_attempt_migs [of w1 mt h r "()" ok er "()" w2] mt a by auto
  qed
  have init: "?P ((), w)" using wf by simp
  have "?P (v, w')"
  proof (rule ExponentialBackoff_inv [where P = ?P and Q = "\<lambda>_. ?P", OF trigger_backoff_sel init _ _ _ _ _ e])
    show "?P s1" if "?P s" and "updateStorageState_attempt mt h r s = ((False, None), s1)" for s s1
      by (rule att [OF that])
    show "?P s1" if "?P s" and "updateStorageState_attempt mt h r s = ((ok, er), s1)" and "er \<noteq> None \<or> ok"
      for s ok er s1 by (rule att [OF that(1,2)])
    show "?P (v, snd (rtRand rt w1))" if "?P (v, w1)" for v w1 using that svm.svm_rand [of w1] by simp
    show "?P (v, rtSleep rt d w1)" if "?P (v, w1)" for v w1 d using that svm.svm_sleep [of w1 d] by simp
  qed
  then show ?thesis by simp
qed

lemma relaunchDecision_frame:
  assumes "wf w" and "of_trigger mt" and "relaunchDecision mt r f w = (d, w')"
  shows "unchanged wf states migs w w'"
  using assms ix_frame [OF assms(1), of ResourceIndex "ToIndex (toGroupResource r)"]
  by (auto simp: relaunchDecision_def hasPendingOrRunningMigration_def unchanged_def Let_def
      split: option.splits if_splits prod.splits sum.splits)

text \<open>The states after one resource was processed: its state may have been deleted, then it was updated.\<close>

lemma processDiscoveryResource_states:
  fixes r :: APIResource
  assumes wf: "wf w" and mt: "of_trigger mt"
  defines "n \<equiv> storageStateName (toGroupResource r)"
  shows "wf (processDiscoveryResource rt mt r w) \<and>
    (\<exists>ss1 \<in> {states w, (states w)(n := None)}.
       underway n (arStorageVersionHash r) (mtHeartbeat mt) ss1 (states (processDiscoveryResource rt mt r w)))"
proof (cases "arStorageVersionHash r = []")
  case True
  then show ?thesis using wf by (simp add: processDiscoveryResource_def)
next
  case False
  let ?h = "arStorageVersionHash r"
  obtain gr w1 where g: "ssGet sc n w = (gr, w1)" by (metis surj_pair)
  have w1: "wf w1" "states w1 = states w"
    using ss.ss_get_ok [OF wf] ss.ss_get_err [OF wf] g by (cases gr; auto)+
  show ?thesis
  proof (cases "case gr of Inl e \<Rightarrow> \<not> IsNotFound (Some e) | Inr ss \<Rightarrow> False")
    case True
    then show ?thesis using False g mt w1 by (auto simp: processDiscoveryResource_def n_def)
  next
    case found: False
    obtain st rl w2 where d: "relaunchDecision mt r (case gr of Inl e \<Rightarrow> None | Inr ss \<Rightarrow> Some ss) w1 = ((st, rl), w2)"
      by (metis surj_pair)
    have w2: "wf w2" "states w2 = states w" using relaunchDecision_frame [OF w1(1) mt d] w1(2) by (auto simp: unchanged_def)
    obtain de w3 where del: "(if st then ssDelete sc n w2 else (None, w2)) = (de, w3)" by (metis surj_pair)
    have w3: "wf w3" "states w3 \<in> {states w, (states w)(n := None)}"
      using del w2 ss.ss_delete_ok [OF w2(1), of n w3] ss.ss_delete_err [OF w2(1), of n _ w3]
      by (cases de; auto split: if_splits)+
    show ?thesis
    proof (cases de)
      case (Some e)
      have "processDiscoveryResource rt mt r w = w3"
        using False g mt found d del Some unfolding processDiscoveryResource_def n_def
        by (cases st) (simp_all add: Let_def)
      then show ?thesis using w3 by auto
    next
      case None
      define w4 where "w4 = (if rl then snd (relaunchMigration mt r w3) else w3)"
      have w4: "wf w4" "states w4 = states w3"
        using relaunchMigration_spec [OF w3(1) mt, of r] w3(1)
        by (cases "relaunchMigration mt r w3"; auto simp: w4_def)+
      obtain e w5 where u: "updateStorageState rt mt ?h r w4 = (e, w5)" by (metis surj_pair)
      have res: "processDiscoveryResource rt mt r w = w5"
        using False g mt found d del None u unfolding processDiscoveryResource_def n_def w4_def
        by (cases st) (simp_all add: Let_def)
      from ss.updateStorageState_spec [OF w4(1) _ u] mt w4(2) w3(2) show ?thesis
        unfolding res n_def by auto
    qed
  qed
qed

lemma processDiscoveryResource_ok:
  assumes "wf w" and "of_trigger mt" and "states_ok (states w)"
  shows "wf (processDiscoveryResource rt mt r w) \<and> states_ok (states (processDiscoveryResource rt mt r w))"
  using processDiscoveryResource_states [OF assms(1,2), of r] states_ok_del [OF assms(3)] assms(3)
    underway_ok by blast

lemma processResources_ok:
  assumes "of_trigger mt"
  shows "wf w \<Longrightarrow> states_ok (states w) \<Longrightarrow>
    wf (processResources rt mt gv rs w) \<and> states_ok (states (processResources rt mt gv rs w))"
  by (induction rs arbitrary: w) (use processDiscoveryResource_ok assms in auto)

lemma processLists_ok:
  assumes "of_trigger mt"
  shows "wf w \<Longrightarrow> states_ok (states w) \<Longrightarrow>
    wf (processLists rt mt ls w) \<and> states_ok (states (processLists rt mt ls w))"
proof (induction ls arbitrary: w)
  case (Cons l ls)
  then show ?case using processResources_ok [OF assms]
    by (cases "ParseGroupVersion (arlGroupVersion l)") auto
qed simp

lemma discovery_frame:
  assumes wf: "wf w" and mt: "of_trigger mt"
    and e: "ExponentialBackoff rt trigger_backoff (discover_attempt mt) (v0, w) = (err, (v, w'))"
  shows "unchanged wf states migs w w'"
proof -
  let ?P = "\<lambda>(v, w1). unchanged wf states migs w w1"
  have att: "?P s1" if "?P s" and "discover_attempt mt s = ((ok, er), s1)" for s s1 ok er
    using that mt disc_frame [of "snd s"]
    by (auto simp: discover_attempt_def unchanged_def split: prod.splits if_splits)
  have init: "?P (v0, w)" using wf by (simp add: unchanged_def)
  have "?P (v, w')"
  proof (rule ExponentialBackoff_inv [where P = ?P and Q = "\<lambda>_. ?P", OF trigger_backoff_sel init _ _ _ _ _ e])
    show "?P s1" if "?P s" and "discover_attempt mt s = ((False, None), s1)" for s s1 by (rule att [OF that])
    show "?P s1" if "?P s" and "discover_attempt mt s = ((ok, er), s1)" and "er \<noteq> None \<or> ok"
      for s ok er s1 by (rule att [OF that(1,2)])
    show "?P (v, snd (rtRand rt w1))" if "?P (v, w1)" for v w1
      using that svm.svm_rand [of w1] ss.ss_rand [of w1] by (simp add: unchanged_def)
    show "?P (v, rtSleep rt d w1)" if "?P (v, w1)" for v w1 d
      using that svm.svm_sleep [of w1 d] ss.ss_sleep [of w1 d] by (simp add: unchanged_def)
  qed
  then show ?thesis by simp
qed

lemma processDiscovery_ok:
  assumes wf: "wf w" and mt: "of_trigger mt" and ok: "states_ok (states w)"
    and run: "processDiscovery rt mt w = (mt', w')"
  shows "wf w' \<and> of_trigger mt' \<and> states_ok (states w')"
proof -
  obtain err rs err2 w1 where
    e: "ExponentialBackoff rt trigger_backoff (discover_attempt mt) (([], None), w) = (err, ((rs, err2), w1))"
    by (metis surj_pair)
  have w1: "wf w1" "states w1 = states w" using discovery_frame [OF wf mt e] by (auto simp: unchanged_def)
  obtain now w2 where n: "rtNow rt w1 = (now, w2)" by (metis surj_pair)
  have w2: "wf w2" "states w2 = states w"
    using svm.svm_now [OF w1(1)] now_states [OF w1(1)] n w1(2) by auto
  have "mt' = mt\<lparr>mtHeartbeat := now\<rparr>" "w' = processLists rt (mt\<lparr>mtHeartbeat := now\<rparr>) rs w2"
    using run e n by (auto simp: processDiscovery_def Let_def)
  then show ?thesis using processLists_ok [of "mt\<lparr>mtHeartbeat := now\<rparr>" w2 rs] w2 ok mt by simp
qed

text \<open>A resource whose state is fresh, up to date and migrated: no migration is touched.\<close>

lemma processDiscoveryResource_steady:
  assumes wf: "wf w" and mt: "of_trigger mt"
    and s: "states w (storageStateName (toGroupResource r)) = Some s"
    and steady: "\<not> staleStorageState mt s" "CurrentStorageVersionHash (ssStatus s) = arStorageVersionHash r" "isMigrated s"
  shows "migs (processDiscoveryResource rt mt r w) = migs w"
proof -
  let ?n = "storageStateName (toGroupResource r)"
  obtain gr w1 where g: "ssGet sc ?n w = (gr, w1)" by (metis surj_pair)
  have w1: "wf w1" "migs w1 = migs w"
    using ss.ss_get_ok [OF wf] ss.ss_get_err [OF wf] ss_migs(1) [OF wf, of ?n] g by (cases gr; auto)+
  show ?thesis
  proof (cases gr)
    case (Inl e)
    then have "\<not> IsNotFound (Some e)" using ss.ss_get_err [OF wf] g s by auto
    then show ?thesis using g mt w1 Inl by (auto simp: processDiscoveryResource_def)
  next
    case (Inr s')
    then have "s' = s" using ss.ss_get_ok [OF wf] g s by auto
    then have d: "relaunchDecision mt r (Some s') w1 = ((False, False), w1)"
      using steady by (simp add: relaunchDecision_def Let_def)
    have "migs (snd (updateStorageState rt mt (arStorageVersionHash r) r w1)) = migs w1"
      using updateStorageState_migs [OF w1(1) mt, of "arStorageVersionHash r" r]
      by (cases "updateStorageState rt mt (arStorageVersionHash r) r w1") auto
    then show ?thesis using g mt Inr d w1(2) by (simp add: processDiscoveryResource_def Let_def)
  qed
qed

end

end
