(* ===== verification/Index_Store.thy ===== *)
theory Index_Store
  imports Conditions "HOL-Library.List_Lexorder" "HOL-Library.Char_ord"
begin

section \<open>The indexed cache of an informer\<close>

text \<open>
  The vendored \<open>threadSafeMap\<close> of \<open>client-go/tools/cache/thread_safe_store.go\<close>, the store behind the
  informers that \<open>NewStatusIndexedInformer\<close> and \<open>NewStatusAndResourceIndexedInformer\<close>
  (\<open>pkg/controller/indexer.go\<close>) build. It keeps the cached objects and, for every index
  function, an inverted index from index values to sets of keys, maintained incrementally.

  The contract of an indexed cache (a locale): \<open>ByIndex\<close> returns exactly the cached objects whose
  index values include the one asked for. The incremental indices refine it.
  A panic is \<open>None\<close>. The iteration order of a Go map is a parameter \<open>ord\<close>.
\<close>

type_synonym Index = "string \<rightharpoonup> string set"
type_synonym Indices = "string \<rightharpoonup> Index"
type_synonym 'o IndexFunc = "'o \<Rightarrow> (string list, error) result"
type_synonym 'o Indexers = "(string \<times> 'o IndexFunc) list"

record 'o threadSafeMap =
  tsItems :: "string \<rightharpoonup> 'o"
  tsIndexers :: "'o Indexers"
  tsIndices :: Indices

subsection \<open>Operations\<close>

definition addKeyToIndex :: "string \<Rightarrow> string \<Rightarrow> Index \<Rightarrow> Index" where
  "addKeyToIndex key indexValue index =
     index(indexValue \<mapsto> insert key (case index indexValue of None \<Rightarrow> {} | Some S \<Rightarrow> S))"

definition deleteKeyFromIndex :: "string \<Rightarrow> string \<Rightarrow> Index \<Rightarrow> Index" where
  "deleteKeyFromIndex key indexValue index =
     (case index indexValue of
        None \<Rightarrow> index
      | Some S \<Rightarrow>
          (let S' = S - {key} in
           if S' = {} then index(indexValue := None) else index(indexValue \<mapsto> S')))"

text \<open>The index values of an object that may be nil; \<open>None\<close> when the index function fails.\<close>

fun indexValuesOf :: "'o IndexFunc \<Rightarrow> 'o option \<Rightarrow> string list option" where
  "indexValuesOf f None = Some []"
| "indexValuesOf f (Some obj) = (case f obj of Inr vs \<Rightarrow> Some vs | Inl e \<Rightarrow> None)"

definition updateIndex :: "string \<Rightarrow> string list \<Rightarrow> string list \<Rightarrow> Index \<Rightarrow> Index" where
  "updateIndex key oldIndexValues indexValues index =
     (if length indexValues = 1 \<and> length oldIndexValues = 1 \<and> indexValues ! 0 = oldIndexValues ! 0
      then index
      else fold (addKeyToIndex key) indexValues
             (fold (deleteKeyFromIndex key) oldIndexValues index))"

fun updateIndices ::
    "'o Indexers \<Rightarrow> 'o option \<Rightarrow> 'o option \<Rightarrow> string \<Rightarrow> Indices \<Rightarrow> Indices option" where
  "updateIndices [] oldObj newObj key indices = Some indices"
| "updateIndices ((name, indexFunc) # rest) oldObj newObj key indices =
     (case indexValuesOf indexFunc oldObj of
        None \<Rightarrow> None
      | Some oldIndexValues \<Rightarrow>
          (case indexValuesOf indexFunc newObj of
             None \<Rightarrow> None
           | Some indexValues \<Rightarrow>
               (let index = (case indices name of None \<Rightarrow> Map.empty | Some i \<Rightarrow> i) in
                updateIndices rest oldObj newObj key
                  (indices(name \<mapsto> updateIndex key oldIndexValues indexValues index)))))"

definition tsUpdate :: "string \<Rightarrow> 'o \<Rightarrow> 'o threadSafeMap \<Rightarrow> 'o threadSafeMap option" where
  "tsUpdate key obj c =
     (case updateIndices (tsIndexers c) (tsItems c key) (Some obj) key (tsIndices c) of
        None \<Rightarrow> None
      | Some ix \<Rightarrow> Some (c\<lparr>tsItems := (tsItems c)(key \<mapsto> obj), tsIndices := ix\<rparr>))"

definition tsAdd :: "string \<Rightarrow> 'o \<Rightarrow> 'o threadSafeMap \<Rightarrow> 'o threadSafeMap option" where
  "tsAdd key obj c = tsUpdate key obj c"

definition tsDelete :: "string \<Rightarrow> 'o threadSafeMap \<Rightarrow> 'o threadSafeMap option" where
  "tsDelete key c =
     (case tsItems c key of
        None \<Rightarrow> Some c
      | Some obj \<Rightarrow>
          (case updateIndices (tsIndexers c) (Some obj) None key (tsIndices c) of
             None \<Rightarrow> None
           | Some ix \<Rightarrow> Some (c\<lparr>tsIndices := ix, tsItems := (tsItems c)(key := None)\<rparr>)))"

text \<open>\<open>Replace\<close> takes the new items in the order in which the map is ranged over.\<close>

fun reindex :: "'o Indexers \<Rightarrow> (string \<times> 'o) list \<Rightarrow> Indices \<Rightarrow> Indices option" where
  "reindex ixs [] indices = Some indices"
| "reindex ixs ((key, item) # rest) indices =
     (case updateIndices ixs None (Some item) key indices of
        None \<Rightarrow> None
      | Some ix \<Rightarrow> reindex ixs rest ix)"

definition tsReplace :: "(string \<times> 'o) list \<Rightarrow> 'o threadSafeMap \<Rightarrow> 'o threadSafeMap option" where
  "tsReplace items c =
     (case reindex (tsIndexers c) items Map.empty of
        None \<Rightarrow> None
      | Some ix \<Rightarrow> Some (c\<lparr>tsItems := map_of items, tsIndices := ix\<rparr>))"

definition getKeysByIndex :: "string \<Rightarrow> string \<Rightarrow> 'o threadSafeMap \<Rightarrow> (string set, error) result" where
  "getKeysByIndex indexName indexedValue c =
     (case map_of (tsIndexers c) indexName of
        None \<Rightarrow> Inl (ErrorString (''Index with name '' @ indexName @ '' does not exist''))
      | Some f \<Rightarrow>
          Inr (case tsIndices c indexName of
                 None \<Rightarrow> {}
               | Some index \<Rightarrow> (case index indexedValue of None \<Rightarrow> {} | Some S \<Rightarrow> S)))"

definition tsByIndex ::
    "(string set \<Rightarrow> string list) \<Rightarrow> string \<Rightarrow> string \<Rightarrow> 'o threadSafeMap \<Rightarrow> ('o option list, error) result"
  where
  "tsByIndex ord indexName indexedValue c =
     (case getKeysByIndex indexName indexedValue c of
        Inl e \<Rightarrow> Inl e
      | Inr S \<Rightarrow> Inr (map (tsItems c) (ord S)))"

definition NewThreadSafeStore :: "'o Indexers \<Rightarrow> Indices \<Rightarrow> 'o threadSafeMap" where
  "NewThreadSafeStore indexers indices =
     \<lparr>tsItems = Map.empty, tsIndexers = indexers, tsIndices = indices\<rparr>"

subsection \<open>The invariant: the indices are the inverse images of the index functions\<close>

definition keys_of :: "Indices \<Rightarrow> string \<Rightarrow> string \<Rightarrow> string set" where
  "keys_of indices name v =
     (case indices name of None \<Rightarrow> {} | Some ix \<Rightarrow> (case ix v of None \<Rightarrow> {} | Some S \<Rightarrow> S))"

definition lookup_set :: "Index \<Rightarrow> string \<Rightarrow> string set" where
  "lookup_set ix v = (case ix v of None \<Rightarrow> {} | Some S \<Rightarrow> S)"

definition has_value :: "'o IndexFunc \<Rightarrow> 'o option \<Rightarrow> string \<Rightarrow> bool" where
  "has_value f obj v \<longleftrightarrow> (\<exists>vs. indexValuesOf f obj = Some vs \<and> v \<in> set vs)"

definition index_inv :: "'o Indexers \<Rightarrow> (string \<rightharpoonup> 'o) \<Rightarrow> Indices \<Rightarrow> bool" where
  "index_inv ixs items indices \<longleftrightarrow>
     (\<forall>name f v k. map_of ixs name = Some f \<longrightarrow>
        (k \<in> keys_of indices name v \<longleftrightarrow> has_value f (items k) v))"

definition ts_inv :: "'o threadSafeMap \<Rightarrow> bool" where
  "ts_inv c \<longleftrightarrow> distinct (map fst (tsIndexers c)) \<and> index_inv (tsIndexers c) (tsItems c) (tsIndices c)"

lemma lookup_set_add: "lookup_set (addKeyToIndex k v ix) u =
    (if u = v then insert k (lookup_set ix u) else lookup_set ix u)"
  by (simp add: addKeyToIndex_def lookup_set_def)

lemma lookup_set_delete: "lookup_set (deleteKeyFromIndex k v ix) u =
    (if u = v then lookup_set ix u - {k} else lookup_set ix u)"
  by (auto simp: deleteKeyFromIndex_def lookup_set_def Let_def split: option.splits)

lemma lookup_set_fold_add: "lookup_set (fold (addKeyToIndex k) vs ix) u =
    (if u \<in> set vs then insert k (lookup_set ix u) else lookup_set ix u)"
  by (induction vs arbitrary: ix) (auto simp: lookup_set_add)

lemma lookup_set_fold_delete: "lookup_set (fold (deleteKeyFromIndex k) vs ix) u =
    (if u \<in> set vs then lookup_set ix u - {k} else lookup_set ix u)"
  by (induction vs arbitrary: ix) (auto simp: lookup_set_delete)

text \<open>One index after an update: the key moves from its old values to its new ones.\<close>

lemma lookup_set_updateIndex:
  assumes "\<And>v. k \<in> lookup_set ix v \<longleftrightarrow> v \<in> set old"
  shows "lookup_set (updateIndex k old new ix) v =
           (if v \<in> set new then insert k (lookup_set ix v) else lookup_set ix v - {k})"
proof (cases "length new = 1 \<and> length old = 1 \<and> new ! 0 = old ! 0")
  case True
  then have "new = old" by (auto simp: length_Suc_conv)
  with True assms show ?thesis by (auto simp: updateIndex_def)
next
  case False
  with assms show ?thesis
    by (auto simp: updateIndex_def lookup_set_fold_add lookup_set_fold_delete)
qed

lemma keys_of_lookup:
  "keys_of indices name v = lookup_set (case indices name of None \<Rightarrow> Map.empty | Some i \<Rightarrow> i) v"
  by (simp add: keys_of_def lookup_set_def split: option.splits)

text \<open>All indices after \<open>updateIndices\<close>: every named index gets the update of its own function.\<close>

lemma updateIndices_keys:
  assumes "updateIndices ixs old new k indices = Some indices'"
    and "distinct (map fst ixs)"
    and "\<And>name f v. map_of ixs name = Some f \<Longrightarrow> k \<in> keys_of indices name v \<longleftrightarrow> has_value f old v"
  shows "keys_of indices' name v =
    (case map_of ixs name of
       None \<Rightarrow> keys_of indices name v
     | Some f \<Rightarrow> if has_value f new v then insert k (keys_of indices name v)
                 else keys_of indices name v - {k})"
  using assms
proof (induction ixs arbitrary: indices)
  case Nil
  then show ?case by simp
next
  case (Cons p ixs)
  obtain n f where p: "p = (n, f)" by force
  from Cons.prems(1) p obtain ov nv where
    ov: "indexValuesOf f old = Some ov" and nv: "indexValuesOf f new = Some nv" and
    rest: "updateIndices ixs old new k
       (indices(n \<mapsto> updateIndex k ov nv (case indices n of None \<Rightarrow> Map.empty | Some i \<Rightarrow> i)))
       = Some indices'" (is "updateIndices _ _ _ _ ?ind = _")
    by (auto simp: Let_def split: option.splits)
  have n_fresh: "map_of ixs n = None" using Cons.prems(2) p by (auto simp: map_of_eq_None_iff)
  have upd: "keys_of ?ind n u = (if has_value f new u then insert k (keys_of indices n u)
                 else keys_of indices n u - {k})" for u
    using Cons.prems(3) [of n f] ov nv p
    by (subst keys_of_lookup)
      (auto simp: lookup_set_updateIndex keys_of_lookup has_value_def)
  have other: "keys_of ?ind n' u = keys_of indices n' u" if "n' \<noteq> n" for n' u
    using that by (simp add: keys_of_def)
  have IH: "keys_of indices' name v =
    (case map_of ixs name of
       None \<Rightarrow> keys_of ?ind name v
     | Some f \<Rightarrow> if has_value f new v then insert k (keys_of ?ind name v)
                 else keys_of ?ind name v - {k})"
  proof (rule Cons.IH [OF rest])
    show "distinct (map fst ixs)" using Cons.prems(2) by simp
    fix name f' v assume "map_of ixs name = Some f'"
    then show "k \<in> keys_of ?ind name v \<longleftrightarrow> has_value f' old v"
      using Cons.prems(3) [of name f'] n_fresh p other [of name] by (cases "name = n") auto
  qed
  show ?case
  proof (cases "name = n")
    case True
    with IH n_fresh p show ?thesis by (simp add: upd)
  next
    case False
    with IH p show ?thesis by (cases "map_of ixs name") (simp_all add: other [OF False])
  qed
qed

lemma updateIndices_inv:
  assumes "updateIndices ixs (items k) new k indices = Some indices'"
    and "distinct (map fst ixs)" and "index_inv ixs items indices"
  shows "index_inv ixs (items(k := new)) indices'"
  unfolding index_inv_def
proof (intro allI impI)
  fix name f v k'
  assume f: "map_of ixs name = Some f"
  have "keys_of indices' name v =
      (if has_value f new v then insert k (keys_of indices name v) else keys_of indices name v - {k})"
    using updateIndices_keys [OF assms(1,2), of name v] assms(3) f by (simp add: index_inv_def)
  with f assms(3) show "k' \<in> keys_of indices' name v \<longleftrightarrow> has_value f ((items(k := new)) k') v"
    by (auto simp: index_inv_def)
qed

lemma ts_inv_update: "ts_inv c \<Longrightarrow> tsUpdate k obj c = Some c' \<Longrightarrow> ts_inv c'"
  by (auto simp: ts_inv_def tsUpdate_def split: option.splits intro: updateIndices_inv)

lemma ts_inv_delete: "ts_inv c \<Longrightarrow> tsDelete k c = Some c' \<Longrightarrow> ts_inv c'"
proof -
  assume inv: "ts_inv c" and del: "tsDelete k c = Some c'"
  show ?thesis
  proof (cases "tsItems c k")
    case None
    with inv del show ?thesis by (simp add: tsDelete_def)
  next
    case (Some obj)
    with del obtain ix where "updateIndices (tsIndexers c) (tsItems c k) None k (tsIndices c) = Some ix"
      and "c' = c\<lparr>tsIndices := ix, tsItems := (tsItems c)(k := None)\<rparr>"
      by (auto simp: tsDelete_def split: option.splits)
    with inv updateIndices_inv [of "tsIndexers c" "tsItems c" k None "tsIndices c" ix]
    show ?thesis by (simp add: ts_inv_def)
  qed
qed

lemma reindex_inv:
  assumes "reindex ixs xs indices = Some indices'" and "distinct (map fst ixs)"
    and "index_inv ixs items indices" and "distinct (map fst xs)"
    and "\<And>k. k \<in> fst ` set xs \<Longrightarrow> items k = None"
  shows "index_inv ixs (items ++ map_of xs) indices'"
  using assms
proof (induction xs arbitrary: indices items)
  case Nil
  then show ?case by simp
next
  case (Cons p xs)
  obtain k o1 where p: "p = (k, o1)" by force
  from Cons.prems(1) p obtain ix where
    u: "updateIndices ixs None (Some o1) k indices = Some ix" and r: "reindex ixs xs ix = Some indices'"
    by (auto split: option.splits)
  have k: "items k = None" and kx: "k \<notin> fst ` set xs" using Cons.prems(4,5) p by auto
  have "index_inv ixs (items(k := Some o1)) ix"
    using updateIndices_inv [of ixs items k "Some o1" indices ix] u k Cons.prems(2,3) by simp
  then have "index_inv ixs (items(k \<mapsto> o1) ++ map_of xs) indices'"
  proof (rule Cons.IH [OF r Cons.prems(2)])
    show "distinct (map fst xs)" using Cons.prems(4) by simp
    show "(items(k \<mapsto> o1)) k' = None" if "k' \<in> fst ` set xs" for k'
      using that kx Cons.prems(5) by auto
  qed
  moreover have "items(k \<mapsto> o1) ++ map_of xs = items ++ map_of (p # xs)"
    using kx [folded map_of_eq_None_iff] p
    by (auto simp: map_add_def fun_eq_iff split: option.splits)
  ultimately show ?case by (simp only:)
qed

lemma ts_inv_replace:
  "ts_inv c \<Longrightarrow> distinct (map fst items) \<Longrightarrow> tsReplace items c = Some c' \<Longrightarrow> ts_inv c'"
proof -
  assume inv: "ts_inv c" and d: "distinct (map fst items)" and r: "tsReplace items c = Some c'"
  then obtain ix where ix: "reindex (tsIndexers c) items Map.empty = Some ix"
    and c': "c' = c\<lparr>tsItems := map_of items, tsIndices := ix\<rparr>"
    by (auto simp: tsReplace_def split: option.splits)
  have "index_inv (tsIndexers c) (Map.empty ++ map_of items) ix"
    by (rule reindex_inv [OF ix])
      (use inv d in \<open>auto simp: ts_inv_def index_inv_def keys_of_def has_value_def\<close>)
  with inv c' show ?thesis by (simp add: ts_inv_def)
qed

subsection \<open>The contract of an indexed cache\<close>

text \<open>
  What a controller relies on: whatever the sequence of adds, updates, deletes and replacements,
  \<open>ByIndex\<close> lists exactly the cached objects that have the index value, and an unknown
  index name is an error.
\<close>

locale indexed_cache =
  fixes inv :: "'s \<Rightarrow> bool"
    and items :: "'s \<Rightarrow> string \<rightharpoonup> 'o"
    and indexers :: "'s \<Rightarrow> string \<rightharpoonup> 'o IndexFunc"
    and by_index :: "string \<Rightarrow> string \<Rightarrow> 's \<Rightarrow> ('o option list, error) result"
    and put :: "string \<Rightarrow> 'o \<Rightarrow> 's \<Rightarrow> 's option"
    and del :: "string \<Rightarrow> 's \<Rightarrow> 's option"
  assumes by_index_exact: "inv s \<Longrightarrow> finite (dom (items s)) \<Longrightarrow> indexers s n = Some f \<Longrightarrow>
       \<exists>l. by_index n v s = Inr l \<and>
           set l = {Some obj | obj. \<exists>k vs. items s k = Some obj \<and> f obj = Inr vs \<and> v \<in> set vs}"
    and by_index_unknown: "indexers s n = None \<Longrightarrow> \<exists>e. by_index n v s = Inl e"
    and put_inv: "inv s \<Longrightarrow> put k obj s = Some s' \<Longrightarrow>
       inv s' \<and> items s' = (items s)(k \<mapsto> obj) \<and> indexers s' = indexers s"
    and del_inv: "inv s \<Longrightarrow> del k s = Some s' \<Longrightarrow>
       inv s' \<and> items s' = (items s)(k := None) \<and> indexers s' = indexers s"
begin

text \<open>An object just stored is found under each of its index values, and under no other.\<close>

lemma put_then_by_index:
  assumes "inv s" "finite (dom (items s))" "put k obj s = Some s'" "indexers s n = Some f"
    "f obj = Inr vs" "v \<in> set vs"
  shows "\<exists>l. by_index n v s' = Inr l \<and> Some obj \<in> set l"
proof -
  have "inv s'" "items s' = (items s)(k \<mapsto> obj)" "indexers s' n = Some f"
    using put_inv [OF assms(1,3)] assms(4) by auto
  moreover have "finite (dom (items s'))" using assms(2) calculation(2) by simp
  ultimately show ?thesis using by_index_exact [of s' n f v] assms(5,6) by fastforce
qed

lemma del_then_by_index:
  assumes "inv s" "finite (dom (items s))" "del k s = Some s'" "indexers s n = Some f"
    "\<And>k'. k' \<noteq> k \<Longrightarrow> items s k' \<noteq> Some obj"
  shows "\<exists>l. by_index n v s' = Inr l \<and> Some obj \<notin> set l"
proof -
  have "inv s'" "items s' = (items s)(k := None)" "indexers s' n = Some f"
    using del_inv [OF assms(1,3)] assms(4) by auto
  moreover have "finite (dom (items s'))"
    using assms(2) calculation(2) by (auto intro: finite_subset [of _ "dom (items s)"])
  ultimately obtain l where "by_index n v s' = Inr l"
    "set l = {Some obj | obj. \<exists>k vs. items s' k = Some obj \<and> f obj = Inr vs \<and> v \<in> set vs}"
    using by_index_exact [of s' n f v] by blast
  with \<open>items s' = _\<close> assms(5) show ?thesis by (auto split: if_splits)
qed

end

text \<open>
  Ranging over a Go map visits its keys once each, in some order; an order function is any
  function that lists the members of a finite set. The sorted order is one.
\<close>

definition enumerates :: "(string set \<Rightarrow> string list) \<Rightarrow> bool" where
  "enumerates ord \<longleftrightarrow> (\<forall>S. finite S \<longrightarrow> set (ord S) = S \<and> distinct (ord S))"

lemma getKeysByIndex_inv:
  assumes "ts_inv c" "map_of (tsIndexers c) n = Some f"
  shows "getKeysByIndex n v c = Inr {k. has_value f (tsItems c k) v}"
proof -
  have "getKeysByIndex n v c = Inr (keys_of (tsIndices c) n v)"
    using assms(2) by (simp add: getKeysByIndex_def keys_of_def)
  also have "keys_of (tsIndices c) n v = {k. has_value f (tsItems c k) v}"
    using assms unfolding ts_inv_def index_inv_def by blast
  finally show ?thesis .
qed

lemma has_value_cached: "has_value f obj v \<Longrightarrow> \<exists>o1. obj = Some o1"
  by (cases obj) (auto simp: has_value_def)

lemma tsByIndex_exact:
  assumes "enumerates ord" "ts_inv c" "finite (dom (tsItems c))" "map_of (tsIndexers c) n = Some f"
  shows "\<exists>l. tsByIndex ord n v c = Inr l \<and>
           set l = {Some obj | obj. \<exists>k vs. tsItems c k = Some obj \<and> f obj = Inr vs \<and> v \<in> set vs}"
proof -
  let ?S = "{k. has_value f (tsItems c k) v}"
  have "?S \<subseteq> dom (tsItems c)" using has_value_cached by fastforce
  then have "finite ?S" using assms(3) by (rule finite_subset)
  then have "set (ord ?S) = ?S" using assms(1) by (simp add: enumerates_def)
  then have "set (map (tsItems c) (ord ?S)) =
      {Some obj | obj. \<exists>k vs. tsItems c k = Some obj \<and> f obj = Inr vs \<and> v \<in> set vs}"
    by (auto simp: has_value_def image_iff split: sum.splits elim!: indexValuesOf.elims)
      (metis indexValuesOf.simps(2) sum.case(2))
  then show ?thesis
    by (simp add: tsByIndex_def getKeysByIndex_inv [OF assms(2,4)])
qed

lemma tsUpdate_frame: "tsUpdate k obj c = Some c' \<Longrightarrow>
    tsItems c' = (tsItems c)(k \<mapsto> obj) \<and> tsIndexers c' = tsIndexers c"
  by (auto simp: tsUpdate_def split: option.splits)

lemma tsDelete_frame: "tsDelete k c = Some c' \<Longrightarrow>
    tsItems c' = (tsItems c)(k := None) \<and> tsIndexers c' = tsIndexers c"
  by (auto simp: tsDelete_def fun_upd_idem split: option.splits)

lemma indexed_cache_threadSafeMap:
  assumes "enumerates ord"
  shows "indexed_cache ts_inv tsItems (\<lambda>c. map_of (tsIndexers c)) (tsByIndex ord) tsUpdate tsDelete"
proof (unfold_locales, goal_cases)
  case (1 s n f v)
  then show ?case using tsByIndex_exact [OF assms] by blast
next
  case (2 s n v)
  then show ?case by (simp add: tsByIndex_def getKeysByIndex_def)
next
  case (3 s k obj s')
  then show ?case using ts_inv_update tsUpdate_frame by metis
next
  case (4 s k s')
  then show ?case using ts_inv_delete tsDelete_frame by metis
qed

lemma enumerates_sorted: "enumerates sorted_list_of_set"
  by (simp add: enumerates_def)

interpretation ts: indexed_cache ts_inv tsItems "\<lambda>c. map_of (tsIndexers c)"
    "tsByIndex sorted_list_of_set" tsUpdate tsDelete
  by (rule indexed_cache_threadSafeMap [OF enumerates_sorted])

subsection \<open>indexer.go: the informers' stores\<close>

text \<open>
  \<open>NewStatusIndexedInformer\<close> and \<open>NewStatusAndResourceIndexedInformer\<close> build an informer with these
  index functions; the informer's store starts empty.
\<close>

definition statusIndexers :: "goObject Indexers" where
  "statusIndexers = [(StatusIndex, migrationStatusIndexFunc)]"

definition statusAndResourceIndexers :: "goObject Indexers" where
  "statusAndResourceIndexers =
     [(StatusIndex, migrationStatusIndexFunc), (ResourceIndex, migrationResourceIndexFunc)]"

definition NewStatusIndexedInformer_store :: "goObject threadSafeMap" where
  "NewStatusIndexedInformer_store = NewThreadSafeStore statusIndexers Map.empty"

definition NewStatusAndResourceIndexedInformer_store :: "goObject threadSafeMap" where
  "NewStatusAndResourceIndexedInformer_store = NewThreadSafeStore statusAndResourceIndexers Map.empty"

lemma ts_inv_new: "distinct (map fst ixs) \<Longrightarrow> ts_inv (NewThreadSafeStore ixs Map.empty)"
  by (auto simp: ts_inv_def NewThreadSafeStore_def index_inv_def keys_of_def has_value_def)

lemma ts_inv_informer_stores:
  "ts_inv NewStatusIndexedInformer_store" "ts_inv NewStatusAndResourceIndexedInformer_store"
  by (auto simp: NewStatusIndexedInformer_store_def NewStatusAndResourceIndexedInformer_store_def
      statusIndexers_def statusAndResourceIndexers_def index_name_defs intro!: ts_inv_new)

text \<open>The events an informer applies to its store, in the order of the watch.\<close>

datatype 'o storeEvent = Put string 'o | Del string | Rep "(string \<times> 'o) list"

fun tsApply :: "'o storeEvent \<Rightarrow> 'o threadSafeMap \<Rightarrow> 'o threadSafeMap option" where
  "tsApply (Put k obj) c = tsUpdate k obj c"
| "tsApply (Del k) c = tsDelete k c"
| "tsApply (Rep items) c = tsReplace items c"

fun tsRun :: "'o storeEvent list \<Rightarrow> 'o threadSafeMap \<Rightarrow> 'o threadSafeMap option" where
  "tsRun [] c = Some c"
| "tsRun (e # es) c = (case tsApply e c of None \<Rightarrow> None | Some c' \<Rightarrow> tsRun es c')"

text \<open>Each \<open>Replace\<close> gets a map, that is a list with one entry per key.\<close>

fun event_ok :: "'o storeEvent \<Rightarrow> bool" where
  "event_ok (Rep items) = distinct (map fst items)"
| "event_ok e = True"

lemma tsApply_inv:
  assumes "ts_inv c" "event_ok e" "finite (dom (tsItems c))" "tsApply e c = Some c'"
  shows "ts_inv c' \<and> finite (dom (tsItems c')) \<and> tsIndexers c' = tsIndexers c"
proof (cases e)
  case (Put k obj)
  with assms show ?thesis using ts_inv_update tsUpdate_frame by fastforce
next
  case (Del k)
  with assms have "tsItems c' = (tsItems c)(k := None) \<and> tsIndexers c' = tsIndexers c"
    using tsDelete_frame by fastforce
  with Del assms show ?thesis using ts_inv_delete by fastforce
next
  case (Rep items)
  with assms show ?thesis
    using ts_inv_replace [of c items c']
    by (auto simp: tsReplace_def finite_dom_map_of split: option.splits)
qed

lemma tsRun_inv:
  assumes "ts_inv c" "\<forall>e \<in> set es. event_ok e" "finite (dom (tsItems c))" "tsRun es c = Some c'"
  shows "ts_inv c' \<and> finite (dom (tsItems c')) \<and> tsIndexers c' = tsIndexers c"
  using assms
proof (induction es arbitrary: c)
  case (Cons e es)
  then obtain c1 where c1: "tsApply e c = Some c1" "tsRun es c1 = Some c'"
    by (auto split: option.splits)
  with Cons tsApply_inv [of c e c1] show ?case by auto
qed simp

text \<open>
  C19. The incremental indices of the cache refine the plain reading of its contents. After any
  sequence of watch events applied to the empty store of the trigger's informer that did not
  panic, asking the Resource index for a value returns exactly the cached migrations whose
  spec.resource has that index value, and asking the Status index for a class returns exactly the
  cached migrations of that class, in whatever order the map is ranged over.
\<close>

theorem informer_store_ByIndex:
  assumes ord: "enumerates ord" and ev: "\<forall>e \<in> set es. event_ok e"
    and run: "tsRun es NewStatusAndResourceIndexedInformer_store = Some c"
  shows "\<exists>lr ls. tsByIndex ord ResourceIndex r c = Inr lr \<and> tsByIndex ord StatusIndex cls c = Inr ls
    \<and> set lr = {Some (GoSVM m) | m. GoSVM m \<in> ran (tsItems c) \<and> ToIndex (svmResource m) = r}
    \<and> set ls = {Some (GoSVM m) | m. GoSVM m \<in> ran (tsItems c)
                  \<and> migrationStatusIndexFunc (GoSVM m) = Inr [cls]}"
proof -
  have init: "finite (dom (tsItems NewStatusAndResourceIndexedInformer_store))"
    by (simp add: NewStatusAndResourceIndexedInformer_store_def NewThreadSafeStore_def)
  from tsRun_inv [OF ts_inv_informer_stores(2) ev init run]
  have inv: "ts_inv c" "finite (dom (tsItems c))"
    and ixs: "tsIndexers c = statusAndResourceIndexers"
    by (auto simp: NewStatusAndResourceIndexedInformer_store_def NewThreadSafeStore_def)
  have fr: "map_of (tsIndexers c) ResourceIndex = Some migrationResourceIndexFunc"
    and fs: "map_of (tsIndexers c) StatusIndex = Some migrationStatusIndexFunc"
    by (simp_all add: ixs statusAndResourceIndexers_def index_name_defs)
  have r_inv: "migrationResourceIndexFunc obj = Inr vs \<and> v \<in> set vs \<longleftrightarrow>
      (\<exists>m. obj = GoSVM m \<and> ToIndex (svmResource m) = v \<and> vs = [v])" for obj vs v
    by (cases obj) auto
  have s_inv: "migrationStatusIndexFunc obj = Inr vs \<and> v \<in> set vs \<longleftrightarrow>
      (\<exists>m. obj = GoSVM m \<and> migrationStatusIndexFunc (GoSVM m) = Inr [v] \<and> vs = [v])" for obj vs v
    by (cases obj) auto
  obtain lr where lr: "tsByIndex ord ResourceIndex r c = Inr lr" "set lr =
      {Some obj | obj. \<exists>k vs. tsItems c k = Some obj \<and> migrationResourceIndexFunc obj = Inr vs
                              \<and> r \<in> set vs}"
    using tsByIndex_exact [OF ord inv fr] by blast
  obtain ls where ls: "tsByIndex ord StatusIndex cls c = Inr ls" "set ls =
      {Some obj | obj. \<exists>k vs. tsItems c k = Some obj \<and> migrationStatusIndexFunc obj = Inr vs
                              \<and> cls \<in> set vs}"
    using tsByIndex_exact [OF ord inv fs] by blast
  have "set lr = {Some (GoSVM m) | m. GoSVM m \<in> ran (tsItems c) \<and> ToIndex (svmResource m) = r}"
    unfolding lr(2) r_inv by (auto simp: ran_def)
  moreover have "set ls = {Some (GoSVM m) | m. GoSVM m \<in> ran (tsItems c)
                  \<and> migrationStatusIndexFunc (GoSVM m) = Inr [cls]}"
    unfolding ls(2) s_inv by (auto simp: ran_def)
  ultimately show ?thesis using lr(1) ls(1) by blast
qed

definition cachedMigration :: StorageVersionMigration where
  "cachedMigration =
     \<lparr>svmTypeMeta = zeroTypeMeta, svmMeta = zeroObjectMeta\<lparr>omName := ''m1''\<rparr>,
      svmSpec = \<lparr>specResource = \<lparr>gvrGroup = [], gvrVersion = ''v1'', gvrResource = ''pods''\<rparr>,
                 specContinueToken = []\<rparr>,
      svmStatus = \<lparr>smConditions = []\<rparr>\<rparr>"

theorem informer_store_ByIndex_witness:
  "\<exists>c lr. tsRun [Put ''m1'' (GoSVM cachedMigration)] NewStatusAndResourceIndexedInformer_store = Some c
     \<and> tsByIndex sorted_list_of_set ResourceIndex ''pods.'' c = Inr lr \<and> Some (GoSVM cachedMigration) \<in> set lr"
proof -
  let ?run = "tsRun [Put ''m1'' (GoSVM cachedMigration)] NewStatusAndResourceIndexedInformer_store"
  have "\<not> Option.is_none ?run" by code_simp
  then obtain c where c: "?run = Some c" by (auto simp: Option.is_none_def)
  have "map_option (\<lambda>c. tsItems c ''m1'') ?run = Some (Some (GoSVM cachedMigration))"
    by (simp add: tsUpdate_def c [simplified] split: option.splits)
      (use c in \<open>auto simp: tsUpdate_def split: option.splits\<close>)
  then have "GoSVM cachedMigration \<in> ran (tsItems c)" using c by (auto simp: ran_def)
  moreover have "ToIndex (svmResource cachedMigration) = ''pods.''" by code_simp
  ultimately show ?thesis
    using informer_store_ByIndex [OF enumerates_sorted _ c, of "''pods.''"] c by fastforce
qed

end
