(* ===== verification/Trigger_Correct.thy ===== *)
theory Trigger_Correct
  imports Trigger_Discovery Index_Store
begin

section \<open>Correctness of the trigger\<close>

text \<open>
  The contract \<open>trigger_env\<close> is interpreted on the fake clientset together with the indexed store of
  the informer and a discovery document, and the results about the trigger are stated for every
  server that keeps the contract.
\<close>

subsection \<open>A world for the trigger\<close>

record TriggerWorld =
  twClient :: FakeClientset
  twStore :: "goObject threadSafeMap"
  twDocument :: "APIResourceList list \<times> error option"

definition onClient :: "(FakeClientset, 'a) call \<Rightarrow> (TriggerWorld, 'a) call" where
  "onClient f w = (let (r, t) = f (twClient w) in (r, w\<lparr>twClient := t\<rparr>))"

lemma onClient_eq: "onClient f w = (r, w') \<longleftrightarrow> (\<exists>t. f (twClient w) = (r, t) \<and> w' = w\<lparr>twClient := t\<rparr>)"
  by (auto simp: onClient_def split: prod.splits)

definition worldStates :: "TriggerWorld StorageStateInterface" where
  "worldStates = \<lparr>
     ssCreate = (\<lambda>s. onClient (ssCreate FakeStorageStates s)),
     ssUpdate = (\<lambda>s. onClient (ssUpdate FakeStorageStates s)),
     ssUpdateStatus = (\<lambda>s. onClient (ssUpdateStatus FakeStorageStates s)),
     ssDelete = (\<lambda>n. onClient (ssDelete FakeStorageStates n)),
     ssGet = (\<lambda>n. onClient (ssGet FakeStorageStates n))\<rparr>"

definition worldMigrations :: "TriggerWorld StorageVersionMigrationInterface" where
  "worldMigrations = \<lparr>
     svmCreate = (\<lambda>m. onClient (svmCreate FakeStorageVersionMigrations m)),
     svmUpdate = (\<lambda>m. onClient (svmUpdate FakeStorageVersionMigrations m)),
     svmUpdateStatus = (\<lambda>m. onClient (svmUpdateStatus FakeStorageVersionMigrations m)),
     svmDelete = (\<lambda>n. onClient (svmDelete FakeStorageVersionMigrations n)),
     svmGet = (\<lambda>n. onClient (svmGet FakeStorageVersionMigrations n))\<rparr>"

definition worldRuntime :: "TriggerWorld Runtime" where
  "worldRuntime = \<lparr>
     rtNow = onClient (rtNow clockRuntime),
     rtSleep = (\<lambda>d w. w\<lparr>twClient := rtSleep clockRuntime d (twClient w)\<rparr>),
     rtRand = onClient (rtRand clockRuntime)\<rparr>"

text \<open>The migrations among the objects an index lookup returned; the store holds nothing else.\<close>

fun toMigrations :: "goObject option list \<Rightarrow> StorageVersionMigration list" where
  "toMigrations [] = []"
| "toMigrations (Some (GoSVM m) # l) = m # toMigrations l"
| "toMigrations (x # l) = toMigrations l"

definition worldIndexer :: "TriggerWorld IndexerInterface" where
  "worldIndexer = \<lparr>ixByIndex = (\<lambda>i v w.
     (map_sum id toMigrations (tsByIndex sorted_list_of_set i v (twStore w)), w))\<rparr>"

definition worldDiscovery :: "TriggerWorld DiscoveryInterface" where
  "worldDiscovery = \<lparr>discServerPreferredResources = (\<lambda>w. (twDocument w, w))\<rparr>"

definition worldTrigger :: "TriggerWorld MigrationTrigger" where
  "worldTrigger = \<lparr>mtStates = worldStates, mtMigrations = worldMigrations, mtDiscovery = worldDiscovery,
                   mtIndexer = worldIndexer, mtHeartbeat = zeroTime\<rparr>"

definition world_states :: "TriggerWorld \<Rightarrow> string \<rightharpoonup> StorageState" where
  "world_states w = fake_states (twClient w)"

definition world_migs :: "TriggerWorld \<Rightarrow> string \<rightharpoonup> StorageVersionMigration" where
  "world_migs w = fake_migs (twClient w)"

definition world_wf :: "TriggerWorld \<Rightarrow> bool" where
  "world_wf w = fake_wf (twClient w)"

lemmas world_defs = worldStates_def worldMigrations_def worldRuntime_def worldIndexer_def worldDiscovery_def
  world_states_def world_migs_def world_wf_def onClient_eq

lemma onClient_part: "onClient f = onPart twClient (\<lambda>t w. w\<lparr>twClient := t\<rparr>) f"
  by (simp add: fun_eq_iff onClient_def onPart_def)

lemma worldStates_api: "storage_state_api worldStates world_states world_wf"
proof -
  have "storage_state_api (liftStates twClient (\<lambda>t w. w\<lparr>twClient := t\<rparr>) FakeStorageStates)
      (\<lambda>w. fake_states (twClient w)) (\<lambda>w. fake_wf (twClient w) \<and> True)"
    by (rule liftStates_api [OF fake_ss.storage_state_api_axioms]) simp_all
  then show ?thesis
    by (simp add: liftStates_def worldStates_def onClient_part world_states_def [abs_def] world_wf_def [abs_def])
qed

interpretation world_ss: storage_state_env worldStates world_states world_wf worldRuntime
proof (intro storage_state_env.intro storage_state_env_axioms.intro worldStates_api, goal_cases)
  case (1 w d) then show ?case using fake_ss.ss_sleep [of "twClient w" d] by (simp add: world_defs)
qed (simp add: world_defs onClient_def)

lemma worldMigrations_api: "migration_api worldMigrations world_migs world_wf"
proof -
  have "migration_api (liftMigrations twClient (\<lambda>t w. w\<lparr>twClient := t\<rparr>) FakeStorageVersionMigrations)
      (\<lambda>w. fake_migs (twClient w)) (\<lambda>w. fake_wf (twClient w) \<and> True)"
    by (rule liftMigrations_api [OF fake_svm.migration_api_axioms]) simp_all
  then show ?thesis
    by (simp add: liftMigrations_def worldMigrations_def onClient_part world_migs_def [abs_def] world_wf_def [abs_def])
qed

interpretation world_svm: migration_env worldMigrations world_migs world_wf worldRuntime
proof (intro migration_env.intro migration_env_axioms.intro worldMigrations_api, goal_cases)
  case (1 w d) then show ?case using fake_svm.svm_sleep [of "twClient w" d] by (simp add: world_defs)
next
  case (3 w n e w' m) then show ?case
    using fake_svm_no_timeout [of n "twClient w" e _ m] by (auto simp: world_defs)
qed (simp_all add: world_defs onClient_def)

lemma onClient_snd: "snd (onClient f w) = w\<lparr>twClient := snd (f (twClient w))\<rparr>"
  by (simp add: onClient_def split: prod.splits)

lemma fake_ss_migs:
  assumes "fake_wf w"
  shows "fake_migs (snd (ssGet FakeStorageStates n w)) = fake_migs w"
    "fake_migs (snd (ssCreate FakeStorageStates s w)) = fake_migs w"
    "fake_migs (snd (ssUpdateStatus FakeStorageStates s w)) = fake_migs w"
    "fake_migs (snd (ssDelete FakeStorageStates n w)) = fake_migs w"
  using fake_ss_get [OF assms, of n] fake_ss_create [OF assms, of s] fake_ss_status [OF assms, of s]
    fake_ss_delete [OF assms, of n] by (metis prod.collapse)+

lemma fake_svm_states:
  assumes "fake_wf w"
  shows "fake_states (snd (svmGet FakeStorageVersionMigrations n w)) = fake_states w"
    "fake_states (snd (svmCreate FakeStorageVersionMigrations m w)) = fake_states w"
    "fake_states (snd (svmDelete FakeStorageVersionMigrations n w)) = fake_states w"
  using fake_svm_get [OF assms, of n] fake_svm_create [OF assms, of m] fake_svm_delete [OF assms, of n]
  by (metis prod.collapse)+

interpretation world_trigger: trigger_env worldStates world_states world_wf worldRuntime
    worldMigrations world_migs worldIndexer worldDiscovery
  by unfold_locales
    (auto simp: worldStates_def worldMigrations_def worldRuntime_def worldIndexer_def worldDiscovery_def
      world_states_def world_migs_def world_wf_def onClient_snd unchanged_def fake_ss_migs fake_svm_states)

subsection \<open>Processing the queue keeps the invariant\<close>

context trigger_env
begin

lemma markStorageStateSucceeded_migs:
  assumes wf: "wf w" and mt: "of_trigger mt" and run: "markStorageStateSucceeded rt mt r w = (err, w')"
  shows "migs w' = migs w"
proof -
  let ?n = "storageStateName r"
  let ?P = "\<lambda>(v :: unit, w1). wf w1 \<and> migs w1 = migs w"
  obtain v where e: "ExponentialBackoff rt trigger_backoff (markSucceeded_attempt mt ?n) ((), w) = (err, (v, w'))"
    using run by (auto simp: markStorageStateSucceeded_def split: prod.splits)
  have att: "?P s1" if P: "?P s" and a: "markSucceeded_attempt mt ?n s = ((ok, er), s1)" for s s1 ok er
  proof -
    obtain w1 w2 where s: "s = ((), w1)" "s1 = ((), w2)" by (cases s, cases s1) auto
    have w1: "wf w1" "migs w1 = migs w" using P s by auto
    obtain gr w3 where g: "ssGet sc ?n w1 = (gr, w3)" by (metis surj_pair)
    have w3: "wf w3" "migs w3 = migs w1"
      using ss.ss_get_ok [OF w1(1)] ss.ss_get_err [OF w1(1)] ss_migs(1) [OF w1(1), of ?n] g by (cases gr; auto)+
    have "migs (snd (ssUpdateStatus sc x w3)) = migs w1" for x using ss_migs(3) [OF w3(1)] w3(2) by simp
    then have "migs w2 = migs w1" using a s mt g w3(2)
      by (auto simp: markSucceeded_attempt_def split: sum.splits prod.splits if_splits) (metis snd_conv)+
    then show ?thesis using ss.markSucceeded_attempt_spec [OF w1(1) _ a [unfolded s]] mt s w1(2) by auto
  qed
  have init: "?P ((), w)" using wf by simp
  have "?P (v, w')"
  proof (rule ExponentialBackoff_inv [where P = ?P and Q = "\<lambda>_. ?P", OF trigger_backoff_sel init _ _ _ _ _ e])
    show "?P s1" if "?P s" and "markSucceeded_attempt mt ?n s = ((False, None), s1)" for s s1
      by (rule att [OF that])
    show "?P s1" if "?P s" and "markSucceeded_attempt mt ?n s = ((ok, er), s1)" and "er \<noteq> None \<or> ok"
      for s ok er s1 by (rule att [OF that(1,2)])
    show "?P (v, snd (rtRand rt w1))" if "?P (v, w1)" for v w1 using that svm.svm_rand [of w1] by simp
    show "?P (v, rtSleep rt d w1)" if "?P (v, w1)" for v w1 d using that svm.svm_sleep [of w1 d] by simp
  qed
  then show ?thesis by simp
qed

text \<open>
  What processing a queue item does: nothing, or the state of the resource of a migration
  that the server says has succeeded is marked. It returns nil or such an outcome is pending.
\<close>

lemma processQueue_spec:
  assumes wf: "wf w" and mt: "of_trigger mt" and run: "processQueue rt mt obj w = (err, w')"
  shows "wf w' \<and> migs w' = migs w \<and> (states w' = states w \<or>
    (\<exists>item m. obj = QItem item \<and> migs w (qiName item) = Some m \<and> HasCondition m MigrationSucceeded
       \<and> marked (storageStateName (svmResource m)) (states w) (states w')))"
proof (cases obj)
  case (QOther t)
  then show ?thesis using run wf by simp
next
  case (QItem item)
  obtain gr w1 where g: "svmGet mc (qiName item) w = (gr, w1)" by (metis surj_pair)
  have st: "states w1 = states w" using svm_states(1) [OF wf, of "qiName item"] g by simp
  show ?thesis
  proof (cases gr)
    case (Inl e)
    then show ?thesis using run QItem mt g st svm.svm_get_err [OF wf] by (auto split: if_splits)
  next
    case (Inr m)
    then have w1: "wf w1" "migs w (qiName item) = Some m" "migs w1 = migs w"
      using svm.svm_get_ok [OF wf] g by auto
    have pm: "processMigration rt mt m w1 = (err, w')" using run QItem mt g Inr by simp
    show ?thesis
    proof (cases "HasCondition m MigrationSucceeded")
      case True
      then have mk: "markStorageStateSucceeded rt mt (svmResource m) w1 = (err, w')"
        using pm by (simp add: processMigration_def)
      from ss.markStorageStateSucceeded_spec [OF w1(1) _ mk] markStorageStateSucceeded_migs [OF w1(1) mt mk]
      show ?thesis using mt w1 st QItem True by auto
    next
      case False
      then show ?thesis using pm w1 st by (auto simp: processMigration_def split: if_splits)
    qed
  qed
qed

end

subsection \<open>Example contents\<close>

definition podsAPI :: "string \<Rightarrow> APIResource" where
  "podsAPI h = \<lparr>arName = ''pods'', arGroup = [], arVersion = ''v1'', arVerbs = [], arStorageVersionHash = h\<rparr>"

definition doneMigration :: StorageVersionMigration where
  "doneMigration = exampleMigration\<lparr>svmStatus := \<lparr>smConditions =
     [\<lparr>mcType = MigrationSucceeded, mcStatus = ConditionTrue, mcLastUpdateTime = 0, mcReason = [], mcMessage = []\<rparr>]\<rparr>\<rparr>"

definition triggerClient :: FakeClientset where
  "triggerClient = the (NewSimpleClientset [TSS exampleState, TSVM doneMigration] 100)"

definition triggerWorld :: "string \<Rightarrow> TriggerWorld" where
  "triggerWorld h = \<lparr>twClient = triggerClient,
     twStore = the (tsUpdate ''pods'' (GoSVM doneMigration) NewStatusAndResourceIndexedInformer_store),
     twDocument = ([\<lparr>arlGroupVersion = ''v1'', arlAPIResources = [(podsAPI h)\<lparr>arVersion := []\<rparr>]\<rparr>], None)\<rparr>"

lemma triggerWorld_wf: "world_wf (triggerWorld h)"
proof -
  have "\<not> Option.is_none (NewSimpleClientset [TSS exampleState, TSVM doneMigration] 100)" by code_simp
  then have "NewSimpleClientset [TSS exampleState, TSVM doneMigration] 100 = Some triggerClient"
    by (auto simp: triggerClient_def Option.is_none_def)
  then have "fake_wf triggerClient"
    by (rule NewSimpleClientset_wf [rotated])
      (simp add: doneMigration_def exampleMigration_def exampleState_def zeroObjectMeta_def)
  then show ?thesis by (simp add: world_wf_def triggerWorld_def)
qed

lemma triggerWorld_state: "world_states (triggerWorld h) ''pods'' = Some exampleState"
proof -
  have "tGet storagestatesResource [] ''pods'' (fcTracker triggerClient) = Inr (TSS exampleState)" by code_simp
  then show ?thesis using fake_states_Some [of triggerClient "''pods''" exampleState]
      triggerWorld_wf [of h] by (simp add: world_states_def triggerWorld_def world_wf_def tGet_view split: option.splits)
qed

lemma worldTrigger_sel [simp]:
  "mtStates worldTrigger = worldStates" "mtMigrations worldTrigger = worldMigrations"
  "mtIndexer worldTrigger = worldIndexer" "mtDiscovery worldTrigger = worldDiscovery"
  "mtHeartbeat worldTrigger = zeroTime"
  by (simp_all add: worldTrigger_def)

subsection \<open>The properties\<close>

text \<open>
  C9. What an update of a StorageState achieves. When \<open>updateStorageState\<close> returns without an
  error, the state of the resource exists with the discovered hash as its current one and
  the heartbeat of this discovery. Its persisted hashes are those from before, with the new
  hash appended if the current hash changed, or \<open>Unknown\<close> if there were none. Every other state
  is unchanged, and retries after lost answers do not append the hash twice.
\<close>

theorem updateStorageState_advances:
  assumes "storage_state_env c states valid rt" and "valid w" and "mtStates mt = c"
    and "updateStorageState rt mt h r w = (None, w')"
  shows "\<exists>new. states w' = (states w)(storageStateName (toGroupResource r) \<mapsto> new)
     \<and> CurrentStorageVersionHash (ssStatus new) = h \<and> LastHeartbeatTime (ssStatus new) = mtHeartbeat mt
     \<and> PersistedStorageVersionHashes (ssStatus new) =
         (let old = baseStatus (states w) (storageStateName (toGroupResource r)) in
          if CurrentStorageVersionHash old = h then PersistedStorageVersionHashes old
          else if PersistedStorageVersionHashes old = [] then [Unknown]
          else PersistedStorageVersionHashes old @ [h])"
proof -
  let ?n = "storageStateName (toGroupResource r)"
  have "advanced ?n h (mtHeartbeat mt) (states w) (states w')"
    using storage_state_env.updateStorageState_spec [OF assms] by simp
  then obtain new where "states w' = (states w)(?n \<mapsto> new)"
      "ssStatus new = advance h (mtHeartbeat mt) (baseStatus (states w) ?n)"
    by (auto simp: advanced_def stored_as_def)
  then show ?thesis by (intro exI [of _ new]) (auto simp: advance_def Let_def)
qed

theorem updateStorageState_advances_witness:
  "\<exists>w' new. updateStorageState worldRuntime worldTrigger ''h2'' (podsAPI ''h2'') (triggerWorld ''h2'') = (None, w')
     \<and> world_states w' ''pods'' = Some new \<and> PersistedStorageVersionHashes (ssStatus new) = [''h1'', ''h2'']"
proof -
  let ?u = "updateStorageState worldRuntime worldTrigger ''h2'' (podsAPI ''h2'') (triggerWorld ''h2'')"
  have "Option.is_none (fst ?u)" by code_simp
  then have u: "?u = (None, snd ?u)" by (cases ?u) (simp add: Option.is_none_def)
  have n: "storageStateName (toGroupResource (podsAPI ''h2'')) = ''pods''" by code_simp
  from updateStorageState_advances [OF world_ss.storage_state_env_axioms triggerWorld_wf worldTrigger_sel(1) u]
  obtain new where "world_states (snd ?u) ''pods'' = Some new"
      "PersistedStorageVersionHashes (ssStatus new) = [''h1'', ''h2'']"
    by (auto simp: n baseStatus_def triggerWorld_state exampleState_def Let_def)
  with u show ?thesis by blast
qed

lemma triggerWorld_ok: "states_ok (world_states (triggerWorld h))"
proof -
  have only: "world_states (triggerWorld h) n = None" if "n \<noteq> ''pods''" for n
    using that by (simp add: world_states_def triggerWorld_def triggerClient_def fake_states_def NewSimpleClientset_def
        tAdd_def tAdd_obj_def tNotify_def view_def exampleState_def doneMigration_def exampleMigration_def
        zeroObjectMeta_def Let_def root_namespace)
  have "hashes_ok (ssStatus exampleState)" by code_simp
  then show ?thesis
    using only triggerWorld_state unfolding states_ok_def by (metis option.distinct(1) option.inject)
qed

text \<open>
  C12. The hashes invariant. A discovery round (all resources, any answers of the server, stale
  states deleted and recreated, failed calls) keeps the invariant that every StorageState
  lists its current hash, or \<open>Unknown\<close>, among the persisted hashes.
\<close>

theorem processDiscovery_keeps_hashes:
  assumes "trigger_env sc states valid rt mc migs ix dc" and "valid w"
    and "mtStates mt = sc" "mtMigrations mt = mc" "mtIndexer mt = ix" "mtDiscovery mt = dc"
    and "states_ok (states w)" and "processDiscovery rt mt w = (mt', w')"
  shows "states_ok (states w')"
  using trigger_env.processDiscovery_ok [OF assms(1,2) _ assms(7,8)] assms(3-6) by simp

theorem processDiscovery_keeps_hashes_witness:
  "states_ok (world_states (snd (processDiscovery worldRuntime worldTrigger (triggerWorld ''h2''))))"
proof -
  from processDiscovery_keeps_hashes [OF world_trigger.trigger_env_axioms triggerWorld_wf
      worldTrigger_sel(1-4) triggerWorld_ok surjective_pairing]
  show ?thesis .
qed

text \<open>
  C13. No needless migrations. For a resource whose StorageState is fresh, has the discovered hash
  and has been migrated, discovery neither creates nor deletes a migration.
\<close>

theorem discovery_leaves_migrated_alone:
  assumes "trigger_env sc states valid rt mc migs ix dc" and "valid w"
    and "mtStates mt = sc" "mtMigrations mt = mc" "mtIndexer mt = ix" "mtDiscovery mt = dc"
    and "states w (storageStateName (toGroupResource r)) = Some s" and "\<not> staleStorageState mt s"
    and "CurrentStorageVersionHash (ssStatus s) = arStorageVersionHash r" and "isMigrated s"
  shows "migs (processDiscoveryResource rt mt r w) = migs w"
  using trigger_env.processDiscoveryResource_steady [OF assms(1,2) _ assms(7-10)] assms(3-6) by simp

theorem discovery_leaves_migrated_alone_witness:
  "world_migs (processDiscoveryResource worldRuntime worldTrigger (podsAPI ''h1'') (triggerWorld ''h1''))
     = world_migs (triggerWorld ''h1'')"
proof (rule discovery_leaves_migrated_alone [OF world_trigger.trigger_env_axioms triggerWorld_wf
      worldTrigger_sel(1-4)])
  show "world_states (triggerWorld ''h1'') (storageStateName (toGroupResource (podsAPI ''h1''))) = Some exampleState"
    using triggerWorld_state by (simp add: storageStateName_def toGroupResource_def podsAPI_def)
qed code_simp+

text \<open>
  C14. A relaunch replaces the cached migrations of the resource by one fresh one. When it
  succeeds, all migrations that the cache listed for the resource are deleted, one migration
  without conditions is created for it under an unused name, and nothing else changed.
\<close>

theorem relaunchMigration_replaces:
  assumes "trigger_env sc states valid rt mc migs ix dc" and "valid w"
    and "mtStates mt = sc" "mtMigrations mt = mc" "mtIndexer mt = ix" "mtDiscovery mt = dc"
    and "relaunchMigration mt r w = (None, w')"
  shows "\<exists>l w0 m'. ixByIndex ix ResourceIndex (ToIndex (toGroupResource r)) w = (Inr l, w0)
     \<and> svmResource m' = toGroupResource r \<and> svmConditions m' = []
     \<and> svmName m' \<notin> dom (migs w |` (- svmName ` set l))
     \<and> migs w' = (migs w |` (- svmName ` set l))(svmName m' \<mapsto> m') \<and> states w' = states w"
proof -
  obtain l w0 m' where "ixByIndex ix ResourceIndex (ToIndex (toGroupResource r)) w = (Inr l, w0)"
      "post_mig (migs w |` (- svmName ` set l)) (newMigration (toGroupResource r)) m' (migs w')"
      "states w' = states w"
    using trigger_env.relaunchMigration_spec [OF assms(1,2) _ assms(7)] assms(3-6) by auto
  then show ?thesis
    by (intro exI [of _ l] exI [of _ w0] exI [of _ m']) (auto simp: post_mig_def newMigration_def restrict_map_def split: if_splits)
qed

theorem relaunchMigration_replaces_witness:
  "\<exists>w' m'. relaunchMigration worldTrigger (podsAPI ''h2'') (triggerWorld ''h2'') = (None, w')
     \<and> svmResource m' = toGroupResource (podsAPI ''h2'') \<and> svmConditions m' = [] \<and> world_migs w' (svmName m') = Some m'"
proof -
  let ?u = "relaunchMigration worldTrigger (podsAPI ''h2'') (triggerWorld ''h2'')"
  have "Option.is_none (fst ?u)" by code_simp
  then have u: "?u = (None, snd ?u)" by (cases ?u) (simp add: Option.is_none_def)
  from relaunchMigration_replaces [OF world_trigger.trigger_env_axioms triggerWorld_wf worldTrigger_sel(1-4) u] u
  show ?thesis by (metis fun_upd_same)
qed

end
