(* ===== verification/Work_Queue.thy ===== *)
theory Work_Queue
  imports Prelude
begin

section \<open>The work queue\<close>

text \<open>
  The vendored \<open>client-go/util/workqueue\<close>, as the trigger uses it: the queue proper (\<open>queue.go\<close>), the
  delayed additions (\<open>delaying_queue.go\<close>) and the rate limiter (\<open>default_rate_limiters.go\<close>). Every method
  holds the lock of the queue, so a method is one atomic operation. The metrics of the queue
  are left out. \<open>wqWaiting\<close> holds the items whose delay has not passed; the clock decides when
  \<open>wqReady\<close> adds one of them.
\<close>

record 'a WorkQueue =
  wqQueue :: "'a list"
  wqDirty :: "'a set"
  wqProcessing :: "'a set"
  wqShuttingDown :: bool
  wqDrain :: bool
  wqWaiting :: "'a list"
  wqFailures :: "'a \<Rightarrow> nat"

definition newQueue :: "'a WorkQueue" where
  "newQueue = \<lparr>wqQueue = [], wqDirty = {}, wqProcessing = {}, wqShuttingDown = False, wqDrain = False,
               wqWaiting = [], wqFailures = (\<lambda>_. 0)\<rparr>"

definition wqAdd :: "'a \<Rightarrow> 'a WorkQueue \<Rightarrow> 'a WorkQueue" where
  "wqAdd item q =
     (if wqShuttingDown q then q
      else if item \<in> wqDirty q then q
      else
        (let q1 = q\<lparr>wqDirty := insert item (wqDirty q)\<rparr> in
         if item \<in> wqProcessing q1 then q1 else q1\<lparr>wqQueue := wqQueue q1 @ [item]\<rparr>))"

definition wqLen :: "'a WorkQueue \<Rightarrow> nat" where
  "wqLen q = length (wqQueue q)"

text \<open>\<open>Get\<close> blocks (\<open>None\<close>) on an empty queue that is not shutting down; a nil item says shutdown.\<close>

definition wqGet :: "'a WorkQueue \<Rightarrow> ('a option \<times> 'a WorkQueue) option" where
  "wqGet q =
     (case wqQueue q of
        [] \<Rightarrow> if wqShuttingDown q then Some (None, q) else None
      | item # rest \<Rightarrow>
          Some (Some item, q\<lparr>wqQueue := rest, wqProcessing := insert item (wqProcessing q),
                             wqDirty := wqDirty q - {item}\<rparr>))"

definition wqDone :: "'a \<Rightarrow> 'a WorkQueue \<Rightarrow> 'a WorkQueue" where
  "wqDone item q =
     (let q1 = q\<lparr>wqProcessing := wqProcessing q - {item}\<rparr> in
      if item \<in> wqDirty q1 then q1\<lparr>wqQueue := wqQueue q1 @ [item]\<rparr> else q1)"

definition wqShutDown :: "'a WorkQueue \<Rightarrow> 'a WorkQueue" where
  "wqShutDown q = q\<lparr>wqDrain := False, wqShuttingDown := True\<rparr>"

subsection \<open>Rate limited additions\<close>

text \<open>
  \<open>ItemExponentialFailureRateLimiter\<close>: the delay doubles with every failure of the item. The product
  is a \<open>float64\<close>; powers of two times the base are exact there until the comparison with
  \<open>math.MaxInt64\<close> cuts them off.
\<close>

definition maxInt64 :: int where "maxInt64 = 2 ^ 63 - 1"

definition itemWhen :: "Duration \<Rightarrow> Duration \<Rightarrow> nat \<Rightarrow> Duration" where
  "itemWhen baseDelay maxDelay exp =
     (let backoff = baseDelay * 2 ^ exp in
      if backoff > maxInt64 then maxDelay else if backoff > maxDelay then maxDelay else backoff)"

text \<open>
  \<open>DefaultControllerRateLimiter\<close>: the larger of the item's delay and what the token bucket asks for,
  which is a parameter (the bucket is code outside the repository, \<open>golang.org/x/time/rate\<close>).
\<close>

definition defaultWhen :: "Duration \<Rightarrow> nat \<Rightarrow> Duration" where
  "defaultWhen bucket exp = max (max 0 (itemWhen (5 * millisecond) (1000 * second) exp)) bucket"

definition wqAddAfter :: "'a \<Rightarrow> Duration \<Rightarrow> 'a WorkQueue \<Rightarrow> 'a WorkQueue" where
  "wqAddAfter item duration q =
     (if wqShuttingDown q then q
      else if duration \<le> 0 then wqAdd item q
      else q\<lparr>wqWaiting := wqWaiting q @ [item]\<rparr>)"

definition wqAddRateLimited :: "Duration \<Rightarrow> 'a \<Rightarrow> 'a WorkQueue \<Rightarrow> 'a WorkQueue" where
  "wqAddRateLimited bucket item q =
     (let d = defaultWhen bucket (wqFailures q item)
      in wqAddAfter item d (q\<lparr>wqFailures := (wqFailures q)(item := wqFailures q item + 1)\<rparr>))"

definition wqForget :: "'a \<Rightarrow> 'a WorkQueue \<Rightarrow> 'a WorkQueue" where
  "wqForget item q = q\<lparr>wqFailures := (wqFailures q)(item := 0)\<rparr>"

text \<open>The waiting loop adds an item whose time has come.\<close>

definition wqReady :: "'a \<Rightarrow> 'a WorkQueue \<Rightarrow> 'a WorkQueue" where
  "wqReady item q =
     (if item \<in> set (wqWaiting q) then wqAdd item (q\<lparr>wqWaiting := remove1 item (wqWaiting q)\<rparr>) else q)"

subsection \<open>The contract of a work queue\<close>

text \<open>
  What the package documents: an item is pending or not and active or not; additions make it
  pending, \<open>Get\<close> hands out a pending item that is not active and makes it active, \<open>Done\<close> ends
  that. Nothing is lost and no item is active twice.
\<close>

locale work_queue =
  fixes inv :: "'q \<Rightarrow> bool" and pending :: "'q \<Rightarrow> 'a set" and active :: "'q \<Rightarrow> 'a set" and closed :: "'q \<Rightarrow> bool"
    and add :: "'a \<Rightarrow> 'q \<Rightarrow> 'q" and take :: "'q \<Rightarrow> ('a option \<times> 'q) option" and finish :: "'a \<Rightarrow> 'q \<Rightarrow> 'q"
  assumes add_law: "inv q \<Longrightarrow> inv (add x q) \<and> active (add x q) = active q \<and> closed (add x q) = closed q
             \<and> pending (add x q) = (if closed q then pending q else insert x (pending q))"
    and take_law: "inv q \<Longrightarrow> take q = Some (Some x, q') \<Longrightarrow> inv q' \<and> x \<in> pending q \<and> x \<notin> active q
             \<and> pending q' = pending q - {x} \<and> active q' = insert x (active q) \<and> closed q' = closed q"
    and take_end: "inv q \<Longrightarrow> take q = Some (None, q') \<Longrightarrow> q' = q \<and> closed q"
    and take_some: "inv q \<Longrightarrow> pending q - active q \<noteq> {} \<Longrightarrow> \<exists>x q'. take q = Some (Some x, q')"
    and finish_law: "inv q \<Longrightarrow> x \<in> active q \<Longrightarrow> inv (finish x q) \<and> active (finish x q) = active q - {x}
             \<and> pending (finish x q) = pending q \<and> closed (finish x q) = closed q"
begin

text \<open>An item that is active is not handed out again, however often it is added.\<close>

lemma active_not_taken: "inv q \<Longrightarrow> x \<in> active q \<Longrightarrow> take (add x q) \<noteq> Some (Some x, q')"
  using add_law take_law by blast

text \<open>An item that was added while it was active is handed out after it is finished.\<close>

lemma added_then_finished:
  assumes "inv q" and "\<not> closed q" and "x \<in> active q"
  shows "\<exists>y q'. take (finish x (add x q)) = Some (Some y, q')"
proof -
  have i: "inv (add x q)" and p: "x \<in> pending (add x q)" and a: "x \<in> active (add x q)"
    using add_law [OF assms(1), of x] assms(2,3) by auto
  then have "x \<in> pending (finish x (add x q)) - active (finish x (add x q))"
    using finish_law [OF i a] by auto
  then show ?thesis using take_some finish_law [OF i a] by blast
qed

end

definition wq_inv :: "'a WorkQueue \<Rightarrow> bool" where
  "wq_inv q \<longleftrightarrow> distinct (wqQueue q) \<and> set (wqQueue q) = wqDirty q - wqProcessing q"

lemma wq_inv_new: "wq_inv newQueue"
  by (simp add: wq_inv_def newQueue_def)

interpretation wq: work_queue wq_inv wqDirty wqProcessing wqShuttingDown wqAdd wqGet wqDone
proof (unfold_locales, goal_cases)
  case (1 q x) then show ?case by (auto simp: wq_inv_def wqAdd_def Let_def)
next
  case (2 q x q')
  then obtain rest where q: "wqQueue q = x # rest" by (auto simp: wqGet_def split: list.splits if_splits)
  have d: "distinct (x # rest)" and e: "insert x (set rest) = wqDirty q - wqProcessing q"
    using 2(1) q by (simp_all add: wq_inv_def)
  then have "set rest = wqDirty q - {x} - insert x (wqProcessing q)" by auto
  moreover have "q' = q\<lparr>wqQueue := rest, wqProcessing := insert x (wqProcessing q), wqDirty := wqDirty q - {x}\<rparr>"
    using 2(2) q by (simp add: wqGet_def)
  ultimately show ?case using d e by (auto simp: wq_inv_def)
next
  case (3 q q') then show ?case by (auto simp: wqGet_def split: list.splits if_splits)
next
  case (4 q)
  then obtain x rest where "wqQueue q = x # rest" by (cases "wqQueue q") (auto simp: wq_inv_def)
  then show ?case by (simp add: wqGet_def)
next
  case (5 q x) then show ?case by (auto simp: wq_inv_def wqDone_def Let_def)
qed

lemma wq_other_ops [simp]:
  "wq_inv (wqForget x q) = wq_inv q" "wqProcessing (wqForget x q) = wqProcessing q"
  "wqDirty (wqForget x q) = wqDirty q" "wqShuttingDown (wqForget x q) = wqShuttingDown q"
  by (simp_all add: wq_inv_def wqForget_def)

lemma wq_upd_inv [simp]:
  "wq_inv (q\<lparr>wqWaiting := ws\<rparr>) = wq_inv q" "wq_inv (q\<lparr>wqFailures := f\<rparr>) = wq_inv q"
  by (simp_all add: wq_inv_def)

lemma wqAddAfter_inv:
  assumes "wq_inv q"
  shows "wq_inv (wqAddAfter x d q) \<and> wqProcessing (wqAddAfter x d q) = wqProcessing q"
  using wq.add_law [OF assms, of x] assms by (simp add: wqAddAfter_def)

lemma wqAddRateLimited_inv:
  assumes "wq_inv q"
  shows "wq_inv (wqAddRateLimited b x q) \<and> wqProcessing (wqAddRateLimited b x q) = wqProcessing q"
  using wqAddAfter_inv [of "q\<lparr>wqFailures := (wqFailures q)(x := wqFailures q x + 1)\<rparr>" x] assms
  by (simp add: wqAddRateLimited_def Let_def)

lemma wqReady_inv:
  assumes "wq_inv q"
  shows "wq_inv (wqReady x q) \<and> wqProcessing (wqReady x q) = wqProcessing q"
  using wq.add_law [of "q\<lparr>wqWaiting := remove1 x (wqWaiting q)\<rparr>" x] assms by (simp add: wqReady_def)


text \<open>The states that the methods of the queue reach.\<close>

inductive wqReach :: "'a WorkQueue \<Rightarrow> bool" where
  init: "wqReach newQueue"
| add: "wqReach q \<Longrightarrow> wqReach (wqAdd x q)"
| get: "wqReach q \<Longrightarrow> wqGet q = Some (r, q') \<Longrightarrow> wqReach q'"
| fin: "wqReach q \<Longrightarrow> x \<in> wqProcessing q \<Longrightarrow> wqReach (wqDone x q)"
| limited: "wqReach q \<Longrightarrow> wqReach (wqAddRateLimited b x q)"
| ready: "wqReach q \<Longrightarrow> wqReach (wqReady x q)"
| forget: "wqReach q \<Longrightarrow> wqReach (wqForget x q)"
| shut: "wqReach q \<Longrightarrow> wqReach (wqShutDown q)"

lemma wqReach_inv: "wqReach q \<Longrightarrow> wq_inv q"
proof (induction rule: wqReach.induct)
  case (get q r q')
  then show ?case using wq.take_law [of q _ q'] wq.take_end [of q q'] by (cases r) auto
next
  case (shut q)
  then show ?case by (simp add: wq_inv_def wqShutDown_def)
qed (auto simp: wq_inv_new wq.add_law wq.finish_law wqAddRateLimited_inv wqReady_inv)



end
