(* ===== verification/Trigger_Controller.thy ===== *)
theory Trigger_Controller
  imports Trigger_Correct Work_Queue
begin

section \<open>The trigger: event handlers and the main loop\<close>

text \<open>
  \<open>pkg/trigger/controller.go\<close>: the informer's goroutine calls the event handlers, which add queue items;
  the goroutine of \<open>dequeue\<close> moves items from the work queue to the channel \<open>work\<close>; the loop
  of \<open>Run\<close> serves the discovery ticker and the channel, one at a time, until its context is
  cancelled. A step of the relation below is one of these actions. The work queue holds pointers:
  every call of \<open>enqueueResource\<close> allocates a new \<open>queueItem\<close>, so an item is its address and what
  it points to. \<open>trDeferred\<close> is the stack of deferred calls of \<open>mt.queue.Done\<close>.
\<close>

type_synonym itemPtr = "nat \<times> queueObject"

record 'w TriggerRun =
  trTrigger :: "'w MigrationTrigger"
  trQueue :: "itemPtr WorkQueue"
  trNext :: nat
  trWork :: "itemPtr option" \<comment> \<open>held by the goroutine of \<open>dequeue\<close> at the send on \<open>work\<close>\<close>
  trDeferred :: "itemPtr list"
  trStarted :: bool
  trReturned :: bool
  trWorld :: 'w

definition NewMigrationTrigger :: "'w MigrationTrigger \<Rightarrow> 'w \<Rightarrow> 'w TriggerRun" where
  "NewMigrationTrigger mt w =
     \<lparr>trTrigger = mt, trQueue = newQueue, trNext = 0, trWork = None, trDeferred = [],
      trStarted = False, trReturned = False, trWorld = w\<rparr>"

subsection \<open>Event handlers\<close>

definition enqueueResource :: "StorageVersionMigration \<Rightarrow> 'w TriggerRun \<Rightarrow> 'w TriggerRun" where
  "enqueueResource m s =
     (let it = (trNext s, QItem \<lparr>qiNamespace = omNamespace (svmMeta m), qiName = svmName m,
                                 qiResource = svmResource m\<rparr>)
      in s\<lparr>trQueue := wqAdd it (trQueue s), trNext := Suc (trNext s)\<rparr>)"

fun addResource :: "goObject \<Rightarrow> 'w TriggerRun \<Rightarrow> 'w TriggerRun" where
  "addResource (GoSVM m) s = enqueueResource m s"
| "addResource obj s = s"

fun deleteResource :: "goObject \<Rightarrow> 'w TriggerRun \<Rightarrow> 'w TriggerRun" where
  "deleteResource (GoSVM m) s = enqueueResource m s"
| "deleteResource (GoTombstone key (GoSVM m)) s = enqueueResource m s"
| "deleteResource obj s = s"

definition updateResource :: "goObject \<Rightarrow> goObject \<Rightarrow> 'w TriggerRun \<Rightarrow> 'w TriggerRun" where
  "updateResource oldObj obj s = addResource obj s"

subsection \<open>The main loop\<close>

definition dequeue :: "'w TriggerRun \<Rightarrow> 'w TriggerRun option" where
  "dequeue s =
     (case wqGet (trQueue s) of
        Some (Some item, q) \<Rightarrow> Some (s\<lparr>trQueue := q, trWork := Some item\<rparr>)
      | _ \<Rightarrow> None)"

definition runDiscovery :: "'w Runtime \<Rightarrow> 'w TriggerRun \<Rightarrow> 'w TriggerRun" where
  "runDiscovery rt s =
     (let (mt, w) = processDiscovery rt (trTrigger s) (trWorld s)
      in s\<lparr>trTrigger := mt, trWorld := w\<rparr>)"

text \<open>The case \<open>w := <-work\<close> of the select.\<close>

definition runWork :: "'w Runtime \<Rightarrow> Duration \<Rightarrow> itemPtr \<Rightarrow> 'w TriggerRun \<Rightarrow> 'w TriggerRun" where
  "runWork rt bucket it s =
     (let (err, w) = processQueue rt (trTrigger s) (snd it) (trWorld s);
          s1 = s\<lparr>trDeferred := it # trDeferred s, trWork := None, trWorld := w\<rparr>
      in if err = None then s1\<lparr>trQueue := wqForget it (trQueue s1)\<rparr>
         else s1\<lparr>trQueue := wqAddRateLimited bucket it (trQueue s1)\<rparr>)"

definition triggerReturn :: "'w TriggerRun \<Rightarrow> 'w TriggerRun" where
  "triggerReturn s =
     s\<lparr>trQueue := fold wqDone (trDeferred s) (trQueue s), trDeferred := [], trReturned := True\<rparr>"

text \<open>
  \<open>E\<close> is what other clients of the server may do to the world at any time. After \<open>Run\<close> returned, only
  the informer and the waiting loop of the queue still run.
\<close>

inductive triggerStep ::
    "'w Runtime \<Rightarrow> ('w \<Rightarrow> 'w \<Rightarrow> bool) \<Rightarrow> 'w TriggerRun \<Rightarrow> 'w TriggerRun \<Rightarrow> bool"
  for rt E where
  added: "triggerStep rt E s (addResource obj s)"
| updated: "triggerStep rt E s (updateResource old obj s)"
| deleted: "triggerStep rt E s (deleteResource obj s)"
| waited: "triggerStep rt E s (s\<lparr>trQueue := wqReady it (trQueue s)\<rparr>)"
| others: "E (trWorld s) w \<Longrightarrow> triggerStep rt E s (s\<lparr>trWorld := w\<rparr>)"
| start: "\<not> trStarted s \<Longrightarrow> \<not> trReturned s \<Longrightarrow> triggerStep rt E s (runDiscovery rt (s\<lparr>trStarted := True\<rparr>))"
| unsynced: "\<not> trStarted s \<Longrightarrow> triggerStep rt E s (s\<lparr>trReturned := True\<rparr>)"
| dequeued: "trStarted s \<Longrightarrow> trWork s = None \<Longrightarrow> dequeue s = Some s' \<Longrightarrow> triggerStep rt E s s'"
| ticked: "trStarted s \<Longrightarrow> \<not> trReturned s \<Longrightarrow> triggerStep rt E s (runDiscovery rt s)"
| worked: "trStarted s \<Longrightarrow> \<not> trReturned s \<Longrightarrow> trWork s = Some it \<Longrightarrow> triggerStep rt E s (runWork rt bucket it s)"
| cancelled: "trStarted s \<Longrightarrow> \<not> trReturned s \<Longrightarrow> triggerStep rt E s (triggerReturn s)"

inductive_cases triggerStepE: "triggerStep rt E s s'"

abbreviation triggerSteps ::
    "'w Runtime \<Rightarrow> ('w \<Rightarrow> 'w \<Rightarrow> bool) \<Rightarrow> 'w TriggerRun \<Rightarrow> 'w TriggerRun \<Rightarrow> bool" where
  "triggerSteps rt E \<equiv> (triggerStep rt E)\<^sup>*\<^sup>*"

subsection \<open>Items are processed once\<close>

text \<open>
  While \<open>Run\<close> is running, every item that was handed to it is still in the processing set of the
  queue, since \<open>Done\<close> is only called when \<open>Run\<close> returns.
\<close>

definition queueInv :: "'w TriggerRun \<Rightarrow> bool" where
  "queueInv s \<longleftrightarrow> trReturned s \<or>
     (wq_inv (trQueue s) \<and> set (trDeferred s) \<union> set_option (trWork s) \<subseteq> wqProcessing (trQueue s)
      \<and> distinct (trDeferred s) \<and> (\<forall>it. trWork s = Some it \<longrightarrow> it \<notin> set (trDeferred s)))"

lemma enqueueResource_sel [simp]:
  "trDeferred (enqueueResource m s) = trDeferred s" "trWork (enqueueResource m s) = trWork s"
  "trReturned (enqueueResource m s) = trReturned s" "trStarted (enqueueResource m s) = trStarted s"
  "trWorld (enqueueResource m s) = trWorld s" "trTrigger (enqueueResource m s) = trTrigger s"
  by (simp_all add: enqueueResource_def Let_def)

lemma queueInv_enqueue: "queueInv s \<Longrightarrow> queueInv (enqueueResource m s)"
  using wq.add_law [of "trQueue s"] by (auto simp: queueInv_def enqueueResource_def Let_def)

lemma queueInv_add: "queueInv s \<Longrightarrow> queueInv (addResource obj s)"
  by (cases obj) (simp_all add: queueInv_enqueue)

lemma queueInv_delete: "queueInv s \<Longrightarrow> queueInv (deleteResource obj s)"
  by (cases "(obj, s)" rule: deleteResource.cases) (simp_all add: queueInv_enqueue)

lemma runDiscovery_sel [simp]:
  "trQueue (runDiscovery rt s) = trQueue s" "trDeferred (runDiscovery rt s) = trDeferred s"
  "trWork (runDiscovery rt s) = trWork s" "trReturned (runDiscovery rt s) = trReturned s"
  "trStarted (runDiscovery rt s) = trStarted s"
  by (simp_all add: runDiscovery_def split: prod.splits)

lemma queueInv_work:
  assumes "queueInv s" and "\<not> trReturned s" and "trWork s = Some it"
  shows "queueInv (runWork rt bucket it s)"
proof -
  have i: "wq_inv (trQueue s)" using assms by (simp add: queueInv_def)
  then show ?thesis using assms wqAddRateLimited_inv [OF i, of bucket it]
    by (auto simp: queueInv_def runWork_def Let_def split: prod.splits)
qed

lemma queueInv_step:
  assumes "triggerStep rt E s s'" and "queueInv s"
  shows "queueInv s'"
  using assms(1)
proof (cases rule: triggerStep.cases)
  case (added obj) then show ?thesis using assms(2) queueInv_add by simp
next
  case (updated old obj) then show ?thesis using assms(2) queueInv_add by (simp add: updateResource_def)
next
  case (deleted obj) then show ?thesis using assms(2) queueInv_delete by simp
next
  case (waited it) then show ?thesis using assms(2) wqReady_inv [of "trQueue s" it] by (auto simp: queueInv_def)
next
  case dequeued
  then obtain it q where g: "wqGet (trQueue s) = Some (Some it, q)" "s' = s\<lparr>trQueue := q, trWork := Some it\<rparr>"
    by (auto simp: dequeue_def split: option.splits)
  show ?thesis
  proof (cases "trReturned s")
    case True
    then show ?thesis using g by (simp add: queueInv_def)
  next
    case False
    then have i: "wq_inv (trQueue s)" "set (trDeferred s) \<subseteq> wqProcessing (trQueue s)" "distinct (trDeferred s)"
      using assms(2) by (auto simp: queueInv_def)
    show ?thesis using wq.take_law [OF i(1) g(1)] i g(2) by (auto simp: queueInv_def)
  qed
next
  case (worked it bucket) then show ?thesis using assms(2) queueInv_work by blast
qed (use assms(2) in \<open>auto simp: queueInv_def triggerReturn_def\<close>)

lemma queueInv_init: "queueInv (NewMigrationTrigger mt w)"
  by (simp add: queueInv_def NewMigrationTrigger_def wq_inv_new)

lemma queueInv_reachable: "triggerSteps rt E (NewMigrationTrigger mt w) s \<Longrightarrow> queueInv s"
  by (induction rule: rtranclp_induct) (auto intro: queueInv_init queueInv_step)

subsection \<open>The invariant of the states along every run\<close>

context trigger_env
begin

abbreviation safe :: "'w TriggerRun \<Rightarrow> bool" where
  "safe s \<equiv> wf (trWorld s) \<and> of_trigger (trTrigger s) \<and> states_ok (states (trWorld s))"

lemma safe_work:
  assumes "safe s"
  shows "safe (runWork rt b it s)"
proof -
  obtain err w where p: "processQueue rt (trTrigger s) (snd it) (trWorld s) = (err, w)" by (metis surj_pair)
  have "wf w \<and> states_ok (states w)"
    using processQueue_spec [OF _ _ p] assms by (auto dest: marked_ok)
  then show ?thesis using assms p by (simp add: runWork_def Let_def)
qed

lemma safe_discovery:
  assumes "safe s"
  shows "safe (runDiscovery rt s)"
proof -
  obtain mt w where p: "processDiscovery rt (trTrigger s) (trWorld s) = (mt, w)" by (metis surj_pair)
  then show ?thesis using processDiscovery_ok [OF _ _ _ p] assms by (simp add: runDiscovery_def)
qed

lemma safe_step:
  assumes "triggerStep rt E s s'" and "safe s"
    and E: "\<And>w w'. wf w \<Longrightarrow> states_ok (states w) \<Longrightarrow> E w w' \<Longrightarrow> wf w' \<and> states_ok (states w')"
  shows "safe s'"
  using assms(1)
proof (cases rule: triggerStep.cases)
  case (added obj) then show ?thesis using assms(2) by (cases obj) auto
next
  case (updated old obj) then show ?thesis using assms(2) by (cases obj) (auto simp: updateResource_def)
next
  case (deleted obj)
  then show ?thesis using assms(2) by (cases "(obj, s)" rule: deleteResource.cases) auto
next
  case (others w) then show ?thesis using assms(2) E by auto
next
  case start
  have "safe (s\<lparr>trStarted := True\<rparr>)" using assms(2) by simp
  then show ?thesis using start safe_discovery by simp
next
  case dequeued then show ?thesis using assms(2) by (auto simp: dequeue_def split: option.splits)
next
  case ticked then show ?thesis using assms(2) safe_discovery by simp
next
  case (worked it b) then show ?thesis using assms(2) safe_work by simp
qed (use assms(2) in \<open>auto simp: triggerReturn_def\<close>)

end

subsection \<open>The properties\<close>


text \<open>
  C20. A queue item is processed at most once. While \<open>Run\<close> is running, the next item it receives is
  never one it has received before: an item whose processing failed and that was added again
  with \<open>AddRateLimited\<close> is not retried, because \<open>Done\<close> is deferred until \<open>Run\<close> returns.
\<close>

theorem failed_item_never_retried:
  assumes "triggerSteps rt E (NewMigrationTrigger mt w) s" and "\<not> trReturned s"
    and "trWork s = Some it"
  shows "it \<notin> set (trDeferred s) \<and> set (trDeferred s) \<subseteq> wqProcessing (trQueue s)"
  using queueInv_reachable [OF assms(1)] assms(2,3) by (auto simp: queueInv_def)

text \<open>A run in which the item of the example migration reaches the channel.\<close>

definition exampleRun :: "TriggerWorld TriggerRun" where
  "exampleRun = NewMigrationTrigger worldTrigger (triggerWorld ''h1'')"

lemma wqGet_added:
  "wqQueue q = [] \<Longrightarrow> \<not> wqShuttingDown q \<Longrightarrow> it \<notin> wqDirty q \<Longrightarrow> it \<notin> wqProcessing q \<Longrightarrow>
   \<exists>q'. wqGet (wqAdd it q) = Some (Some it, q')"
  by (simp add: wqGet_def wqAdd_def)

lemma dequeue_added:
  assumes "trQueue s = wqAdd it newQueue"
  shows "\<exists>q. dequeue s = Some (s\<lparr>trQueue := q, trWork := Some it\<rparr>)"
  using wqGet_added [of newQueue it] assms by (auto simp: dequeue_def newQueue_def)

lemma exampleRun_steps:
  "\<exists>s it. triggerSteps worldRuntime (=) exampleRun s \<and> \<not> trReturned s \<and> trWork s = Some it"
proof -
  let ?s1 = "addResource (GoSVM doneMigration) exampleRun"
  let ?s2 = "runDiscovery worldRuntime (?s1\<lparr>trStarted := True\<rparr>)"
  have 1: "triggerStep worldRuntime (=) exampleRun ?s1" by (rule triggerStep.added)
  have 2: "triggerStep worldRuntime (=) ?s1 ?s2"
    by (rule triggerStep.start) (simp_all add: exampleRun_def NewMigrationTrigger_def)
  obtain it where "trQueue ?s2 = wqAdd it newQueue"
    by (simp add: exampleRun_def NewMigrationTrigger_def enqueueResource_def Let_def)
  then obtain q where d: "dequeue ?s2 = Some (?s2\<lparr>trQueue := q, trWork := Some it\<rparr>)"
    using dequeue_added by blast
  have 3: "triggerStep worldRuntime (=) ?s2 (?s2\<lparr>trQueue := q, trWork := Some it\<rparr>)"
    by (rule triggerStep.dequeued [OF _ _ d]) (simp_all add: exampleRun_def NewMigrationTrigger_def)
  have "triggerSteps worldRuntime (=) exampleRun (?s2\<lparr>trQueue := q, trWork := Some it\<rparr>)"
    using 1 2 3 by (meson r_into_rtranclp rtranclp.rtrancl_into_rtrancl)
  moreover have "\<not> trReturned (?s2\<lparr>trQueue := q, trWork := Some it\<rparr>)
      \<and> trWork (?s2\<lparr>trQueue := q, trWork := Some it\<rparr>) = Some it"
    by (simp add: exampleRun_def NewMigrationTrigger_def)
  ultimately show ?thesis by blast
qed


theorem failed_item_never_retried_witness:
  "\<exists>s it. triggerSteps worldRuntime (=) exampleRun s \<and> trWork s = Some it \<and> it \<notin> set (trDeferred s)"
proof -
  obtain s it where s: "triggerSteps worldRuntime (=) exampleRun s" "\<not> trReturned s" "trWork s = Some it"
    using exampleRun_steps by blast
  from failed_item_never_retried [OF s(1) [unfolded exampleRun_def] s(2,3)] s show ?thesis by blast
qed

end
