(* ===== verification/Init_Discovery.thy ===== *)
theory Init_Discovery
  imports Client_Interfaces "HOL-Library.Multiset"
begin

section \<open>The initializer: finding the resources to migrate\<close>

text \<open>
  \<open>pkg/initializer/discover.go\<close>: the initializer asks the server for all its groups and resources and
  selects those that may need a migration. The calls to the server are those of
  \<open>Client_Interfaces\<close>. Ranging over the Go map \<open>resourceToGroupVersions\<close> visits its entries in
  some order; \<open>iter\<close> is that order, a function that permutes a list of entries.
\<close>

record 'w migrationDiscovery =
  mdDiscoveryClient :: "'w ServerResourcesInterface"
  mdCrdClient :: "'w CustomResourceDefinitionInterface"
  mdApiserviceClient :: "'w APIServiceInterface"

definition NewDiscovery ::
    "'w ServerResourcesInterface \<Rightarrow> 'w CustomResourceDefinitionInterface \<Rightarrow> 'w APIServiceInterface \<Rightarrow>
     'w migrationDiscovery" where
  "NewDiscovery discoveryClient crdClient apiserviceClient =
     \<lparr>mdDiscoveryClient = discoveryClient, mdCrdClient = crdClient, mdApiserviceClient = apiserviceClient\<rparr>"

definition blackListResources :: "string list" where
  "blackListResources = [''events'']"

subsection \<open>Groups that are left out\<close>

fun customGroupsOf :: "CustomResourceDefinition list \<Rightarrow> string list \<Rightarrow> string list" where
  "customGroupsOf [] ret = ret"
| "customGroupsOf (crd # l) ret = customGroupsOf l (List.insert (csGroup (crdSpec crd)) ret)"

definition findCustomGroups :: "'w migrationDiscovery \<Rightarrow> ('w, (string list, error) result) call" where
  "findCustomGroups d w =
     (case crdList (mdCrdClient d) w of
        (Inl err, w1) \<Rightarrow> (Inl err, w1)
      | (Inr l, w1) \<Rightarrow> (Inr (customGroupsOf l []), w1))"

fun aggregatedGroupsOf :: "APIService list \<Rightarrow> string list \<Rightarrow> string list" where
  "aggregatedGroupsOf [] ret = ret"
| "aggregatedGroupsOf (a # l) ret =
     aggregatedGroupsOf l (if asService (asSpec a) \<noteq> None then List.insert (asGroup (asSpec a)) ret else ret)"

definition findAggregatedGroups :: "'w migrationDiscovery \<Rightarrow> ('w, (string list, error) result) call" where
  "findAggregatedGroups d w =
     (case apiserviceList (mdApiserviceClient d) w of
        (Inl err, w1) \<Rightarrow> (Inl err, w1)
      | (Inr l, w1) \<Rightarrow> (Inr (aggregatedGroupsOf l []), w1))"

subsection \<open>FindMigratableResources\<close>

type_synonym resourceVersions = "(string \<times> GroupVersion list) list" \<comment> \<open>the map \<open>resourceToGroupVersions\<close>\<close>

definition versionsFor :: "resourceVersions \<Rightarrow> string \<Rightarrow> GroupVersion list" where
  "versionsFor m r = (case map_of m r of None \<Rightarrow> [] | Some gvs \<Rightarrow> gvs)"

fun recordResources :: "GroupVersion \<Rightarrow> APIResource list \<Rightarrow> resourceVersions \<Rightarrow> resourceVersions" where
  "recordResources gv [] m = m"
| "recordResources gv (r # rs) m =
     (if strings_Contains (arName r) ''/'' then recordResources gv rs m
      else if arName r \<in> set blackListResources then recordResources gv rs m
      else if \<not> (''list'' \<in> set (arVerbs r) \<and> ''update'' \<in> set (arVerbs r)) then recordResources gv rs m
      else recordResources gv rs (alist_upd (arName r) (versionsFor m (arName r) @ [gv]) m))"

fun recordLists ::
    "string list \<Rightarrow> string list \<Rightarrow> APIResourceList list \<Rightarrow> resourceVersions \<Rightarrow> resourceVersions" where
  "recordLists customGroups aggregatedGroups [] m = m"
| "recordLists customGroups aggregatedGroups (l # ls) m =
     (case ParseGroupVersion (arlGroupVersion l) of
        Inl err \<Rightarrow> recordLists customGroups aggregatedGroups ls m
      | Inr gv \<Rightarrow>
          if gvGroup gv \<in> set customGroups then recordLists customGroups aggregatedGroups ls m
          else if gvGroup gv \<in> set aggregatedGroups then recordLists customGroups aggregatedGroups ls m
          else recordLists customGroups aggregatedGroups ls (recordResources gv (arlAPIResources l) m))"

fun pickFirst :: "resourceVersions \<Rightarrow> SchemaGVR list" where
  "pickFirst [] = []"
| "pickFirst ((r, groupVersions) # m) =
     (if length groupVersions = 1 then pickFirst m
      else WithResource (groupVersions ! 0) r # pickFirst m)"

definition FindMigratableResources ::
    "(resourceVersions \<Rightarrow> resourceVersions) \<Rightarrow> 'w migrationDiscovery \<Rightarrow>
     ('w, (SchemaGVR list, error) result) call" where
  "FindMigratableResources iter d w =
     (case findCustomGroups d w of
        (Inl err, w1) \<Rightarrow> (Inl err, w1)
      | (Inr customGroups, w1) \<Rightarrow>
          (case findAggregatedGroups d w1 of
             (Inl err, w2) \<Rightarrow> (Inl err, w2)
           | (Inr aggregatedGroups, w2) \<Rightarrow>
               (case discServerGroupsAndResources (mdDiscoveryClient d) w2 of
                  ((resourceLists, Some err), w3) \<Rightarrow> (Inl err, w3)
                | ((resourceLists, None), w3) \<Rightarrow>
                    (Inr (pickFirst (iter (recordLists customGroups aggregatedGroups resourceLists []))), w3))))"

subsection \<open>What is found\<close>

lemma set_customGroupsOf: "set (customGroupsOf l ret) = set ret \<union> {csGroup (crdSpec crd) | crd. crd \<in> set l}"
  by (induction l arbitrary: ret) auto

lemma set_aggregatedGroupsOf:
  "set (aggregatedGroupsOf l ret) =
     set ret \<union> {asGroup (asSpec a) | a. a \<in> set l \<and> asService (asSpec a) \<noteq> None}"
  by (induction l arbitrary: ret) auto

text \<open>
  The reference: a resource of the discovery document can be migrated if it is no subresource, not on
  the black list and can be listed and updated; \<open>offers\<close> are the group versions that offer it,
  in the order of the document, without the excluded groups.
\<close>

definition migratable :: "APIResource \<Rightarrow> bool" where
  "migratable r \<longleftrightarrow>
     CHR ''/'' \<notin> set (arName r) \<and> arName r \<noteq> ''events'' \<and> {''list'', ''update''} \<subseteq> set (arVerbs r)"

definition offersOf :: "string set \<Rightarrow> string \<Rightarrow> APIResourceList \<Rightarrow> GroupVersion list" where
  "offersOf excluded n l =
     (case ParseGroupVersion (arlGroupVersion l) of
        Inl err \<Rightarrow> []
      | Inr gv \<Rightarrow>
          if gvGroup gv \<in> excluded then []
          else map (\<lambda>r. gv) (filter (\<lambda>r. arName r = n \<and> migratable r) (arlAPIResources l)))"

definition offers :: "string set \<Rightarrow> APIResourceList list \<Rightarrow> string \<Rightarrow> GroupVersion list" where
  "offers excluded ls n = concat (map (offersOf excluded n) ls)"

lemma strings_Contains_char [simp]: "strings_Contains s [c] \<longleftrightarrow> c \<in> set s"
  by (induction s) auto

lemma recordable_iff:
  "\<not> strings_Contains (arName r) ''/'' \<and> \<not> arName r \<in> set blackListResources
     \<and> ''list'' \<in> set (arVerbs r) \<and> ''update'' \<in> set (arVerbs r) \<longleftrightarrow> migratable r"
  by (auto simp: migratable_def blackListResources_def)

text \<open>The map keeps one entry per resource, with at least one group version.\<close>

definition rv_ok :: "resourceVersions \<Rightarrow> bool" where
  "rv_ok m \<longleftrightarrow> distinct (map fst m) \<and> (\<forall>r gvs. map_of m r = Some gvs \<longrightarrow> gvs \<noteq> [])"

lemma rv_ok_upd: "rv_ok m \<Longrightarrow> gvs \<noteq> [] \<Longrightarrow> rv_ok (alist_upd r gvs m)"
  by (auto simp: rv_ok_def)

lemma versionsFor_upd [simp]:
  "versionsFor (alist_upd r gvs m) n = (if n = r then gvs else versionsFor m n)"
  by (simp add: versionsFor_def)

lemma recordResources_step:
  "recordResources gv (r # rs) m =
     recordResources gv rs (if migratable r then alist_upd (arName r) (versionsFor m (arName r) @ [gv]) m else m)"
  using recordable_iff [of r] by auto

lemma recordResources_spec:
  "versionsFor (recordResources gv rs m) n =
     versionsFor m n @ map (\<lambda>r. gv) (filter (\<lambda>r. arName r = n \<and> migratable r) rs)"
  "rv_ok m \<Longrightarrow> rv_ok (recordResources gv rs m)"
  by (induction rs arbitrary: m) (auto simp: recordResources_step rv_ok_upd simp del: recordResources.simps(2))

lemma recordLists_spec:
  "versionsFor (recordLists cg ag ls m) n = versionsFor m n @ offers (set cg \<union> set ag) ls n"
  "rv_ok m \<Longrightarrow> rv_ok (recordLists cg ag ls m)"
  by (induction ls arbitrary: m)
    (auto simp: offers_def offersOf_def recordResources_spec split: sum.splits)

lemma set_pickFirst:
  "rv_ok m \<Longrightarrow> set (pickFirst m) =
     {WithResource (hd (versionsFor m r)) r | r. 2 \<le> length (versionsFor m r)}"
proof (induction m rule: pickFirst.induct)
  case (2 r gvs m)
  have ok: "rv_ok m" and r: "map_of m r = None" and gvs: "gvs \<noteq> []"
    using 2(3) unfolding rv_ok_def by (auto simp: map_of_eq_None_iff split: if_splits)
  then have no: "versionsFor m r = []" by (simp add: versionsFor_def)
  have v: "versionsFor ((r, gvs) # m) n = (if n = r then gvs else versionsFor m n)" for n
    by (simp add: versionsFor_def)
  have split: "{WithResource (hd (versionsFor ((r, gvs) # m) n)) n | n. 2 \<le> length (versionsFor ((r, gvs) # m) n)}
      = (if 2 \<le> length gvs then {WithResource (hd gvs) r} else {})
        \<union> {WithResource (hd (versionsFor m n)) n | n. 2 \<le> length (versionsFor m n)}" (is "?L = ?R")
  proof (intro set_eqI iffI)
    fix x assume "x \<in> ?L" then show "x \<in> ?R" unfolding v by (auto split: if_splits)
  next
    fix x assume "x \<in> ?R"
    then obtain n where "x = WithResource (hd (versionsFor ((r, gvs) # m) n)) n"
        "2 \<le> length (versionsFor ((r, gvs) # m) n)"
      using no unfolding v by (fastforce split: if_splits)
    then show "x \<in> ?L" by blast
  qed
  have "length gvs \<noteq> 0" using gvs by simp
  then have "length gvs = 1 \<or> 2 \<le> length gvs" by arith
  then show ?case using 2(1,2) ok gvs unfolding split by (auto simp: hd_conv_nth)
qed (simp add: versionsFor_def)

lemma pickFirst_resources: "set (map sgvrResource (pickFirst m)) \<subseteq> fst ` set m"
  by (induction m rule: pickFirst.induct) (auto simp: WithResource_def)

lemma distinct_pickFirst:
  "distinct (map fst m) \<Longrightarrow> distinct (map sgvrResource (pickFirst m))"
proof (induction m rule: pickFirst.induct)
  case (2 r gvs m)
  then have "r \<notin> set (map sgvrResource (pickFirst m))" using pickFirst_resources [of m] by auto
  then show ?case using 2 by (simp add: WithResource_def)
qed simp

lemma rv_ok_perm:
  assumes "mset m' = mset m" and "rv_ok m"
  shows "rv_ok m'" and "versionsFor m' = versionsFor m"
proof -
  have "mset (map fst m') = mset (map fst m)" using assms(1) by simp
  then have d: "distinct (map fst m')" using assms(2) by (metis mset_eq_imp_distinct_iff rv_ok_def)
  moreover have "set m' = set m" using assms(1) by (metis set_mset_mset)
  ultimately have "map_of m' = map_of m" using assms(2) by (metis map_of_inject_set rv_ok_def)
  then show "rv_ok m'" "versionsFor m' = versionsFor m"
    using assms(2) d by (auto simp: rv_ok_def versionsFor_def fun_eq_iff)
qed

text \<open>
  C31. \<open>FindMigratableResources\<close> finds exactly the resources it documents: when the three calls to
  the server succeed, it returns each resource that at least two group versions outside the
  custom and aggregated groups offer for listing and updating, once, in the first of
  these group versions, whatever the order in which the Go map is visited.
\<close>

theorem FindMigratableResources_exact:
  assumes "\<And>m. mset (iter m) = mset m"
    and "crdList (mdCrdClient d) w = (Inr crds, w1)"
    and "apiserviceList (mdApiserviceClient d) w1 = (Inr services, w2)"
    and "discServerGroupsAndResources (mdDiscoveryClient d) w2 = ((rls, None), w3)"
  shows "\<exists>ret. FindMigratableResources iter d w = (Inr ret, w3) \<and> distinct (map sgvrResource ret)
     \<and> set ret =
         (let excluded = {csGroup (crdSpec crd) | crd. crd \<in> set crds}
                \<union> {asGroup (asSpec a) | a. a \<in> set services \<and> asService (asSpec a) \<noteq> None}
          in {WithResource (hd (offers excluded rls r)) r | r. 2 \<le> length (offers excluded rls r)})"
proof -
  let ?m = "recordLists (customGroupsOf crds []) (aggregatedGroupsOf services []) rls []"
  have ok: "rv_ok ?m" by (rule recordLists_spec(2)) (simp add: rv_ok_def)
  note perm = rv_ok_perm [OF assms(1) ok]
  have "versionsFor (iter ?m) r = offers ({csGroup (crdSpec crd) | crd. crd \<in> set crds}
      \<union> {asGroup (asSpec a) | a. a \<in> set services \<and> asService (asSpec a) \<noteq> None}) rls r" for r
    using recordLists_spec(1) [of "customGroupsOf crds []" "aggregatedGroupsOf services []" rls "[]" r] perm(2)
    by (simp add: set_customGroupsOf set_aggregatedGroupsOf versionsFor_def)
  moreover have "FindMigratableResources iter d w = (Inr (pickFirst (iter ?m)), w3)"
    using assms(2-4) by (simp add: FindMigratableResources_def findCustomGroups_def findAggregatedGroups_def)
  moreover have "distinct (map sgvrResource (pickFirst (iter ?m)))"
    by (rule distinct_pickFirst) (use perm(1) in \<open>simp add: rv_ok_def\<close>)
  ultimately show ?thesis using set_pickFirst [OF perm(1)] by (simp add: Let_def)
qed

text \<open>The discovery document, custom resource and API services of \<open>discover_test.go\<close>.\<close>

definition fullVerbs :: "string list" where
  "fullVerbs = [''create'', ''delete'', ''deletecollection'', ''get'', ''list'', ''patch'', ''update'', ''watch'']"

definition apiResource :: "string \<Rightarrow> string list \<Rightarrow> APIResource" where
  "apiResource n vs = \<lparr>arName = n, arGroup = [], arVersion = [], arVerbs = vs, arStorageVersionHash = []\<rparr>"

definition testLists :: "APIResourceList list" where
  "testLists =
     [\<lparr>arlGroupVersion = ''cloud.google.com/v1beta1'', arlAPIResources = [apiResource ''backendconfigs'' fullVerbs]\<rparr>,
      \<lparr>arlGroupVersion = ''metrics.k8s.io/v1beta1'', arlAPIResources =
         [apiResource ''nodes'' [''get'', ''list'', ''update''], apiResource ''pods'' [''get'', ''list'']]\<rparr>,
      \<lparr>arlGroupVersion = ''extensions/v1beta1'', arlAPIResources =
         [apiResource ''daemonsets'' fullVerbs, apiResource ''daemonsets/status'' [''get'', ''patch'', ''update''],
          apiResource ''replicationcontrollers'' []]\<rparr>,
      \<lparr>arlGroupVersion = ''apps/v1'', arlAPIResources =
         [apiResource ''daemonsets'' fullVerbs, apiResource ''daemonsets/status'' [''get'', ''patch'', ''update'']]\<rparr>,
      \<lparr>arlGroupVersion = ''v1'', arlAPIResources = [apiResource ''pods'' fullVerbs, apiResource ''events'' fullVerbs]\<rparr>,
      \<lparr>arlGroupVersion = ''events.k8s.io/v1beta1'', arlAPIResources = [apiResource ''events'' fullVerbs]\<rparr>]"

definition testCRD :: CustomResourceDefinition where
  "testCRD =
     \<lparr>crdMeta = zeroObjectMeta\<lparr>omName := ''backendconfigs.cloud.google.com''\<rparr>,
      crdSpec = \<lparr>csGroup = ''cloud.google.com'',
        csNames = \<lparr>cnPlural = ''backendconfigs'', cnSingular = ''backendconfig'', cnKind = ''BackendConfig'',
                   cnListKind = ''BackendConfigList''\<rparr>,
        csScope = ''Namespaced'', csVersions = []\<rparr>\<rparr>"

definition testServices :: "APIService list" where
  "testServices =
     [\<lparr>asMeta = zeroObjectMeta\<lparr>omName := ''v1beta1.extensions''\<rparr>,
       asSpec = \<lparr>asService = None, asGroup = ''extensions'', asVersion = ''v1beta1''\<rparr>\<rparr>,
      \<lparr>asMeta = zeroObjectMeta\<lparr>omName := ''v1beta1.metrics.k8s.io''\<rparr>,
       asSpec = \<lparr>asService = Some (''kube-system'', ''metrics-server''), asGroup = ''metrics.k8s.io'',
                 asVersion = ''v1beta1''\<rparr>\<rparr>]"

text \<open>A server whose lists are the world itself.\<close>

definition listDiscovery :: "(CustomResourceDefinition list \<times> APIService list \<times> APIResourceList list) migrationDiscovery" where
  "listDiscovery = NewDiscovery
     \<lparr>discServerGroupsAndResources = (\<lambda>w. ((snd (snd w), None), w))\<rparr>
     \<lparr>crdCreate = (\<lambda>crd w. (Inl (NewBadRequest []), w)), crdDelete = (\<lambda>n w. (Some (NewBadRequest []), w)),
      crdGet = (\<lambda>n w. (Inl (NewBadRequest []), w)), crdList = (\<lambda>w. (Inr (fst w), w))\<rparr>
     \<lparr>apiserviceList = (\<lambda>w. (Inr (fst (snd w)), w))\<rparr>"

lemma listDiscovery_sel [simp]:
  "crdList (mdCrdClient listDiscovery) w = (Inr (fst w), w)"
  "apiserviceList (mdApiserviceClient listDiscovery) w = (Inr (fst (snd w)), w)"
  "discServerGroupsAndResources (mdDiscoveryClient listDiscovery) w = ((snd (snd w), None), w)"
  by (simp_all add: listDiscovery_def NewDiscovery_def)

theorem FindMigratableResources_exact_witness:
  "\<exists>ret. fst (FindMigratableResources rev listDiscovery ([testCRD], testServices, testLists)) = Inr ret
     \<and> ret = [\<lparr>sgvrGroup = ''extensions'', sgvrVersion = ''v1beta1'', sgvrResource = ''daemonsets''\<rparr>]
     \<and> distinct (map sgvrResource ret)"
proof -
  let ?w = "([testCRD], testServices, testLists)"
  obtain ret where "FindMigratableResources rev listDiscovery ?w = (Inr ret, ?w)" "distinct (map sgvrResource ret)"
    using FindMigratableResources_exact [of rev listDiscovery ?w "[testCRD]" ?w testServices ?w testLists ?w]
    by auto
  moreover have "fst (FindMigratableResources rev listDiscovery ?w) =
      Inr [\<lparr>sgvrGroup = ''extensions'', sgvrVersion = ''v1beta1'', sgvrResource = ''daemonsets''\<rparr>]"
    by code_simp
  ultimately show ?thesis by auto
qed

end
