(* ===== verification/Initializer.thy ===== *)
theory Initializer
  imports Init_Discovery
begin

section \<open>The initializer\<close>

text \<open>
  \<open>pkg/initializer/initializer.go\<close>: install the custom resource definition of migrations, replacing an
  old one, and create one migration for each resource that may need it. \<open>ticks\<close> is the number
  of ticks of the poller that reach the loop of \<open>wait.PollImmediate\<close>: at most one per interval
  of the timeout, fewer when an attempt takes longer than an interval.
\<close>

subsection \<open>wait.PollImmediate\<close>

text \<open>
  \<open>waitForWithContext\<close>: run the condition for every tick, and once more when the channel of the
  ticks is closed at the timeout.
\<close>

fun waitFor ::
    "'w Runtime \<Rightarrow> Duration \<Rightarrow> nat \<Rightarrow> ('v, 'w) cond \<Rightarrow> 'v \<times> 'w \<Rightarrow> error option \<times> ('v \<times> 'w)" where
  "waitFor rt interval 0 condition s =
     (case condition (apsnd (rtSleep rt interval) s) of
        ((ok, err), s1) \<Rightarrow>
          if err \<noteq> None then (err, s1) else if ok then (None, s1) else (Some ErrWaitTimeout, s1))"
| "waitFor rt interval (Suc ticks) condition s =
     (case condition (apsnd (rtSleep rt interval) s) of
        ((ok, err), s1) \<Rightarrow>
          if err \<noteq> None then (err, s1) else if ok then (None, s1)
          else waitFor rt interval ticks condition s1)"

definition PollImmediate ::
    "'w Runtime \<Rightarrow> nat \<Rightarrow> Duration \<Rightarrow> Duration \<Rightarrow> ('v, 'w) cond \<Rightarrow> 'v \<times> 'w \<Rightarrow> error option \<times> ('v \<times> 'w)" where
  "PollImmediate rt ticks interval timeout condition s =
     (case condition s of
        ((ok, err), s1) \<Rightarrow>
          if err \<noteq> None then (err, s1) else if ok then (None, s1)
          else waitFor rt interval (min ticks (nat (timeout div interval))) condition s1)"

text \<open>An invariant of the attempts holds at the end, with the outcome of the attempt that ended it.\<close>

lemma waitFor_inv:
  assumes "waitFor rt interval n condition s = (r, s')" and "P s"
    and step: "\<And>s ok err s1. P s \<Longrightarrow> condition s = ((ok, err), s1) \<Longrightarrow> P s1 \<and> (ok \<and> err = None \<longrightarrow> Q s1)"
    and slp: "\<And>v w. P (v, w) \<Longrightarrow> P (v, rtSleep rt interval w)"
  shows "P s' \<and> (r = None \<longrightarrow> Q s')"
  using assms(1,2)
proof (induction n arbitrary: s)
  case 0
  then have p: "P (apsnd (rtSleep rt interval) s)" using slp by (cases s) auto
  obtain ok err s1 where c: "condition (apsnd (rtSleep rt interval) s) = ((ok, err), s1)" by (metis surj_pair)
  show ?case using step [OF p c] 0(1) c by (auto split: if_splits)
next
  case (Suc n)
  then have p: "P (apsnd (rtSleep rt interval) s)" using slp by (cases s) auto
  obtain ok err s1 where c: "condition (apsnd (rtSleep rt interval) s) = ((ok, err), s1)" by (metis surj_pair)
  show ?case using step [OF p c] Suc.IH [of s1] Suc.prems(1) c by (auto split: if_splits)
qed

lemma PollImmediate_inv:
  assumes "PollImmediate rt ticks interval timeout condition s = (r, s')" and "P s"
    and step: "\<And>s ok err s1. P s \<Longrightarrow> condition s = ((ok, err), s1) \<Longrightarrow> P s1 \<and> (ok \<and> err = None \<longrightarrow> Q s1)"
    and slp: "\<And>v w. P (v, w) \<Longrightarrow> P (v, rtSleep rt interval w)"
  shows "P s' \<and> (r = None \<longrightarrow> Q s')"
proof -
  obtain ok err s1 where c: "condition s = ((ok, err), s1)" by (metis surj_pair)
  note st = step [OF assms(2) c]
  show ?thesis
  proof (cases "err \<noteq> None \<or> ok")
    case True
    then show ?thesis using st assms(1) c by (auto simp: PollImmediate_def split: if_splits)
  next
    case False
    then have "waitFor rt interval (min ticks (nat (timeout div interval))) condition s1 = (r, s')"
      using assms(1) c by (simp add: PollImmediate_def)
    then show ?thesis using waitFor_inv [where P = P and Q = Q] st step slp by blast
  qed
qed

subsection \<open>The initializer\<close>

record ('w, 'n) initializer =
  inDiscovery :: "'w migrationDiscovery"
  inCrdClient :: "'w CustomResourceDefinitionInterface"
  inNamespaceClient :: 'n \<comment> \<open>stored, and never called\<close>
  inMigrationClient :: "'w StorageVersionMigrationInterface"

definition NewInitializer ::
    "'w ServerResourcesInterface \<Rightarrow> 'w CustomResourceDefinitionInterface \<Rightarrow> 'w APIServiceInterface \<Rightarrow> 'n \<Rightarrow>
     'w StorageVersionMigrationInterface \<Rightarrow> ('w, 'n) initializer" where
  "NewInitializer discoveryClient crdClient apiserviceClient namespaceClient migrationClient =
     \<lparr>inDiscovery = NewDiscovery discoveryClient crdClient apiserviceClient, inCrdClient = crdClient,
      inNamespaceClient = namespaceClient, inMigrationClient = migrationClient\<rparr>"

definition migrationForResource :: "SchemaGVR \<Rightarrow> StorageVersionMigration" where
  "migrationForResource r =
     (let name = (if length (sgvrGroup r) \<noteq> 0
                  then sgvrGroup r @ ''.'' @ sgvrVersion r @ ''.'' @ sgvrResource r @ ''-''
                  else sgvrVersion r @ ''.'' @ sgvrResource r @ ''-'')
      in \<lparr>svmTypeMeta = zeroTypeMeta, svmMeta = zeroObjectMeta\<lparr>omGenerateName := name\<rparr>,
          svmSpec = \<lparr>specResource = \<lparr>gvrGroup = sgvrGroup r, gvrVersion = sgvrVersion r, gvrResource = sgvrResource r\<rparr>,
                     specContinueToken = []\<rparr>,
          svmStatus = \<lparr>smConditions = []\<rparr>\<rparr>)"

definition crdName :: string where
  "crdName = pluralCRDName @ ''.'' @ GroupName"

text \<open>The closure given to \<open>PollImmediate\<close>: the definition is gone.\<close>

definition crdGone :: "'w CustomResourceDefinitionInterface \<Rightarrow> (unit, 'w) cond" where
  "crdGone c = (\<lambda>(v, w).
     case crdGet c crdName w of
       (Inr crd, w1) \<Rightarrow> ((False, None), (v, w1))
     | (Inl err, w1) \<Rightarrow> if IsNotFound (Some err) then ((True, None), (v, w1)) else ((False, Some err), (v, w1)))"

definition createCRD :: "'w CustomResourceDefinitionInterface \<Rightarrow> ('w, error option) call" where
  "createCRD c w =
     (case crdCreate c migrationCRD w of (Inl err, w1) \<Rightarrow> (Some err, w1) | (Inr crd, w1) \<Rightarrow> (None, w1))"

definition initializeCRD ::
    "'w Runtime \<Rightarrow> nat \<Rightarrow> ('w, 'n) initializer \<Rightarrow> ('w, error option) call" where
  "initializeCRD rt ticks init w =
     (let c = inCrdClient init in
      case crdGet c crdName w of
        (Inl err, w1) \<Rightarrow> if \<not> IsNotFound (Some err) then (Some err, w1) else createCRD c w1
      | (Inr crd, w1) \<Rightarrow>
          (case crdDelete c crdName w1 of
             (Some err, w2) \<Rightarrow> (Some err, w2)
           | (None, w2) \<Rightarrow>
               (case PollImmediate rt ticks (500 * millisecond) (30 * second) (crdGone c) ((), w2) of
                  (Some err, (v, w3)) \<Rightarrow> (Some err, w3)
                | (None, (v, w3)) \<Rightarrow> createCRD c w3)))"

fun createMigrations ::
    "'w StorageVersionMigrationInterface \<Rightarrow> SchemaGVR list \<Rightarrow> ('w, error option) call" where
  "createMigrations c [] w = (None, w)"
| "createMigrations c (r # rs) w =
     (case svmCreate c (migrationForResource r) w of
        (Inl err, w1) \<Rightarrow> (Some err, w1)
      | (Inr m, w1) \<Rightarrow> createMigrations c rs w1)"

definition Initialize ::
    "(resourceVersions \<Rightarrow> resourceVersions) \<Rightarrow> 'w Runtime \<Rightarrow> nat \<Rightarrow> ('w, 'n) initializer \<Rightarrow>
     ('w, error option) call" where
  "Initialize iter rt ticks init w =
     (case initializeCRD rt ticks init w of
        (Some err, w1) \<Rightarrow> (Some err, w1)
      | (None, w1) \<Rightarrow>
          (case FindMigratableResources iter (inDiscovery init) w1 of
             (Inl err, w2) \<Rightarrow> (Some err, w2)
           | (Inr resources, w2) \<Rightarrow> createMigrations (inMigrationClient init) resources w2))"

subsection \<open>Created migrations\<close>

text \<open>
  \<open>launched ms rs names ms'\<close>: from \<open>ms\<close> to \<open>ms'\<close>, one fresh migration was added for each resource of \<open>rs\<close>, under
  the names \<open>names\<close>, without conditions and with an empty token, and nothing else changed.
\<close>

definition fresh_for :: "SchemaGVR \<Rightarrow> StorageVersionMigration \<Rightarrow> bool" where
  "fresh_for r m \<longleftrightarrow> svmSpec m = svmSpec (migrationForResource r) \<and> svmConditions m = []"

definition launched ::
    "(string \<rightharpoonup> StorageVersionMigration) \<Rightarrow> SchemaGVR list \<Rightarrow> string list \<Rightarrow>
     (string \<rightharpoonup> StorageVersionMigration) \<Rightarrow> bool" where
  "launched ms rs names ms' \<longleftrightarrow> distinct names \<and> (\<forall>n \<in> set names. ms n = None)
     \<and> (\<forall>n. n \<notin> set names \<longrightarrow> ms' n = ms n)
     \<and> list_all2 (\<lambda>r n. \<exists>m. ms' n = Some m \<and> fresh_for r m) rs names"

lemma launched_none: "launched ms [] [] ms"
  by (simp add: launched_def)

lemma post_mig_fresh:
  "post_mig ms (migrationForResource r) m ms' \<Longrightarrow>
   fresh_for r m \<and> ms (svmName m) = None \<and> ms' = ms(svmName m \<mapsto> m)"
  by (simp add: post_mig_def fresh_for_def migrationForResource_def Let_def)

lemma launched_one: "post_mig ms (migrationForResource r) m ms' \<Longrightarrow> launched ms [r] [svmName m] ms'"
  using post_mig_fresh [of ms r m ms'] by (auto simp: launched_def)

lemma launched_cons:
  assumes "post_mig ms (migrationForResource r) m ms1" and "launched ms1 rs names ms'"
  shows "launched ms (r # rs) (svmName m # names) ms'"
proof -
  note p = post_mig_fresh [OF assms(1)]
  have "svmName m \<notin> set names" using assms(2) p by (auto simp: launched_def)
  then have "ms' (svmName m) = Some m" using assms(2) p by (simp add: launched_def)
  then show ?thesis using assms(2) p by (auto simp: launched_def split: if_splits)
qed

subsection \<open>The contract of the server\<close>

text \<open>
  \<open>crds w\<close> are the definitions the server holds, \<open>terminating w\<close> the names of those whose deletion has
  been accepted and may finish at any later time. A deletion takes the objects of the definition
  with it, so deleting and waiting may remove migrations; nothing else changes them.
\<close>

locale init_env = migration_api c migs wf
  for c :: "'w StorageVersionMigrationInterface" and migs wf +
  fixes rt :: "'w Runtime"
    and cc :: "'w CustomResourceDefinitionInterface"
    and ac :: "'w APIServiceInterface"
    and dc :: "'w ServerResourcesInterface"
    and crds :: "'w \<Rightarrow> string \<rightharpoonup> CustomResourceDefinition"
    and terminating :: "'w \<Rightarrow> string set"
  assumes crd_get_ok: "wf w \<Longrightarrow> crdGet cc n w = (Inr d, w') \<Longrightarrow> wf w' \<and> crds w n = Some d
             \<and> crds w' = crds w \<and> terminating w' = terminating w \<and> migs w' = migs w"
    and crd_get_err: "wf w \<Longrightarrow> crdGet cc n w = (Inl e, w') \<Longrightarrow> wf w' \<and> (IsNotFound (Some e) \<longrightarrow> crds w n = None)
             \<and> crds w' = crds w \<and> terminating w' = terminating w \<and> migs w' = migs w"
    and crd_create_ok: "wf w \<Longrightarrow> crdCreate cc d w = (Inr d', w') \<Longrightarrow> wf w' \<and> migs w' = migs w
             \<and> terminating w' = terminating w \<and> crds w (crdObjectName d) = None
             \<and> crds w' = (crds w)(crdObjectName d \<mapsto> d') \<and> crdSpec d' = crdSpec d"
    and crd_create_err: "wf w \<Longrightarrow> crdCreate cc d w = (Inl e, w') \<Longrightarrow> wf w' \<and> migs w' = migs w
             \<and> terminating w' = terminating w \<and> (crds w' = crds w \<or> (\<exists>d'. crds w' = (crds w)(crdObjectName d \<mapsto> d')))"
    and crd_delete: "wf w \<Longrightarrow> crdDelete cc n w = (res, w') \<Longrightarrow> wf w' \<and> migs w' \<subseteq>\<^sub>m migs w
             \<and> terminating w' \<subseteq> insert n (terminating w)
             \<and> (\<forall>k. k \<noteq> n \<longrightarrow> k \<notin> terminating w \<longrightarrow> crds w' k = crds w k)"
    and crd_wait: "wf w \<Longrightarrow> wf (rtSleep rt dur w) \<and> migs (rtSleep rt dur w) \<subseteq>\<^sub>m migs w
             \<and> terminating (rtSleep rt dur w) \<subseteq> terminating w
             \<and> (\<forall>k. k \<notin> terminating w \<longrightarrow> crds (rtSleep rt dur w) k = crds w k)"
    and crd_lists: "wf w \<Longrightarrow> crdList cc w = (l, w') \<Longrightarrow> wf w' \<and> migs w' = migs w \<and> crds w' = crds w"
    and apis_lists: "wf w \<Longrightarrow> apiserviceList ac w = (l', w') \<Longrightarrow> wf w' \<and> migs w' = migs w \<and> crds w' = crds w"
    and disc_lists: "wf w \<Longrightarrow> discServerGroupsAndResources dc w = (l'', w') \<Longrightarrow>
             wf w' \<and> migs w' = migs w \<and> crds w' = crds w"
begin

text \<open>What waiting for the deletion may do: finish deletions, and remove migrations.\<close>

definition settling :: "'w \<Rightarrow> string set \<Rightarrow> 'w \<Rightarrow> bool" where
  "settling w T w' \<longleftrightarrow> wf w' \<and> migs w' \<subseteq>\<^sub>m migs w \<and> terminating w' \<subseteq> T \<and> (\<forall>k. k \<notin> T \<longrightarrow> crds w' k = crds w k)"

lemma settling_sleep:
  assumes "settling w T w1"
  shows "settling w T (rtSleep rt d w1)"
  using crd_wait [of w1 d] assms map_le_trans unfolding settling_def by (metis subset_iff)

lemma settling_get:
  assumes "settling w T w1" and "crdGet cc n w1 = (r, w2)"
  shows "settling w T w2"
  using crd_get_ok [of w1 n _ w2] crd_get_err [of w1 n _ w2] assms by (cases r) (simp_all add: settling_def)

lemma settling_poll:
  assumes "settling w T w1" and "PollImmediate rt ticks i t (crdGone cc) ((), w1) = (r, (v, w2))"
  shows "settling w T w2"
proof -
  have "(settling w T \<circ> snd) (v, w2) \<and> (r = None \<longrightarrow> True)"
  proof (rule PollImmediate_inv [OF assms(2), where P = "settling w T \<circ> snd" and Q = "\<lambda>_. True"])
    fix s ok err s1
    assume s: "(settling w T \<circ> snd) s" "crdGone cc s = ((ok, err), s1)"
    obtain r1 w3 where g: "crdGet cc crdName (snd s) = (r1, w3)" by (metis surj_pair)
    have "snd s1 = w3" using s(2) g by (auto simp: crdGone_def split: prod.splits sum.splits if_splits)
    then show "(settling w T \<circ> snd) s1 \<and> (ok \<and> err = None \<longrightarrow> True)"
      using settling_get [OF _ g] s(1) by simp
  qed (use assms(1) settling_sleep in auto)
  then show ?thesis by simp
qed

lemma crdName_migrationCRD: "crdObjectName migrationCRD = crdName"
  by (simp add: migrationCRD_def crdName_def pluralCRDName_def GroupName_def)

lemma createCRD_spec:
  assumes "wf w" and "createCRD cc w = (r, w')"
  shows "wf w' \<and> migs w' = migs w \<and> (\<forall>k. k \<noteq> crdName \<longrightarrow> crds w' k = crds w k)
     \<and> (r = None \<longrightarrow> (\<exists>d. crds w' crdName = Some d \<and> crdSpec d = crdSpec migrationCRD))"
proof -
  obtain x where x: "crdCreate cc migrationCRD w = (x, w')"
    using assms(2) by (auto simp: createCRD_def split: prod.splits sum.splits)
  show ?thesis
  proof (cases x)
    case (Inl e)
    then show ?thesis using crd_create_err [OF assms(1), of migrationCRD e w'] assms(2) x
      by (auto simp: createCRD_def crdName_migrationCRD)
  next
    case (Inr d)
    then show ?thesis using crd_create_ok [OF assms(1), of migrationCRD d w'] assms(2) x
      by (auto simp: createCRD_def crdName_migrationCRD)
  qed
qed

text \<open>What installing the definition may do, and what it achieves when it returns nil.\<close>

definition installed :: "'w \<Rightarrow> error option \<Rightarrow> 'w \<Rightarrow> bool" where
  "installed w r w' \<longleftrightarrow> wf w' \<and> migs w' \<subseteq>\<^sub>m migs w
     \<and> (\<forall>k. k \<noteq> crdName \<longrightarrow> k \<notin> terminating w \<longrightarrow> crds w' k = crds w k)
     \<and> (r = None \<longrightarrow> (\<exists>d. crds w' crdName = Some d \<and> crdSpec d = crdSpec migrationCRD))"

lemma installed_create:
  assumes "settling w (insert crdName (terminating w)) w1" and "createCRD cc w1 = (r, w')"
  shows "installed w r w'"
  using createCRD_spec [OF _ assms(2)] assms(1) by (simp add: installed_def settling_def)

lemma installed_failed:
  "settling w (insert crdName (terminating w)) w' \<Longrightarrow> installed w (Some e) w'"
  by (simp add: installed_def settling_def)

lemma settling_refl: "wf w \<Longrightarrow> settling w (insert crdName (terminating w)) w"
  by (auto simp: settling_def)

lemma settling_delete:
  assumes "settling w (insert crdName (terminating w)) w1" and "terminating w1 = terminating w"
    and "crdDelete cc crdName w1 = (r, w2)"
  shows "settling w (insert crdName (terminating w)) w2"
proof -
  have "wf w1" "migs w1 \<subseteq>\<^sub>m migs w" using assms(1) by (simp_all add: settling_def)
  moreover note crd_delete [OF this(1) assms(3)]
  ultimately show ?thesis using assms(1,2) map_le_trans by (auto simp: settling_def)
qed

lemma initializeCRD_installed:
  assumes "wf w" and "initializeCRD rt ticks init w = (r, w')" and cc: "inCrdClient init = cc"
  shows "installed w r w'"
proof -
  let ?T = "insert crdName (terminating w)"
  obtain x w1 where g: "crdGet cc crdName w = (x, w1)" by (metis surj_pair)
  have s1: "settling w ?T w1" by (rule settling_get [OF settling_refl [OF assms(1)] g])
  have t1: "terminating w1 = terminating w"
    using crd_get_ok [OF assms(1), of crdName _ w1] crd_get_err [OF assms(1), of crdName _ w1] g by (cases x) auto
  show ?thesis
  proof (cases x)
    case (Inl e)
    show ?thesis
    proof (cases "IsNotFound (Some e)")
      case True
      then have "createCRD cc w1 = (r, w')" using assms(2) cc g Inl by (simp add: initializeCRD_def)
      then show ?thesis by (rule installed_create [OF s1])
    next
      case False
      then have "r = Some e" "w' = w1" using assms(2) cc g Inl by (auto simp: initializeCRD_def)
      then show ?thesis using installed_failed [OF s1] by simp
    qed
  next
    case (Inr d)
    obtain del w2 where d: "crdDelete cc crdName w1 = (del, w2)" by (metis surj_pair)
    have s2: "settling w ?T w2" by (rule settling_delete [OF s1 t1 d])
    obtain p v w3 where p: "PollImmediate rt ticks (500 * millisecond) (30 * second) (crdGone cc) ((), w2) = (p, (v, w3))"
      by (metis surj_pair)
    have s3: "settling w ?T w3" by (rule settling_poll [OF s2 p])
    have "del \<noteq> None \<and> r = del \<and> w' = w2 \<or> p \<noteq> None \<and> r = p \<and> w' = w3 \<or> createCRD cc w3 = (r, w')"
      using assms(2) cc g Inr d p by (auto simp: initializeCRD_def split: option.splits)
    then show ?thesis using installed_failed [OF s2] installed_failed [OF s3] installed_create [OF s3] by auto
  qed
qed

lemma createMigrations_launched:
  assumes "createMigrations c rs w = (res, w')" and "wf w"
  shows "wf w' \<and> (\<exists>names. launched (migs w) (take (length names) rs) names (migs w') \<and> length names \<le> length rs
     \<and> (res = None \<longrightarrow> length names = length rs))"
  using assms
proof (induction rs arbitrary: w)
  case Nil
  then show ?case by (auto simp: launched_def)
next
  case (Cons r rs)
  obtain x w1 where x: "svmCreate c (migrationForResource r) w = (x, w1)" by (metis surj_pair)
  show ?case
  proof (cases x)
    case (Inl e)
    then have "wf w1 \<and> (migs w1 = migs w \<or> (\<exists>m. post_mig (migs w) (migrationForResource r) m (migs w1)))"
      using svm_create_err [OF Cons.prems(2)] x by simp
    moreover have "res = Some e" "w' = w1" using Cons.prems(1) x Inl by auto
    moreover have "launched (migs w) (take (length []) (r # rs)) [] (migs w)" by (simp add: launched_none)
    moreover have "launched (migs w) (take (length [svmName m]) (r # rs)) [svmName m] ms'"
      if "post_mig (migs w) (migrationForResource r) m ms'" for m ms' using launched_one [OF that] by simp
    ultimately show ?thesis by (metis length_Cons le0 list.size(3) not_less_eq_eq option.distinct(1))
  next
    case (Inr m)
    then have w1: "wf w1" "post_mig (migs w) (migrationForResource r) m (migs w1)"
      using svm_create_ok [OF Cons.prems(2)] x by blast+
    have "createMigrations c rs w1 = (res, w')" using Cons.prems(1) x Inr by simp
    then obtain names where "wf w'" "launched (migs w1) (take (length names) rs) names (migs w')"
        "length names \<le> length rs" "res = None \<longrightarrow> length names = length rs"
      using Cons.IH w1(1) by blast
    moreover from this launched_cons [OF w1(2)]
    have "launched (migs w) (take (length (svmName m # names)) (r # rs)) (svmName m # names) (migs w')" by simp
    ultimately show ?thesis by (metis Suc_le_mono length_Cons)
  qed
qed

lemma FindMigratableResources_reads:
  assumes "wf w" and "FindMigratableResources iter d w = (res, w')"
    and "mdCrdClient d = cc" "mdApiserviceClient d = ac" "mdDiscoveryClient d = dc"
  shows "wf w' \<and> migs w' = migs w \<and> crds w' = crds w"
proof -
  obtain x w1 where x: "crdList cc w = (x, w1)" by (metis surj_pair)
  obtain y w2 where y: "apiserviceList ac w1 = (y, w2)" by (metis surj_pair)
  obtain z w3 where z: "discServerGroupsAndResources dc w2 = (z, w3)" by (metis surj_pair)
  note 1 = crd_lists [OF assms(1) x]
  note 2 = apis_lists [OF conjunct1 [OF 1] y]
  note 3 = disc_lists [OF conjunct1 [OF 2] z]
  have "w' = w1 \<or> w' = w2 \<or> w' = w3"
    using assms(2-5) x y z
    by (auto simp: FindMigratableResources_def findCustomGroups_def findAggregatedGroups_def
        split: sum.splits prod.splits option.splits)
  then show ?thesis using 1 2 3 by auto
qed

text \<open>A whole run: the definition is installed, and the migrations are launched in order.\<close>

lemma Initialize_spec:
  assumes "wf w" and "Initialize iter rt ticks init w = (res, w')"
    and "inCrdClient init = cc" "inMigrationClient init = c" "inDiscovery init = NewDiscovery dc cc ac"
  obtains (aborted) r1 w1 where "installed w r1 w1" "res \<noteq> None" "wf w'" "migs w' = migs w1" "crds w' = crds w1"
  | (ran) w1 w2 resources names where "installed w None w1"
      "FindMigratableResources iter (inDiscovery init) w1 = (Inr resources, w2)"
      "migs w2 = migs w1" "crds w2 = crds w1" "createMigrations c resources w2 = (res, w')"
      "launched (migs w2) (take (length names) resources) names (migs w')" "length names \<le> length resources"
      "res = None \<longrightarrow> length names = length resources"
proof -
  obtain r1 w1 where i: "initializeCRD rt ticks init w = (r1, w1)" by (metis surj_pair)
  note inst = initializeCRD_installed [OF assms(1) i assms(3)]
  then have wf1: "wf w1" by (simp add: installed_def)
  obtain y w2 where f: "FindMigratableResources iter (inDiscovery init) w1 = (y, w2)" by (metis surj_pair)
  have rd: "wf w2" "migs w2 = migs w1" "crds w2 = crds w1"
    using FindMigratableResources_reads [OF wf1 f] assms(5) by (simp_all add: NewDiscovery_def)
  show ?thesis
  proof (cases "r1 = None \<and> (\<exists>resources. y = Inr resources)")
    case True
    then obtain resources where y: "y = Inr resources" and r1: "r1 = None" by blast
    have cr: "createMigrations c resources w2 = (res, w')"
      using assms(2,4) i f y r1 by (simp add: Initialize_def)
    from createMigrations_launched [OF this rd(1)] obtain names where
      "launched (migs w2) (take (length names) resources) names (migs w')" "length names \<le> length resources"
      "res = None \<longrightarrow> length names = length resources" by blast
    then show ?thesis using ran inst r1 f y rd cr by blast
  next
    case False
    then have "res \<noteq> None" "w' = w1 \<or> w' = w2"
      using assms(2) i f by (auto simp: Initialize_def split: sum.splits option.splits)
    then show ?thesis using aborted inst wf1 rd by blast
  qed
qed

end

subsection \<open>The properties\<close>

text \<open>
  C30. Installing the custom resource definition. When \<open>initializeCRD\<close> returns nil, the server holds the
  definition of this release under its name, whether or not an older one was there before and
  however long its deletion took; the other definitions are untouched, and no migration was
  added.
\<close>

theorem initializeCRD_installs:
  assumes "init_env c migs valid rt cc ac dc crds terminating" and "valid w"
    and "inCrdClient init = cc" and "initializeCRD rt ticks init w = (None, w')"
  shows "(\<exists>d. crds w' crdName = Some d \<and> crdSpec d = crdSpec migrationCRD)
    \<and> (\<forall>n. n \<noteq> crdName \<longrightarrow> n \<notin> terminating w \<longrightarrow> crds w' n = crds w n) \<and> migs w' \<subseteq>\<^sub>m migs w"
  using init_env.initializeCRD_installed [OF assms(1,2,4,3)]
  by (simp add: init_env.installed_def [OF assms(1)])


end
