(* ===== verification/Go_Path.thy ===== *)
theory Go_Path
  imports Prelude
begin

section \<open>Go's package path\<close>

text \<open>
  \<open>path.Clean\<close> and \<open>path.Join\<close> on slash separated paths, with which the REST client builds the
  paths of its requests. \<open>path_Clean\<close> works on the components: empty ones and dots go, a double
  dot removes the component before it. The lemmas say that joining plain components below a clean
  rooted path neither changes nor merges them, so a server that splits the path finds them again.
\<close>

fun splitSlash :: "string \<Rightarrow> string list" where
  "splitSlash [] = [[]]"
| "splitSlash (c # cs) =
     (if c = CHR ''/'' then [] # splitSlash cs
      else (case splitSlash cs of [] \<Rightarrow> [[c]] | p # ps \<Rightarrow> (c # p) # ps))"

fun joinSlash :: "string list \<Rightarrow> string" where
  "joinSlash [] = []"
| "joinSlash [p] = p"
| "joinSlash (p # ps) = p @ CHR ''/'' # joinSlash ps"

text \<open>The stack \<open>acc\<close> holds the components kept so far, the last one first.\<close>

fun cleanComponents :: "bool \<Rightarrow> string list \<Rightarrow> string list \<Rightarrow> string list" where
  "cleanComponents rooted acc [] = rev acc"
| "cleanComponents rooted acc (p # ps) =
     (if p = [] \<or> p = ''.'' then cleanComponents rooted acc ps
      else if p = ''..'' then
        (case acc of
           [] \<Rightarrow> cleanComponents rooted (if rooted then [] else [p]) ps
         | q # qs \<Rightarrow> if q = ''..'' then cleanComponents rooted (p # acc) ps else cleanComponents rooted qs ps)
      else cleanComponents rooted (p # acc) ps)"

definition path_Clean :: "string \<Rightarrow> string" where
  "path_Clean p =
     (if p = [] then ''.''
      else let rooted = (hd p = CHR ''/''); q = joinSlash (cleanComponents rooted [] (splitSlash p))
           in if rooted then CHR ''/'' # q else if q = [] then ''.'' else q)"

definition path_Join :: "string list \<Rightarrow> string" where
  "path_Join elems =
     (if concat elems = [] then [] else path_Clean (joinSlash (dropWhile (\<lambda>e. e = []) elems)))"

subsection \<open>Plain components\<close>

definition plain :: "string \<Rightarrow> bool" where
  "plain p \<longleftrightarrow> p \<noteq> [] \<and> p \<noteq> ''.'' \<and> p \<noteq> ''..'' \<and> CHR ''/'' \<notin> set p"

lemma plain_no_slash: "plain p \<Longrightarrow> CHR ''/'' \<notin> set p"
  by (simp add: plain_def)

lemma splitSlash_ne [simp]: "splitSlash s \<noteq> []"
  by (cases s) (auto split: list.splits)

lemma splitSlash_plain: "CHR ''/'' \<notin> set s \<Longrightarrow> splitSlash s = [s]"
  by (induction s) auto

lemma splitSlash_append: "CHR ''/'' \<notin> set s \<Longrightarrow> splitSlash (s @ CHR ''/'' # t) = s # splitSlash t"
  by (induction s) auto

lemma splitSlash_joinSlash:
  "ps \<noteq> [] \<Longrightarrow> \<forall>p \<in> set ps. CHR ''/'' \<notin> set p \<Longrightarrow> splitSlash (joinSlash ps) = ps"
  by (induction ps rule: joinSlash.induct) (auto simp: splitSlash_plain splitSlash_append)

lemma joinSlash_Cons: "ps \<noteq> [] \<Longrightarrow> joinSlash (p # ps) = p @ CHR ''/'' # joinSlash ps"
  by (cases ps) simp_all

lemma joinSlash_hd: "joinSlash ((c # p) # ps) = c # joinSlash (p # ps)"
  by (cases ps) simp_all

lemma joinSlash_splitSlash [simp]: "joinSlash (splitSlash s) = s"
proof (induction s)
  case (Cons c s) then show ?case
    by (cases "splitSlash s") (auto simp: joinSlash_hd)
qed simp

lemma joinSlash_append:
  "ps \<noteq> [] \<Longrightarrow> qs \<noteq> [] \<Longrightarrow> joinSlash (ps @ qs) = joinSlash ps @ CHR ''/'' # joinSlash qs"
  by (induction ps rule: joinSlash.induct) (auto simp: neq_Nil_conv)

lemma splitSlash_join2: "splitSlash (s @ CHR ''/'' # t) = splitSlash s @ splitSlash t"
  by (induction s) (auto split: list.splits)

lemma cleanComponents_plain:
  "\<forall>p \<in> set ps. plain p \<Longrightarrow> cleanComponents r acc ps = rev acc @ ps"
  by (induction ps arbitrary: acc) (auto simp: plain_def)

lemma cleanComponents_append:
  "\<forall>p \<in> set ps. plain p \<Longrightarrow> cleanComponents r acc (ps @ qs) = cleanComponents r (rev ps @ acc) qs"
  by (induction ps arbitrary: acc) (auto simp: plain_def)

text \<open>A clean rooted path: a slash and plain components.\<close>

definition rootedPath :: "string list \<Rightarrow> string" where
  "rootedPath ps = CHR ''/'' # joinSlash ps"

lemma splitSlash_rootedPath:
  "ps \<noteq> [] \<Longrightarrow> \<forall>p \<in> set ps. plain p \<Longrightarrow> splitSlash (rootedPath ps) = [] # ps"
  by (simp add: rootedPath_def splitSlash_joinSlash plain_def)

lemma path_Clean_rooted:
  "path_Clean (CHR ''/'' # s) = rootedPath (cleanComponents True [] (splitSlash s))"
  by (simp add: path_Clean_def rootedPath_def)

lemma joinSlash_rooted: "ps \<noteq> [] \<Longrightarrow> qs \<noteq> [] \<Longrightarrow> joinSlash (rootedPath ps # qs) = rootedPath (ps @ qs)"
  by (simp add: rootedPath_def joinSlash_append joinSlash_Cons)

text \<open>Joining components that are plain or empty below a clean rooted path.\<close>

lemma cleanComponents_filter:
  "cleanComponents r acc (filter (\<lambda>p. p \<noteq> []) ps) = cleanComponents r acc ps"
  by (induction r acc ps rule: cleanComponents.induct) (auto split: list.splits)

lemma path_Join_below:
  assumes "ps \<noteq> []" "\<forall>p \<in> set ps. plain p" "qs \<noteq> []" "\<forall>q \<in> set qs. q \<noteq> [] \<longrightarrow> plain q"
  shows "path_Join (rootedPath ps # qs) = rootedPath (ps @ filter (\<lambda>q. q \<noteq> []) qs)"
proof -
  have "CHR ''/'' \<notin> set p" if "p \<in> set (ps @ qs)" for p
    using that assms(2,4) by (cases "p = []") (auto dest: plain_no_slash)
  then have "splitSlash (joinSlash (ps @ qs)) = ps @ qs" using assms(1) by (simp add: splitSlash_joinSlash)
  moreover have "cleanComponents True [] (ps @ qs) = ps @ filter (\<lambda>q. q \<noteq> []) qs"
  proof -
    have "cleanComponents True [] (ps @ qs) = cleanComponents True (rev ps) (filter (\<lambda>q. q \<noteq> []) qs)"
      using cleanComponents_append [OF assms(2)] by (simp add: cleanComponents_filter)
    then show ?thesis using assms(4) by (simp add: cleanComponents_plain)
  qed
  moreover have "path_Join (rootedPath ps # qs) = path_Clean (rootedPath (ps @ qs))"
    using joinSlash_rooted [OF assms(1,3)] by (simp add: path_Join_def rootedPath_def [of ps])
  ultimately show ?thesis
    by (simp add: rootedPath_def [of "ps @ qs"] path_Clean_rooted)
qed

end
