(* ===== verification/Rest_Request.thy ===== *)
theory Rest_Request
  imports Complex_Main Json_Codec Go_Path
begin

section \<open>Requests of the vendored REST client\<close>

text \<open>
  The request builder of \<open>client-go/rest/request.go\<close> that the typed clients chain: an error of one
  step is kept and the later steps do nothing, so that a malformed request is never sent.
  \<open>httpDo\<close> and \<open>httpWatch\<close> of an \<open>httpClient\<close> are the connection to the server: they send a
  request, with the client's own retries and throttling, and return the decoded body of the answer
  (\<open>None\<close> for an empty one) or the error that the answer was turned into, which includes the Status that
  \<open>Result.Error\<close> finds in the body of an unexpected server error. The texts of the builder's
  own errors are shortened.
\<close>

subsection \<open>Bodies and requests on the wire\<close>

datatype requestBody = NoBody | ObjectBody json | RawBody string

record HTTPRequest =
  hrVerb :: string
  hrPath :: string
  hrQuery :: "(string \<times> string list) list"
  hrTimeout :: Duration \<comment> \<open>the query parameter \<open>timeout\<close>, absent when it is 0\<close>
  hrContentType :: string
  hrBody :: requestBody

record 'w httpClient =
  httpDo :: "HTTPRequest \<Rightarrow> ('w, (json option, error) result) call"
  httpWatch :: "HTTPRequest \<Rightarrow> ('w, (nat, error) result) call"

text \<open>The codecs of a client, with the text form of times as the only part that varies.\<close>

record Codecs =
  cdFormat :: "Time \<Rightarrow> string"
  cdParse :: "string \<Rightarrow> Time option"

record 'w RESTClient =
  rcBasePath :: string
  rcVersionedAPIPath :: string
  rcGroupVersion :: GroupVersion
  rcCodecs :: Codecs
  rcRateLimiter :: "(rat \<times> int) option" \<comment> \<open>queries per second and burst of the token bucket\<close>
  rcHttp :: "'w httpClient"

subsection \<open>The builder\<close>

record 'w Request =
  rqHttp :: "'w httpClient"
  rqVerb :: string
  rqPathPrefix :: string
  rqParams :: "(string \<times> string list) list"
  rqContentType :: string
  rqResource :: string
  rqResourceName :: string
  rqSubresource :: string
  rqTimeout :: Duration
  rqErr :: "error option"
  rqBody :: requestBody

definition NewRequest :: "'w RESTClient \<Rightarrow> 'w Request" where
  "NewRequest c =
     \<lparr>rqHttp = rcHttp c, rqVerb = [], rqPathPrefix = path_Join [''/'', rcBasePath c, rcVersionedAPIPath c],
      rqParams = [], rqContentType = [], rqResource = [], rqResourceName = [], rqSubresource = [],
      rqTimeout = 0, rqErr = None, rqBody = NoBody\<rparr>"

definition Request_Verb :: "string \<Rightarrow> 'w Request \<Rightarrow> 'w Request" where
  "Request_Verb verb r = r\<lparr>rqVerb := verb\<rparr>"

definition RESTClient_Get :: "'w RESTClient \<Rightarrow> 'w Request" where
  "RESTClient_Get c = Request_Verb ''GET'' (NewRequest c)"

definition RESTClient_Post :: "'w RESTClient \<Rightarrow> 'w Request" where
  "RESTClient_Post c = Request_Verb ''POST'' (NewRequest c)"

definition RESTClient_Put :: "'w RESTClient \<Rightarrow> 'w Request" where
  "RESTClient_Put c = Request_Verb ''PUT'' (NewRequest c)"

definition RESTClient_Delete :: "'w RESTClient \<Rightarrow> 'w Request" where
  "RESTClient_Delete c = Request_Verb ''DELETE'' (NewRequest c)"

definition RESTClient_Patch :: "string \<Rightarrow> 'w RESTClient \<Rightarrow> 'w Request" where
  "RESTClient_Patch pt c = (Request_Verb ''PATCH'' (NewRequest c))\<lparr>rqContentType := pt\<rparr>"

text \<open>\<open>IsValidPathSegmentName\<close>: what is wrong with a name, nothing for a valid one.\<close>

definition IsValidPathSegmentName :: "string \<Rightarrow> string list" where
  "IsValidPathSegmentName name =
     (if name = ''.'' then [''may not be '' @ name]
      else if name = ''..'' then [''may not be '' @ name]
      else (if strings_Contains name ''/'' then [''may not contain /''] else [])
         @ (if strings_Contains name ''%'' then [''may not contain %''] else []))"

definition Request_Resource :: "string \<Rightarrow> 'w Request \<Rightarrow> 'w Request" where
  "Request_Resource resource r =
     (if rqErr r \<noteq> None then r
      else if rqResource r \<noteq> [] then r\<lparr>rqErr := Some (ErrorString (''resource already set to '' @ rqResource r))\<rparr>
      else if IsValidPathSegmentName resource \<noteq> [] then
        r\<lparr>rqErr := Some (ErrorString (''invalid resource '' @ resource))\<rparr>
      else r\<lparr>rqResource := resource\<rparr>)"

definition Request_Name :: "string \<Rightarrow> 'w Request \<Rightarrow> 'w Request" where
  "Request_Name name r =
     (if rqErr r \<noteq> None then r
      else if name = [] then r\<lparr>rqErr := Some (ErrorString ''resource name may not be empty'')\<rparr>
      else if rqResourceName r \<noteq> [] then
        r\<lparr>rqErr := Some (ErrorString (''resource name already set to '' @ rqResourceName r))\<rparr>
      else if IsValidPathSegmentName name \<noteq> [] then
        r\<lparr>rqErr := Some (ErrorString (''invalid resource name '' @ name))\<rparr>
      else r\<lparr>rqResourceName := name\<rparr>)"

definition Request_SubResource :: "string list \<Rightarrow> 'w Request \<Rightarrow> 'w Request" where
  "Request_SubResource subresources r =
     (if rqErr r \<noteq> None then r
      else let subresource = path_Join subresources in
        if rqSubresource r \<noteq> [] then
          r\<lparr>rqErr := Some (ErrorString (''subresource already set to '' @ rqSubresource r))\<rparr>
        else (case find (\<lambda>s. IsValidPathSegmentName s \<noteq> []) subresources of
                Some s \<Rightarrow> r\<lparr>rqErr := Some (ErrorString (''invalid subresource '' @ s))\<rparr>
              | None \<Rightarrow> r\<lparr>rqSubresource := subresource\<rparr>))"

text \<open>The parameters that a codec made of an options object are added to those of the request.\<close>

definition addParam :: "string \<times> string list \<Rightarrow> (string \<times> string list) list \<Rightarrow> (string \<times> string list) list" where
  "addParam kv ps = (case kv of (k, vs) \<Rightarrow>
     (case map_of ps k of None \<Rightarrow> ps @ [(k, vs)]
      | Some us \<Rightarrow> map (\<lambda>(k', ws). if k' = k then (k', ws @ vs) else (k', ws)) ps))"

definition Request_VersionedParams :: "(string \<times> string list) list \<Rightarrow> 'w Request \<Rightarrow> 'w Request" where
  "Request_VersionedParams params r =
     (if rqErr r \<noteq> None then r else r\<lparr>rqParams := fold addParam params (rqParams r)\<rparr>)"

definition Request_Timeout :: "Duration \<Rightarrow> 'w Request \<Rightarrow> 'w Request" where
  "Request_Timeout d r = (if rqErr r \<noteq> None then r else r\<lparr>rqTimeout := d\<rparr>)"

text \<open>
  \<open>Body\<close>: an object is encoded and sets the content type, bytes are sent as they are.
\<close>

definition Request_Body :: "requestBody \<Rightarrow> 'w Request \<Rightarrow> 'w Request" where
  "Request_Body b r =
     (if rqErr r \<noteq> None then r
      else case b of
        NoBody \<Rightarrow> r
      | ObjectBody j \<Rightarrow> r\<lparr>rqBody := b, rqContentType := ''application/json''\<rparr>
      | RawBody data \<Rightarrow> r\<lparr>rqBody := b\<rparr>)"

definition Request_URL :: "'w Request \<Rightarrow> string" where
  "Request_URL r =
     (let p = rqPathPrefix r;
          p = (if rqResource r \<noteq> [] then path_Join [p, strings_ToLower (rqResource r)] else p)
      in if rqResourceName r \<noteq> [] \<or> rqSubresource r \<noteq> []
         then path_Join [p, rqResourceName r, rqSubresource r, []] else p)"

definition newHTTPRequest :: "'w Request \<Rightarrow> HTTPRequest" where
  "newHTTPRequest r =
     \<lparr>hrVerb = rqVerb r, hrPath = Request_URL r, hrQuery = rqParams r, hrTimeout = rqTimeout r,
      hrContentType = rqContentType r, hrBody = rqBody r\<rparr>"

definition Request_Do :: "'w Request \<Rightarrow> ('w, (json option, error) result) call" where
  "Request_Do r w = (case rqErr r of Some e \<Rightarrow> (Inl e, w) | None \<Rightarrow> httpDo (rqHttp r) (newHTTPRequest r) w)"

definition Request_Watch :: "'w Request \<Rightarrow> ('w, (nat, error) result) call" where
  "Request_Watch r w = (case rqErr r of Some e \<Rightarrow> (Inl e, w) | None \<Rightarrow> httpWatch (rqHttp r) (newHTTPRequest r) w)"

subsection \<open>Decoding an answer\<close>

text \<open>
  The codecs of the clientset: the decoder creates the object that the kind in the document names
  and clears its kind, the encoder writes the kind of the object's type.
\<close>

datatype runtimeObject =
    RState StorageState
  | RMigration StorageVersionMigration
  | RStateList StorageStateList
  | RMigrationList StorageVersionMigrationList
  | RStatus string Status \<comment> \<open>with its field \<open>status\<close>\<close>

definition apiVersionOf :: "GroupVersion \<Rightarrow> string" where
  "apiVersionOf gv = GroupVersion_String gv"

definition typeMeta :: "string \<Rightarrow> TypeMeta" where
  "typeMeta k = \<lparr>tmKind = k, tmAPIVersion = apiVersionOf SchemeGroupVersion\<rparr>"

definition encodeState :: "(Time \<Rightarrow> string) \<Rightarrow> StorageState \<Rightarrow> json" where
  "encodeState fmt s = stateJSON fmt (s\<lparr>ssTypeMeta := typeMeta ''StorageState''\<rparr>)"

definition encodeMigration :: "(Time \<Rightarrow> string) \<Rightarrow> StorageVersionMigration \<Rightarrow> json" where
  "encodeMigration fmt m = migrationJSON fmt (m\<lparr>svmTypeMeta := typeMeta ''StorageVersionMigration''\<rparr>)"

definition encodeStateList :: "(Time \<Rightarrow> string) \<Rightarrow> StorageStateList \<Rightarrow> json" where
  "encodeStateList fmt l = stateListJSON fmt (l\<lparr>slTypeMeta := typeMeta ''StorageStateList''\<rparr>)"

definition encodeMigrationList :: "(Time \<Rightarrow> string) \<Rightarrow> StorageVersionMigrationList \<Rightarrow> json" where
  "encodeMigrationList fmt l = migrationListJSON fmt (l\<lparr>vlTypeMeta := typeMeta ''StorageVersionMigrationList''\<rparr>)"

definition detailsOfJSON :: "(string \<times> json) list \<Rightarrow> StatusDetails option" where
  "detailsOfJSON o' =
     do { n \<leftarrow> strField ''name'' o'; g \<leftarrow> strField ''group'' o'; k \<leftarrow> strField ''kind'' o';
          s \<leftarrow> intField ''retryAfterSeconds'' o';
          Some \<lparr>sdName = n, sdGroup = g, sdKind = k, sdRetryAfterSeconds = case_option 0 id s\<rparr> }"

definition statusOfJSON :: "(string \<times> json) list \<Rightarrow> (string \<times> Status) option" where
  "statusOfJSON o' =
     do { lm \<leftarrow> Option.bind (objField ''metadata'' o') listMetaOfJSON;
          st \<leftarrow> strField ''status'' o'; msg \<leftarrow> strField ''message'' o'; r \<leftarrow> strField ''reason'' o';
          code \<leftarrow> intField ''code'' o'; d \<leftarrow> objField ''details'' o'; details \<leftarrow> detailsOfJSON d;
          Some (st, \<lparr>stContinue = lmContinue lm, stMessage = msg, stReason = r,
                     stDetails = (if map_of o' ''details'' \<in> {None, Some JNull} then None else Some details),
                     stCode = case_option 0 id code\<rparr>) }"

definition decodeError :: "string \<Rightarrow> error" where
  "decodeError msg = OtherError ''decoding error'' msg None"

definition decodeKind :: "(string \<Rightarrow> Time option) \<Rightarrow> string \<Rightarrow> string \<Rightarrow> (string \<times> json) list \<Rightarrow> runtimeObject option" where
  "decodeKind parse k v o' =
     (if v = apiVersionOf SchemeGroupVersion then
        (if k = ''StorageState'' then map_option (\<lambda>s. RState (s\<lparr>ssTypeMeta := zeroTypeMeta\<rparr>)) (stateOfJSON parse o')
         else if k = ''StorageVersionMigration'' then
           map_option (\<lambda>m. RMigration (m\<lparr>svmTypeMeta := zeroTypeMeta\<rparr>)) (migrationOfJSON parse o')
         else if k = ''StorageStateList'' then
           map_option (\<lambda>l. RStateList (l\<lparr>slTypeMeta := zeroTypeMeta\<rparr>)) (stateListOfJSON parse o')
         else if k = ''StorageVersionMigrationList'' then
           map_option (\<lambda>l. RMigrationList (l\<lparr>vlTypeMeta := zeroTypeMeta\<rparr>)) (migrationListOfJSON parse o')
         else None)
      else if v = ''v1'' \<and> k = ''Status'' then map_option (\<lambda>(st, s). RStatus st s) (statusOfJSON o')
      else None)"

fun decodeObject :: "(string \<Rightarrow> Time option) \<Rightarrow> json \<Rightarrow> (runtimeObject, error) result" where
  "decodeObject parse (JObj o') =
     (case (strField ''kind'' o', strField ''apiVersion'' o') of
        (Some k, Some v) \<Rightarrow>
          (case decodeKind parse k v o' of Some x \<Rightarrow> Inr x | None \<Rightarrow> Inl (decodeError ''no kind matches''))
      | _ \<Rightarrow> Inl (decodeError ''couldn't get version/kind''))"
| "decodeObject parse j = Inl (decodeError ''cannot unmarshal'')"

text \<open>
  \<open>Into(obj)\<close>: the object that \<open>fits\<close> is stored into \<open>obj\<close>; a Status other than success is an
  error; an object of another kind leaves \<open>obj\<close> as it was (\<open>zero\<close>).
\<close>

definition Result_Into ::
    "(string \<Rightarrow> Time option) \<Rightarrow> (runtimeObject \<Rightarrow> 'a option) \<Rightarrow> 'a \<Rightarrow> (json option, error) result \<Rightarrow> ('a, error) result" where
  "Result_Into parse fits zero res =
     (case res of
        Inl e \<Rightarrow> Inl e
      | Inr None \<Rightarrow> Inl (ErrorString ''0-length response'')
      | Inr (Some j) \<Rightarrow>
          (case decodeObject parse j of
             Inl e \<Rightarrow> Inl e
           | Inr out \<Rightarrow>
               (case fits out of
                  Some x \<Rightarrow> Inr x
                | None \<Rightarrow> (case out of RStatus st s \<Rightarrow> if st \<noteq> ''Success'' then Inl (StatusError s) else Inr zero
                           | _ \<Rightarrow> Inr zero))))"

definition Result_Error :: "(json option, error) result \<Rightarrow> error option" where
  "Result_Error res = (case res of Inl e \<Rightarrow> Some e | Inr _ \<Rightarrow> None)"

subsection \<open>What is sent\<close>

lemmas request_defs = NewRequest_def Request_Verb_def RESTClient_Get_def RESTClient_Post_def RESTClient_Put_def
  RESTClient_Delete_def RESTClient_Patch_def Request_Resource_def Request_Name_def Request_SubResource_def
  Request_VersionedParams_def Request_Timeout_def Request_Body_def

lemma strings_Contains_singleton: "strings_Contains s [c] \<longleftrightarrow> c \<in> set s"
  by (induction s) auto

lemma IsValidPathSegmentName_plain:
  "s \<noteq> [] \<Longrightarrow> IsValidPathSegmentName s = [] \<longleftrightarrow> plain s \<and> CHR ''%'' \<notin> set s"
  by (auto simp: IsValidPathSegmentName_def plain_def strings_Contains_singleton)

lemma decode_encodeState:
  assumes "codec fmt parse" "LastHeartbeatTime (ssStatus s) mod second = 0" "ssTypeMeta s = zeroTypeMeta"
  shows "decodeObject parse (encodeState fmt s) = Inr (RState s)"
proof -
  let ?s = "s\<lparr>ssTypeMeta := typeMeta ''StorageState''\<rparr>"
  obtain o' where o': "stateJSON fmt ?s = JObj o'" by (simp add: stateJSON_def)
  then have "strField ''kind'' o' = Some ''StorageState''" "strField ''apiVersion'' o' = Some (apiVersionOf SchemeGroupVersion)"
    by (auto simp: stateJSON_def typeMeta_def strField_def)
  moreover have "stateOfJSON parse o' = Some ?s" using assms(1,2) o' by (intro stateOfJSON_stateJSON) simp_all
  ultimately show ?thesis using assms(3) o' by (simp add: encodeState_def decodeKind_def)
qed

lemma decode_encodeMigration:
  assumes "codec fmt parse" "wholeSeconds m" "svmTypeMeta m = zeroTypeMeta"
  shows "decodeObject parse (encodeMigration fmt m) = Inr (RMigration m)"
proof -
  let ?m = "m\<lparr>svmTypeMeta := typeMeta ''StorageVersionMigration''\<rparr>"
  obtain o' where o': "migrationJSON fmt ?m = JObj o'" by (simp add: migrationJSON_def)
  then have "strField ''kind'' o' = Some ''StorageVersionMigration''" "strField ''apiVersion'' o' = Some (apiVersionOf SchemeGroupVersion)"
    by (auto simp: migrationJSON_def typeMeta_def strField_def)
  moreover have "migrationOfJSON parse o' = Some ?m"
    using assms(1,2) o' by (intro migrationOfJSON_migrationJSON) (simp_all add: wholeSeconds_def)
  ultimately show ?thesis using assms(3) o' by (simp add: encodeMigration_def decodeKind_def)
qed

end
