(* ===== verification/Rest_Client.thy ===== *)
theory Rest_Client
  imports Rest_Request Client_Interfaces
begin

section \<open>The typed REST clients and the clientset\<close>

text \<open>
  The generated clients of \<open>pkg/clients/clientset\<close>: the methods of \<open>storageStates\<close> and
  \<open>storageVersionMigrations\<close> (\<open>typed/migration/v1alpha1\<close>) as chains of request builder steps, the client
  of the API group (\<open>migration_client.go\<close>) and the clientset (\<open>clientset.go\<close>) made from a
  configuration. What the vendored library decides about hosts, transports and the discovery
  client is the record \<open>RestLibrary\<close>.
\<close>

subsection \<open>Options\<close>

text \<open>
  The options of \<open>meta/v1\<close> and the query parameters that \<open>scheme.ParameterCodec\<close> makes of them by
  their json tags, all of which say \<open>omitempty\<close>.
\<close>

record GetOptions =
  goResourceVersion :: string

record MetaListOptions =
  loLabelSelector :: string
  loFieldSelector :: string
  loWatch :: bool
  loAllowWatchBookmarks :: bool
  loResourceVersion :: string
  loResourceVersionMatch :: string
  loTimeoutSeconds :: "int option"
  loLimit :: int
  loContinueToken :: string
  loSendInitialEvents :: "bool option"

record WriteOptions = \<comment> \<open>\<open>CreateOptions\<close> and \<open>UpdateOptions\<close> have the same fields\<close>
  woDryRun :: "string list"
  woFieldManager :: string
  woFieldValidation :: string

record PatchOptions = WriteOptions +
  woForce :: "bool option"

record DeleteOptions =
  doGracePeriodSeconds :: "int option"
  doOrphanDependents :: "bool option"
  doPropagationPolicy :: "string option"
  doDryRun :: "string list"

definition digit :: "nat \<Rightarrow> char" where "digit n = char_of (48 + n)"

fun decimal :: "nat \<Rightarrow> string" where
  "decimal n = (if n < 10 then [digit n] else decimal (n div 10) @ [digit (n mod 10)])"

definition intString :: "int \<Rightarrow> string" where
  "intString i = (if i < 0 then CHR ''-'' # decimal (nat (- i)) else decimal (nat i))"

definition boolString :: "bool \<Rightarrow> string" where
  "boolString b = (if b then ''true'' else ''false'')"

definition param :: "string \<Rightarrow> string \<Rightarrow> (string \<times> string list) list" where
  "param k s = (if s = [] then [] else [(k, [s])])"

definition optParam :: "string \<Rightarrow> ('a \<Rightarrow> string) \<Rightarrow> 'a option \<Rightarrow> (string \<times> string list) list" where
  "optParam k str x = (case x of None \<Rightarrow> [] | Some y \<Rightarrow> [(k, [str y])])"

definition encodeGetOptions :: "GetOptions \<Rightarrow> (string \<times> string list) list" where
  "encodeGetOptions opts = param ''resourceVersion'' (goResourceVersion opts)"

definition encodeListOptions :: "MetaListOptions \<Rightarrow> (string \<times> string list) list" where
  "encodeListOptions opts =
     param ''labelSelector'' (loLabelSelector opts) @ param ''fieldSelector'' (loFieldSelector opts) @
     (if loWatch opts then [(''watch'', [''true''])] else []) @
     (if loAllowWatchBookmarks opts then [(''allowWatchBookmarks'', [''true''])] else []) @
     param ''resourceVersion'' (loResourceVersion opts) @
     param ''resourceVersionMatch'' (loResourceVersionMatch opts) @
     optParam ''timeoutSeconds'' intString (loTimeoutSeconds opts) @
     (if loLimit opts = 0 then [] else [(''limit'', [intString (loLimit opts)])]) @
     param ''continue'' (loContinueToken opts) @
     optParam ''sendInitialEvents'' boolString (loSendInitialEvents opts)"

definition encodeWriteOptions :: "'a WriteOptions_scheme \<Rightarrow> (string \<times> string list) list" where
  "encodeWriteOptions opts =
     (if woDryRun opts = [] then [] else [(''dryRun'', woDryRun opts)]) @
     param ''fieldManager'' (woFieldManager opts) @ param ''fieldValidation'' (woFieldValidation opts)"

definition encodePatchOptions :: "PatchOptions \<Rightarrow> (string \<times> string list) list" where
  "encodePatchOptions opts = encodeWriteOptions opts @ optParam ''force'' boolString (woForce opts)"

definition deleteOptionsJSON :: "DeleteOptions \<Rightarrow> json" where
  "deleteOptionsJSON opts = JObj
     ([(''kind'', JStr ''DeleteOptions''), (''apiVersion'', JStr (apiVersionOf SchemeGroupVersion))] @
      (case doGracePeriodSeconds opts of None \<Rightarrow> [] | Some n \<Rightarrow> [(''gracePeriodSeconds'', JInt n)]) @
      (case doOrphanDependents opts of None \<Rightarrow> [] | Some b \<Rightarrow> [(''orphanDependents'', JBool b)]) @
      (case doPropagationPolicy opts of None \<Rightarrow> [] | Some p \<Rightarrow> [(''propagationPolicy'', JStr p)]) @
      (if doDryRun opts = [] then [] else [(''dryRun'', JArr (map JStr (doDryRun opts)))]))"

text \<open>
  \<open>time.Duration(*opts.TimeoutSeconds) * time.Second\<close>: the product of 64 bit integers wraps around.
\<close>

definition wrap64 :: "int \<Rightarrow> int" where
  "wrap64 x = (x + 2 ^ 63) mod 2 ^ 64 - 2 ^ 63"

definition listTimeout :: "MetaListOptions \<Rightarrow> Duration" where
  "listTimeout opts = (case loTimeoutSeconds opts of None \<Rightarrow> 0 | Some t \<Rightarrow> wrap64 (t * second))"

text \<open>The zero values that the answers are decoded into.\<close>

definition zeroStorageState :: StorageState where
  "zeroStorageState =
     \<lparr>ssTypeMeta = zeroTypeMeta, ssMeta = zeroObjectMeta,
      ssSpec = \<lparr>ssSpecResource = \<lparr>grGroup = [], grResource = []\<rparr>\<rparr>, ssStatus = zeroStorageStateStatus\<rparr>"

definition zeroStorageVersionMigration :: StorageVersionMigration where
  "zeroStorageVersionMigration =
     \<lparr>svmTypeMeta = zeroTypeMeta, svmMeta = zeroObjectMeta,
      svmSpec = \<lparr>specResource = \<lparr>gvrGroup = [], gvrVersion = [], gvrResource = []\<rparr>, specContinueToken = []\<rparr>,
      svmStatus = \<lparr>smConditions = []\<rparr>\<rparr>"

definition zeroListMeta :: ListMeta where
  "zeroListMeta = \<lparr>lmResourceVersion = [], lmContinue = [], lmRemainingItemCount = None\<rparr>"

definition zeroStorageStateList :: StorageStateList where
  "zeroStorageStateList = \<lparr>slTypeMeta = zeroTypeMeta, slListMeta = zeroListMeta, slItems = []\<rparr>"

definition zeroStorageVersionMigrationList :: StorageVersionMigrationList where
  "zeroStorageVersionMigrationList = \<lparr>vlTypeMeta = zeroTypeMeta, vlListMeta = zeroListMeta, vlItems = []\<rparr>"

fun asState :: "runtimeObject \<Rightarrow> StorageState option" where
  "asState (RState s) = Some s"
| "asState x = None"

fun asMigration :: "runtimeObject \<Rightarrow> StorageVersionMigration option" where
  "asMigration (RMigration m) = Some m"
| "asMigration x = None"

fun asStateList :: "runtimeObject \<Rightarrow> StorageStateList option" where
  "asStateList (RStateList l) = Some l"
| "asStateList x = None"

fun asMigrationList :: "runtimeObject \<Rightarrow> StorageVersionMigrationList option" where
  "asMigrationList (RMigrationList l) = Some l"
| "asMigrationList x = None"

definition into :: "'w RESTClient \<Rightarrow> (runtimeObject \<Rightarrow> 'a option) \<Rightarrow> 'a \<Rightarrow> (json option, error) result \<Rightarrow> ('a, error) result" where
  "into c = Result_Into (cdParse (rcCodecs c))"

text \<open>The client of the API group, which the typed clients share.\<close>

record 'w MigrationV1alpha1Client =
  mvRestClient :: "'w RESTClient"

text \<open>\<open>RESTClient()\<close> may be called on a nil client.\<close>

definition MigrationV1alpha1Client_RESTClient :: "'w MigrationV1alpha1Client option \<Rightarrow> 'w RESTClient option" where
  "MigrationV1alpha1Client_RESTClient c = map_option mvRestClient c"

subsection \<open>storagestate.go\<close>

record 'w storageStates =
  stClient :: "'w RESTClient"

definition newStorageStates :: "'w MigrationV1alpha1Client \<Rightarrow> 'w storageStates" where
  "newStorageStates c = \<lparr>stClient = mvRestClient c\<rparr>"

definition rSS_Get :: "'w storageStates \<Rightarrow> string \<Rightarrow> GetOptions \<Rightarrow> ('w, (StorageState, error) result) call" where
  "rSS_Get c name options w =
     apfst (into (stClient c) asState zeroStorageState)
       (Request_Do
          (Request_VersionedParams (encodeGetOptions options)
          (Request_Name name
          (Request_Resource ''storagestates''
          (RESTClient_Get (stClient c))))) w)"

definition rSS_List :: "'w storageStates \<Rightarrow> MetaListOptions \<Rightarrow> ('w, (StorageStateList, error) result) call" where
  "rSS_List c opts w =
     (let timeout = listTimeout opts in
      apfst (into (stClient c) asStateList zeroStorageStateList)
       (Request_Do
          (Request_Timeout timeout
          (Request_VersionedParams (encodeListOptions opts)
          (Request_Resource ''storagestates''
          (RESTClient_Get (stClient c))))) w))"

definition rSS_Watch :: "'w storageStates \<Rightarrow> MetaListOptions \<Rightarrow> ('w, (nat, error) result) call" where
  "rSS_Watch c opts w =
     (let timeout = listTimeout opts; opts = opts\<lparr>loWatch := True\<rparr> in
      Request_Watch
          (Request_Timeout timeout
          (Request_VersionedParams (encodeListOptions opts)
          (Request_Resource ''storagestates''
          (RESTClient_Get (stClient c))))) w)"

definition rSS_Create :: "'w storageStates \<Rightarrow> StorageState \<Rightarrow> WriteOptions \<Rightarrow> ('w, (StorageState, error) result) call" where
  "rSS_Create c obj opts w =
     apfst (into (stClient c) asState zeroStorageState)
       (Request_Do
          (Request_Body (ObjectBody (encodeState (cdFormat (rcCodecs (stClient c))) obj))
          (Request_VersionedParams (encodeWriteOptions opts)
          (Request_Resource ''storagestates''
          (RESTClient_Post (stClient c))))) w)"

definition rSS_Update :: "'w storageStates \<Rightarrow> StorageState \<Rightarrow> WriteOptions \<Rightarrow> ('w, (StorageState, error) result) call" where
  "rSS_Update c obj opts w =
     apfst (into (stClient c) asState zeroStorageState)
       (Request_Do
          (Request_Body (ObjectBody (encodeState (cdFormat (rcCodecs (stClient c))) obj))
          (Request_VersionedParams (encodeWriteOptions opts)
          (Request_Name (ssName obj)
          (Request_Resource ''storagestates''
          (RESTClient_Put (stClient c)))))) w)"

definition rSS_UpdateStatus :: "'w storageStates \<Rightarrow> StorageState \<Rightarrow> WriteOptions \<Rightarrow> ('w, (StorageState, error) result) call" where
  "rSS_UpdateStatus c obj opts w =
     apfst (into (stClient c) asState zeroStorageState)
       (Request_Do
          (Request_Body (ObjectBody (encodeState (cdFormat (rcCodecs (stClient c))) obj))
          (Request_VersionedParams (encodeWriteOptions opts)
          (Request_SubResource [''status'']
          (Request_Name (ssName obj)
          (Request_Resource ''storagestates''
          (RESTClient_Put (stClient c))))))) w)"

definition rSS_Delete :: "'w storageStates \<Rightarrow> string \<Rightarrow> DeleteOptions \<Rightarrow> ('w, error option) call" where
  "rSS_Delete c name opts w =
     apfst Result_Error
       (Request_Do
          (Request_Body (ObjectBody (deleteOptionsJSON opts))
          (Request_Name name
          (Request_Resource ''storagestates''
          (RESTClient_Delete (stClient c))))) w)"

definition rSS_DeleteCollection :: "'w storageStates \<Rightarrow> DeleteOptions \<Rightarrow> MetaListOptions \<Rightarrow> ('w, error option) call" where
  "rSS_DeleteCollection c opts listOpts w =
     (let timeout = listTimeout listOpts in
      apfst Result_Error
       (Request_Do
          (Request_Body (ObjectBody (deleteOptionsJSON opts))
          (Request_Timeout timeout
          (Request_VersionedParams (encodeListOptions listOpts)
          (Request_Resource ''storagestates''
          (RESTClient_Delete (stClient c)))))) w))"

definition rSS_Patch ::
    "'w storageStates \<Rightarrow> string \<Rightarrow> string \<Rightarrow> string \<Rightarrow> PatchOptions \<Rightarrow> string list \<Rightarrow> ('w, (StorageState, error) result) call" where
  "rSS_Patch c name pt data opts subresources w =
     apfst (into (stClient c) asState zeroStorageState)
       (Request_Do
          (Request_Body (RawBody data)
          (Request_VersionedParams (encodePatchOptions opts)
          (Request_SubResource subresources
          (Request_Name name
          (Request_Resource ''storagestates''
          (RESTClient_Patch pt (stClient c))))))) w)"

subsection \<open>storageversionmigration.go\<close>

record 'w storageVersionMigrations =
  svClient :: "'w RESTClient"

definition newStorageVersionMigrations :: "'w MigrationV1alpha1Client \<Rightarrow> 'w storageVersionMigrations" where
  "newStorageVersionMigrations c = \<lparr>svClient = mvRestClient c\<rparr>"

definition rSVM_Get :: "'w storageVersionMigrations \<Rightarrow> string \<Rightarrow> GetOptions \<Rightarrow> ('w, (StorageVersionMigration, error) result) call" where
  "rSVM_Get c name options w =
     apfst (into (svClient c) asMigration zeroStorageVersionMigration)
       (Request_Do
          (Request_VersionedParams (encodeGetOptions options)
          (Request_Name name
          (Request_Resource ''storageversionmigrations''
          (RESTClient_Get (svClient c))))) w)"

definition rSVM_List :: "'w storageVersionMigrations \<Rightarrow> MetaListOptions \<Rightarrow> ('w, (StorageVersionMigrationList, error) result) call" where
  "rSVM_List c opts w =
     (let timeout = listTimeout opts in
      apfst (into (svClient c) asMigrationList zeroStorageVersionMigrationList)
       (Request_Do
          (Request_Timeout timeout
          (Request_VersionedParams (encodeListOptions opts)
          (Request_Resource ''storageversionmigrations''
          (RESTClient_Get (svClient c))))) w))"

definition rSVM_Watch :: "'w storageVersionMigrations \<Rightarrow> MetaListOptions \<Rightarrow> ('w, (nat, error) result) call" where
  "rSVM_Watch c opts w =
     (let timeout = listTimeout opts; opts = opts\<lparr>loWatch := True\<rparr> in
      Request_Watch
          (Request_Timeout timeout
          (Request_VersionedParams (encodeListOptions opts)
          (Request_Resource ''storageversionmigrations''
          (RESTClient_Get (svClient c))))) w)"

definition rSVM_Create :: "'w storageVersionMigrations \<Rightarrow> StorageVersionMigration \<Rightarrow> WriteOptions \<Rightarrow> ('w, (StorageVersionMigration, error) result) call" where
  "rSVM_Create c obj opts w =
     apfst (into (svClient c) asMigration zeroStorageVersionMigration)
       (Request_Do
          (Request_Body (ObjectBody (encodeMigration (cdFormat (rcCodecs (svClient c))) obj))
          (Request_VersionedParams (encodeWriteOptions opts)
          (Request_Resource ''storageversionmigrations''
          (RESTClient_Post (svClient c))))) w)"

definition rSVM_Update :: "'w storageVersionMigrations \<Rightarrow> StorageVersionMigration \<Rightarrow> WriteOptions \<Rightarrow> ('w, (StorageVersionMigration, error) result) call" where
  "rSVM_Update c obj opts w =
     apfst (into (svClient c) asMigration zeroStorageVersionMigration)
       (Request_Do
          (Request_Body (ObjectBody (encodeMigration (cdFormat (rcCodecs (svClient c))) obj))
          (Request_VersionedParams (encodeWriteOptions opts)
          (Request_Name (svmName obj)
          (Request_Resource ''storageversionmigrations''
          (RESTClient_Put (svClient c)))))) w)"

definition rSVM_UpdateStatus :: "'w storageVersionMigrations \<Rightarrow> StorageVersionMigration \<Rightarrow> WriteOptions \<Rightarrow> ('w, (StorageVersionMigration, error) result) call" where
  "rSVM_UpdateStatus c obj opts w =
     apfst (into (svClient c) asMigration zeroStorageVersionMigration)
       (Request_Do
          (Request_Body (ObjectBody (encodeMigration (cdFormat (rcCodecs (svClient c))) obj))
          (Request_VersionedParams (encodeWriteOptions opts)
          (Request_SubResource [''status'']
          (Request_Name (svmName obj)
          (Request_Resource ''storageversionmigrations''
          (RESTClient_Put (svClient c))))))) w)"

definition rSVM_Delete :: "'w storageVersionMigrations \<Rightarrow> string \<Rightarrow> DeleteOptions \<Rightarrow> ('w, error option) call" where
  "rSVM_Delete c name opts w =
     apfst Result_Error
       (Request_Do
          (Request_Body (ObjectBody (deleteOptionsJSON opts))
          (Request_Name name
          (Request_Resource ''storageversionmigrations''
          (RESTClient_Delete (svClient c))))) w)"

definition rSVM_DeleteCollection :: "'w storageVersionMigrations \<Rightarrow> DeleteOptions \<Rightarrow> MetaListOptions \<Rightarrow> ('w, error option) call" where
  "rSVM_DeleteCollection c opts listOpts w =
     (let timeout = listTimeout listOpts in
      apfst Result_Error
       (Request_Do
          (Request_Body (ObjectBody (deleteOptionsJSON opts))
          (Request_Timeout timeout
          (Request_VersionedParams (encodeListOptions listOpts)
          (Request_Resource ''storageversionmigrations''
          (RESTClient_Delete (svClient c)))))) w))"

definition rSVM_Patch ::
    "'w storageVersionMigrations \<Rightarrow> string \<Rightarrow> string \<Rightarrow> string \<Rightarrow> PatchOptions \<Rightarrow> string list \<Rightarrow> ('w, (StorageVersionMigration, error) result) call" where
  "rSVM_Patch c name pt data opts subresources w =
     apfst (into (svClient c) asMigration zeroStorageVersionMigration)
       (Request_Do
          (Request_Body (RawBody data)
          (Request_VersionedParams (encodePatchOptions opts)
          (Request_SubResource subresources
          (Request_Name name
          (Request_Resource ''storageversionmigrations''
          (RESTClient_Patch pt (svClient c))))))) w)"

subsection \<open>migration_client.go\<close>

record Config =
  cfHost :: string
  cfAPIPath :: string
  cfGroupVersion :: "GroupVersion option"
  cfNegotiatedSerializer :: "Codecs option"
  cfUserAgent :: string
  cfQPS :: rat
  cfBurst :: int
  cfRateLimiter :: "(rat \<times> int) option"

text \<open>
  The vendored library: the codecs of package \<open>scheme\<close>, the default user agent, the transport it makes
  for a configuration, the path part of the URL of the configured host, and the discovery client.
\<close>

record ('w, 'd) RestLibrary =
  rlCodecs :: Codecs
  rlUserAgent :: string
  rlHTTPClientFor :: "Config \<Rightarrow> ('w httpClient, error) result"
  rlHostPath :: "Config \<Rightarrow> (string, error) result"
  rlNewDiscoveryClient :: "Config \<Rightarrow> 'w httpClient \<Rightarrow> ('d, error) result"
  rlDiscoveryOf :: "'w RESTClient \<Rightarrow> 'd" \<comment> \<open>\<open>discovery.NewDiscoveryClient\<close>\<close>

definition DefaultVersionedAPIPath :: "string \<Rightarrow> GroupVersion \<Rightarrow> string" where
  "DefaultVersionedAPIPath apiPath gv =
     (let p = path_Join [''/'', apiPath] in
      if gvGroup gv \<noteq> [] then path_Join [p, gvGroup gv, gvVersion gv] else path_Join [p, gvVersion gv])"

definition RESTClientForConfigAndClient ::
    "('w, 'd) RestLibrary \<Rightarrow> Config \<Rightarrow> 'w httpClient \<Rightarrow> ('w RESTClient, error) result" where
  "RESTClientForConfigAndClient lib config h =
     (case cfGroupVersion config of
        None \<Rightarrow> Inl (ErrorString ''GroupVersion is required when initializing a RESTClient'')
      | Some gv \<Rightarrow>
        (case cfNegotiatedSerializer config of
           None \<Rightarrow> Inl (ErrorString ''NegotiatedSerializer is required when initializing a RESTClient'')
         | Some cd \<Rightarrow>
           (case rlHostPath lib config of
              Inl e \<Rightarrow> Inl e
            | Inr base \<Rightarrow>
                (let qps = (if cfQPS config = 0 then 5 else cfQPS config);
                     burst = (if cfBurst config = 0 then 10 else cfBurst config);
                     limiter = (case cfRateLimiter config of
                                  Some l \<Rightarrow> Some l | None \<Rightarrow> if qps > 0 then Some (qps, burst) else None)
                 in Inr \<lparr>rcBasePath = base, rcVersionedAPIPath = DefaultVersionedAPIPath (cfAPIPath config) gv,
                         rcGroupVersion = gv, rcCodecs = cd, rcRateLimiter = limiter, rcHttp = h\<rparr>))))"

definition setConfigDefaults :: "('w, 'd) RestLibrary \<Rightarrow> Config \<Rightarrow> Config" where
  "setConfigDefaults lib config =
     (let config = config\<lparr>cfGroupVersion := Some SchemeGroupVersion, cfAPIPath := ''/apis'',
                          cfNegotiatedSerializer := Some (rlCodecs lib)\<rparr>
      in if cfUserAgent config = [] then config\<lparr>cfUserAgent := rlUserAgent lib\<rparr> else config)"

definition typed_NewForConfigAndClient ::
    "('w, 'd) RestLibrary \<Rightarrow> Config \<Rightarrow> 'w httpClient \<Rightarrow> ('w MigrationV1alpha1Client, error) result" where
  "typed_NewForConfigAndClient lib c h =
     map_sum id (\<lambda>client. \<lparr>mvRestClient = client\<rparr>) (RESTClientForConfigAndClient lib (setConfigDefaults lib c) h)"

definition typed_NewForConfig :: "('w, 'd) RestLibrary \<Rightarrow> Config \<Rightarrow> ('w MigrationV1alpha1Client, error) result" where
  "typed_NewForConfig lib c =
     (let config = setConfigDefaults lib c in
      case rlHTTPClientFor lib config of
        Inl e \<Rightarrow> Inl e
      | Inr httpClient \<Rightarrow> typed_NewForConfigAndClient lib config httpClient)"

text \<open>\<open>NewForConfigOrDie\<close> panics (\<open>None\<close>) where \<open>NewForConfig\<close> returns an error.\<close>

definition typed_NewForConfigOrDie :: "('w, 'd) RestLibrary \<Rightarrow> Config \<Rightarrow> 'w MigrationV1alpha1Client option" where
  "typed_NewForConfigOrDie lib c = (case typed_NewForConfig lib c of Inl e \<Rightarrow> None | Inr client \<Rightarrow> Some client)"

definition typed_New :: "'w RESTClient \<Rightarrow> 'w MigrationV1alpha1Client" where
  "typed_New c = \<lparr>mvRestClient = c\<rparr>"

text \<open>
  The getters give the interfaces the controllers call; the controllers pass empty options only.
\<close>

definition noGetOptions :: GetOptions where "noGetOptions = \<lparr>goResourceVersion = []\<rparr>"

definition noWriteOptions :: WriteOptions where
  "noWriteOptions = \<lparr>woDryRun = [], woFieldManager = [], woFieldValidation = []\<rparr>"

definition noDeleteOptions :: DeleteOptions where
  "noDeleteOptions =
     \<lparr>doGracePeriodSeconds = None, doOrphanDependents = None, doPropagationPolicy = None, doDryRun = []\<rparr>"

definition noListOptions :: MetaListOptions where
  "noListOptions =
     \<lparr>loLabelSelector = [], loFieldSelector = [], loWatch = False, loAllowWatchBookmarks = False,
      loResourceVersion = [], loResourceVersionMatch = [], loTimeoutSeconds = None, loLimit = 0,
      loContinueToken = [], loSendInitialEvents = None\<rparr>"

definition StorageStates :: "'w MigrationV1alpha1Client \<Rightarrow> 'w StorageStateInterface" where
  "StorageStates c = (let s = newStorageStates c in \<lparr>
     ssCreate = (\<lambda>obj. rSS_Create s obj noWriteOptions), ssUpdate = (\<lambda>obj. rSS_Update s obj noWriteOptions),
     ssUpdateStatus = (\<lambda>obj. rSS_UpdateStatus s obj noWriteOptions),
     ssDelete = (\<lambda>n. rSS_Delete s n noDeleteOptions), ssGet = (\<lambda>n. rSS_Get s n noGetOptions)\<rparr>)"

definition StorageVersionMigrations :: "'w MigrationV1alpha1Client \<Rightarrow> 'w StorageVersionMigrationInterface" where
  "StorageVersionMigrations c = (let s = newStorageVersionMigrations c in \<lparr>
     svmCreate = (\<lambda>obj. rSVM_Create s obj noWriteOptions), svmUpdate = (\<lambda>obj. rSVM_Update s obj noWriteOptions),
     svmUpdateStatus = (\<lambda>obj. rSVM_UpdateStatus s obj noWriteOptions),
     svmDelete = (\<lambda>n. rSVM_Delete s n noDeleteOptions), svmGet = (\<lambda>n. rSVM_Get s n noGetOptions)\<rparr>)"

subsection \<open>clientset.go\<close>

record ('w, 'd) Clientset =
  csDiscoveryClient :: 'd
  csMigrationV1alpha1 :: "'w MigrationV1alpha1Client"

definition MigrationV1alpha1 :: "('w, 'd) Clientset \<Rightarrow> 'w MigrationV1alpha1Client" where
  "MigrationV1alpha1 cs = csMigrationV1alpha1 cs"

text \<open>\<open>Discovery()\<close> may be called on a nil clientset.\<close>

definition Discovery :: "('w, 'd) Clientset option \<Rightarrow> 'd option" where
  "Discovery cs = map_option csDiscoveryClient cs"

definition NewForConfigAndClient ::
    "('w, 'd) RestLibrary \<Rightarrow> Config \<Rightarrow> 'w httpClient \<Rightarrow> (('w, 'd) Clientset, error) result" where
  "NewForConfigAndClient lib c h =
     (if cfRateLimiter c = None \<and> cfQPS c > 0 \<and> cfBurst c \<le> 0 then
        Inl (ErrorString ''burst is required to be greater than 0 when RateLimiter is not set and QPS is set to greater than 0'')
      else
        let config = (if cfRateLimiter c = None \<and> cfQPS c > 0
                      then c\<lparr>cfRateLimiter := Some (cfQPS c, cfBurst c)\<rparr> else c)
        in case typed_NewForConfigAndClient lib config h of
             Inl e \<Rightarrow> Inl e
           | Inr m \<Rightarrow>
               (case rlNewDiscoveryClient lib config h of
                  Inl e \<Rightarrow> Inl e
                | Inr d \<Rightarrow> Inr \<lparr>csDiscoveryClient = d, csMigrationV1alpha1 = m\<rparr>))"

definition NewForConfig :: "('w, 'd) RestLibrary \<Rightarrow> Config \<Rightarrow> (('w, 'd) Clientset, error) result" where
  "NewForConfig lib c =
     (let config = (if cfUserAgent c = [] then c\<lparr>cfUserAgent := rlUserAgent lib\<rparr> else c) in
      case rlHTTPClientFor lib config of
        Inl e \<Rightarrow> Inl e
      | Inr httpClient \<Rightarrow> NewForConfigAndClient lib config httpClient)"

definition NewForConfigOrDie :: "('w, 'd) RestLibrary \<Rightarrow> Config \<Rightarrow> ('w, 'd) Clientset option" where
  "NewForConfigOrDie lib c = (case NewForConfig lib c of Inl e \<Rightarrow> None | Inr cs \<Rightarrow> Some cs)"

definition New :: "('w, 'd) RestLibrary \<Rightarrow> 'w RESTClient \<Rightarrow> ('w, 'd) Clientset" where
  "New lib c = \<lparr>csDiscoveryClient = rlDiscoveryOf lib c, csMigrationV1alpha1 = typed_New c\<rparr>"

end
