(* ===== verification/Informer.thy ===== *)
theory Informer
  imports Index_Store Rest_Client
begin

section \<open>Informers and listers\<close>

text \<open>
  The generated informers and listers of \<open>pkg/clients/informer\<close> and \<open>pkg/clients/lister\<close>. An informer of the
  vendored client-go is what it is made of: how it lists and watches, the type of its objects, its resync
  period and its indexed store. Its reflector lists the objects, brings the store to the list, opens a
  watch and applies the events of the watch in order.
\<close>

subsection \<open>Objects in a cache\<close>

fun goMeta :: "goObject \<Rightarrow> ObjectMeta option" where
  "goMeta (GoSVM m) = Some (svmMeta m)"
| "goMeta (GoState s) = Some (ssMeta s)"
| "goMeta x = None"

definition noMeta :: error where
  "noMeta = ErrorString ''object has no meta: object does not implement the Object interfaces''"

text \<open>\<open>cache.MetaNamespaceKeyFunc\<close> and \<open>cache.MetaNamespaceIndexFunc\<close>.\<close>

definition MetaNamespaceKeyFunc :: "goObject \<Rightarrow> (string, error) result" where
  "MetaNamespaceKeyFunc obj =
     (case goMeta obj of
        None \<Rightarrow> Inl noMeta
      | Some om \<Rightarrow> Inr (if omNamespace om = [] then omName om else omNamespace om @ ''/'' @ omName om))"

definition NamespaceIndex :: string where "NamespaceIndex = ''namespace''"

definition MetaNamespaceIndexFunc :: "goObject \<Rightarrow> (string list, error) result" where
  "MetaNamespaceIndexFunc obj =
     (case goMeta obj of None \<Rightarrow> Inl noMeta | Some om \<Rightarrow> Inr [omNamespace om])"

subsection \<open>Informers\<close>

type_synonym TweakListOptionsFunc = "MetaListOptions \<Rightarrow> MetaListOptions"

text \<open>What the informers call of \<open>clientset.Interface\<close>.\<close>

record 'w ClientsetInterface =
  ciStatesList :: "MetaListOptions \<Rightarrow> ('w, (StorageStateList, error) result) call"
  ciStatesWatch :: "MetaListOptions \<Rightarrow> ('w, (nat, error) result) call"
  ciMigrationsList :: "MetaListOptions \<Rightarrow> ('w, (StorageVersionMigrationList, error) result) call"
  ciMigrationsWatch :: "MetaListOptions \<Rightarrow> ('w, (nat, error) result) call"

record 'w SharedIndexInformer =
  siListFunc :: "MetaListOptions \<Rightarrow> ('w, (ListMeta \<times> goObject list, error) result) call"
  siWatchFunc :: "MetaListOptions \<Rightarrow> ('w, (nat, error) result) call"
  siObjectType :: string
  siResyncPeriod :: Duration
  siIndexer :: "goObject threadSafeMap"

definition tweaked :: "TweakListOptionsFunc option \<Rightarrow> MetaListOptions \<Rightarrow> MetaListOptions" where
  "tweaked tweakListOptions options = (case tweakListOptions of None \<Rightarrow> options | Some f \<Rightarrow> f options)"

definition NewFilteredStorageStateInformer ::
    "'w ClientsetInterface \<Rightarrow> Duration \<Rightarrow> goObject Indexers \<Rightarrow> TweakListOptionsFunc option \<Rightarrow> 'w SharedIndexInformer" where
  "NewFilteredStorageStateInformer client resyncPeriod indexers tweakListOptions = \<lparr>
     siListFunc = (\<lambda>options w.
        apfst (map_sum id (\<lambda>l. (slListMeta l, map GoState (slItems l)))) (ciStatesList client (tweaked tweakListOptions options) w)),
     siWatchFunc = (\<lambda>options. ciStatesWatch client (tweaked tweakListOptions options)),
     siObjectType = ''*v1alpha1.StorageState'',
     siResyncPeriod = resyncPeriod,
     siIndexer = NewThreadSafeStore indexers Map.empty\<rparr>"

definition NewStorageStateInformer ::
    "'w ClientsetInterface \<Rightarrow> Duration \<Rightarrow> goObject Indexers \<Rightarrow> 'w SharedIndexInformer" where
  "NewStorageStateInformer client resyncPeriod indexers =
     NewFilteredStorageStateInformer client resyncPeriod indexers None"

definition NewFilteredStorageVersionMigrationInformer ::
    "'w ClientsetInterface \<Rightarrow> Duration \<Rightarrow> goObject Indexers \<Rightarrow> TweakListOptionsFunc option \<Rightarrow> 'w SharedIndexInformer" where
  "NewFilteredStorageVersionMigrationInformer client resyncPeriod indexers tweakListOptions = \<lparr>
     siListFunc = (\<lambda>options w.
        apfst (map_sum id (\<lambda>l. (vlListMeta l, map GoSVM (vlItems l)))) (ciMigrationsList client (tweaked tweakListOptions options) w)),
     siWatchFunc = (\<lambda>options. ciMigrationsWatch client (tweaked tweakListOptions options)),
     siObjectType = ''*v1alpha1.StorageVersionMigration'',
     siResyncPeriod = resyncPeriod,
     siIndexer = NewThreadSafeStore indexers Map.empty\<rparr>"

definition NewStorageVersionMigrationInformer ::
    "'w ClientsetInterface \<Rightarrow> Duration \<Rightarrow> goObject Indexers \<Rightarrow> 'w SharedIndexInformer" where
  "NewStorageVersionMigrationInformer client resyncPeriod indexers =
     NewFilteredStorageVersionMigrationInformer client resyncPeriod indexers None"

text \<open>The informers of \<open>pkg/controller/indexer.go\<close>.\<close>

definition NewStatusIndexedInformer :: "'w ClientsetInterface \<Rightarrow> 'w SharedIndexInformer" where
  "NewStatusIndexedInformer c = NewStorageVersionMigrationInformer c 0 statusIndexers"

definition NewStatusAndResourceIndexedInformer :: "'w ClientsetInterface \<Rightarrow> 'w SharedIndexInformer" where
  "NewStatusAndResourceIndexedInformer c = NewStorageVersionMigrationInformer c 0 statusAndResourceIndexers"

subsection \<open>The reflector\<close>

text \<open>
  \<open>processDeltas\<close>: an added or updated object is stored under its key, a deleted one is removed. A list
  replaces the contents: its items are stored, and the keys it does not have are deleted. An
  object without metadata makes the informer drop the event.
\<close>

definition putObject :: "goObject \<Rightarrow> goObject threadSafeMap \<Rightarrow> goObject threadSafeMap option" where
  "putObject obj c = (case MetaNamespaceKeyFunc obj of Inl e \<Rightarrow> Some c | Inr k \<Rightarrow> tsUpdate k obj c)"

definition deleteObject :: "goObject \<Rightarrow> goObject threadSafeMap \<Rightarrow> goObject threadSafeMap option" where
  "deleteObject obj c = (case MetaNamespaceKeyFunc obj of Inl e \<Rightarrow> Some c | Inr k \<Rightarrow> tsDelete k c)"

fun putAll :: "goObject list \<Rightarrow> goObject threadSafeMap \<Rightarrow> goObject threadSafeMap option" where
  "putAll [] c = Some c"
| "putAll (x # xs) c = (case putObject x c of None \<Rightarrow> None | Some c1 \<Rightarrow> putAll xs c1)"

fun deleteKeys :: "string list \<Rightarrow> goObject threadSafeMap \<Rightarrow> goObject threadSafeMap option" where
  "deleteKeys [] c = Some c"
| "deleteKeys (k # ks) c = (case tsDelete k c of None \<Rightarrow> None | Some c1 \<Rightarrow> deleteKeys ks c1)"

fun keysOf :: "goObject list \<Rightarrow> string list" where
  "keysOf [] = []"
| "keysOf (x # xs) = (case MetaNamespaceKeyFunc x of Inl e \<Rightarrow> keysOf xs | Inr k \<Rightarrow> k # keysOf xs)"

definition syncWith :: "goObject list \<Rightarrow> goObject threadSafeMap \<Rightarrow> goObject threadSafeMap option" where
  "syncWith items c =
     (case putAll items c of
        None \<Rightarrow> None
      | Some c1 \<Rightarrow> deleteKeys (filter (\<lambda>k. k \<notin> set (keysOf items)) (sorted_list_of_set (dom (tsItems c)))) c1)"

text \<open>
  The pager of the reflector reads the list in pages of 500, following the continue token. A token that
  expires after the first page makes it read the full list. \<open>acc\<close> is what it has collected: the resource version
  of the first page, and the items.
\<close>

partial_function (option) pagerList ::
    "(MetaListOptions \<Rightarrow> ('w, (ListMeta \<times> goObject list, error) result) call) \<Rightarrow> MetaListOptions \<Rightarrow>
     MetaListOptions \<Rightarrow> (string \<times> goObject list) option \<Rightarrow> 'w \<Rightarrow> ((string \<times> goObject list, error) result \<times> 'w) option" where
  "pagerList pageFn requested options acc w =
     (case pageFn options w of
        (Inl e, w1) \<Rightarrow>
          if \<not> IsResourceExpired (Some e) \<or> loContinueToken options = [] then Some (Inl e, w1)
          else
            (case pageFn (requested\<lparr>loLimit := 0, loContinueToken := []\<rparr>) w1 of
               (r, w2) \<Rightarrow> Some (map_sum id (\<lambda>(lm, items). (lmResourceVersion lm, items)) r, w2))
      | (Inr (lm, items), w1) \<Rightarrow>
          (let (rv, got) = (case acc of None \<Rightarrow> (lmResourceVersion lm, []) | Some a \<Rightarrow> a)
           in if lmContinue lm = [] then Some (Inr (rv, got @ items), w1)
              else pagerList pageFn requested
                     (options\<lparr>loContinueToken := lmContinue lm, loResourceVersion := [], loResourceVersionMatch := []\<rparr>)
                     (Some (rv, got @ items)) w1))"

text \<open>
  \<open>ListAndWatch\<close>, a first round that is not interrupted: the list is read at any resource version, the watch
  starts at the version of the list, with a random timeout. The result is the informer with its
  new store, and the watch. An error ends the round; that the reflector then starts another round after a
  backoff is not part of this model.
\<close>

definition informerPanic :: error where
  "informerPanic = OtherError ''panic'' ''unable to calculate an index entry'' None"

definition ListAndWatch ::
    "int \<Rightarrow> 'w SharedIndexInformer \<Rightarrow> 'w \<Rightarrow> (('w SharedIndexInformer \<times> nat, error) result \<times> 'w) option" where
  "ListAndWatch timeoutSeconds si w =
     (let options = noListOptions\<lparr>loResourceVersion := ''0'', loLimit := 500\<rparr> in
      case pagerList (siListFunc si) options options None w of
        None \<Rightarrow> None
      | Some (Inl e, w1) \<Rightarrow> Some (Inl e, w1)
      | Some (Inr (resourceVersion, items), w1) \<Rightarrow>
          (case syncWith items (siIndexer si) of
             None \<Rightarrow> Some (Inl informerPanic, w1)
           | Some c \<Rightarrow>
               (case siWatchFunc si (noListOptions\<lparr>loResourceVersion := resourceVersion,
                       loTimeoutSeconds := Some timeoutSeconds, loAllowWatchBookmarks := True\<rparr>) w1 of
                  (Inl e, w2) \<Rightarrow> Some (Inl e, w2)
                | (Inr watch, w2) \<Rightarrow> Some (Inr (si\<lparr>siIndexer := c\<rparr>, watch), w2))))"

datatype cacheEvent = CacheAdded goObject | CacheModified goObject | CacheDeleted goObject

fun handleEvent :: "cacheEvent \<Rightarrow> goObject threadSafeMap \<Rightarrow> goObject threadSafeMap option" where
  "handleEvent (CacheAdded obj) c = putObject obj c"
| "handleEvent (CacheModified obj) c = putObject obj c"
| "handleEvent (CacheDeleted obj) c = deleteObject obj c"

fun handleEvents :: "cacheEvent list \<Rightarrow> goObject threadSafeMap \<Rightarrow> goObject threadSafeMap option" where
  "handleEvents [] c = Some c"
| "handleEvents (e # es) c = (case handleEvent e c of None \<Rightarrow> None | Some c1 \<Rightarrow> handleEvents es c1)"

subsection \<open>Listers\<close>

text \<open>
  \<open>cache.ListAll\<close> visits the stored objects (\<open>ord\<close> is the order of the Go map) and hands those that the selector
  matches to the append function of the lister. The empty selector, here \<open>None\<close>, matches without
  a look at the labels. The append functions assert the type of the object; a failed assertion is a panic.
\<close>

type_synonym selector = "((string \<times> string) list \<Rightarrow> bool) option"

definition listerPanic :: error where
  "listerPanic = OtherError ''*runtime.TypeAssertionError'' ''interface conversion'' None"

fun elemState :: "goObject \<Rightarrow> (StorageState, error) result" where
  "elemState (GoState s) = Inr s"
| "elemState x = Inl listerPanic"

fun elemMigration :: "goObject \<Rightarrow> (StorageVersionMigration, error) result" where
  "elemMigration (GoSVM m) = Inr m"
| "elemMigration x = Inl listerPanic"

definition Matches :: "selector \<Rightarrow> goObject \<Rightarrow> (bool, error) result" where
  "Matches selector obj =
     (case selector of
        None \<Rightarrow> Inr True
      | Some f \<Rightarrow> (case goMeta obj of None \<Rightarrow> Inl noMeta | Some om \<Rightarrow> Inr (f (omLabels om))))"

fun ListAll :: "selector \<Rightarrow> (goObject \<Rightarrow> ('a, error) result) \<Rightarrow> goObject list \<Rightarrow> ('a list, error) result" where
  "ListAll selector appendFn [] = Inr []"
| "ListAll selector appendFn (m # ms) =
     (case Matches selector m of
        Inl e \<Rightarrow> Inl e
      | Inr False \<Rightarrow> ListAll selector appendFn ms
      | Inr True \<Rightarrow>
          (case appendFn m of Inl e \<Rightarrow> Inl e | Inr x \<Rightarrow> map_sum id (Cons x) (ListAll selector appendFn ms)))"

definition storeList :: "(string set \<Rightarrow> string list) \<Rightarrow> goObject threadSafeMap \<Rightarrow> goObject list" where
  "storeList ord c = List.map_filter (tsItems c) (ord (dom (tsItems c)))"

definition storageStateLister_List ::
    "(string set \<Rightarrow> string list) \<Rightarrow> selector \<Rightarrow> goObject threadSafeMap \<Rightarrow> (StorageState list, error) result" where
  "storageStateLister_List ord selector indexer = ListAll selector elemState (storeList ord indexer)"

definition storageStateLister_Get :: "string \<Rightarrow> goObject threadSafeMap \<Rightarrow> (StorageState, error) result" where
  "storageStateLister_Get name indexer =
     (case tsItems indexer name of
        None \<Rightarrow> Inl (NewNotFound GroupName ''storagestate'' name)
      | Some obj \<Rightarrow> elemState obj)"

definition storageVersionMigrationLister_List ::
    "(string set \<Rightarrow> string list) \<Rightarrow> selector \<Rightarrow> goObject threadSafeMap \<Rightarrow> (StorageVersionMigration list, error) result" where
  "storageVersionMigrationLister_List ord selector indexer = ListAll selector elemMigration (storeList ord indexer)"

definition storageVersionMigrationLister_Get :: "string \<Rightarrow> goObject threadSafeMap \<Rightarrow> (StorageVersionMigration, error) result" where
  "storageVersionMigrationLister_Get name indexer =
     (case tsItems indexer name of
        None \<Rightarrow> Inl (NewNotFound GroupName ''storageversionmigration'' name)
      | Some obj \<Rightarrow> elemMigration obj)"

end
