(* ===== verification/Fake_Lists.thy ===== *)
theory Fake_Lists
  imports Fake_Clientset "HOL-Library.Product_Lexorder" "HOL-Library.List_Lexorder" "HOL-Library.Char_ord"
begin

section \<open>The fake clientset: lists, watches and collections\<close>

text \<open>
  The methods \<open>List\<close>, \<open>Watch\<close> and \<open>DeleteCollection\<close> of \<open>FakeStorageStates\<close> and
  \<open>FakeStorageVersionMigrations\<close>. The tracker sorts what it lists by namespace and name. The
  label selector of the list options is the predicate \<open>label\<close> on the labels of an object
  (everything, if the options carry none).
\<close>

subsection \<open>Lists\<close>

definition matchingKeys :: "((string \<times> string) \<rightharpoonup> trackedObject) \<Rightarrow> string \<Rightarrow> (string \<times> string) list" where
  "matchingKeys objs ns = filter (\<lambda>(n, _). ns = [] \<or> n = ns) (sorted_list_of_set (dom objs))"

definition tList :: "SchemaGVR \<Rightarrow> string \<Rightarrow> tracker \<Rightarrow> trackedObject list" where
  "tList gvr ns t =
     (case tObjects t gvr of None \<Rightarrow> [] | Some objs \<Rightarrow> map (\<lambda>k. the (objs k)) (matchingKeys objs ns))"

definition InvokesList :: "SchemaGVR \<Rightarrow> string \<Rightarrow> (FakeClientset, trackedObject list) call" where
  "InvokesList gvr ns w =
     (let w1 = w\<lparr>fcActions := fcActions w @ [ListAction gvr ns]\<rparr> in (tList gvr ns (fcTracker w1), w1))"

text \<open>The items of the typed list; an object of another kind does not fit into it.\<close>

fun itemsSS :: "trackedObject list \<Rightarrow> (StorageState list, error) result" where
  "itemsSS [] = Inr []"
| "itemsSS (TSS s # os) = map_sum id (Cons s) (itemsSS os)"
| "itemsSS (x # os) = Inl conversionPanic"

fun itemsSVM :: "trackedObject list \<Rightarrow> (StorageVersionMigration list, error) result" where
  "itemsSVM [] = Inr []"
| "itemsSVM (TSVM m # os) = map_sum id (Cons m) (itemsSVM os)"
| "itemsSVM (x # os) = Inl conversionPanic"

definition fakeSS_List ::
    "((string \<times> string) list \<Rightarrow> bool) \<Rightarrow> (FakeClientset, (StorageState list, error) result) call" where
  "fakeSS_List label w =
     (let (os, w1) = InvokesList storagestatesResource [] w
      in (map_sum id (filter (\<lambda>s. label (omLabels (ssMeta s)))) (itemsSS os), w1))"

definition fakeSVM_List ::
    "((string \<times> string) list \<Rightarrow> bool) \<Rightarrow> (FakeClientset, (StorageVersionMigration list, error) result) call" where
  "fakeSVM_List label w =
     (let (os, w1) = InvokesList storageversionmigrationsResource [] w
      in (map_sum id (filter (\<lambda>m. label (omLabels (svmMeta m)))) (itemsSVM os), w1))"

subsection \<open>Watches\<close>

text \<open>
  \<open>InvokesWatch\<close> with the reactor that \<open>NewSimpleClientset\<close> installs: it opens a watcher of the tracker. A
  watcher is the position of its queue among the watchers of the tracker.
\<close>

definition InvokesWatch :: "SchemaGVR \<Rightarrow> string \<Rightarrow> (FakeClientset, nat) call" where
  "InvokesWatch gvr ns w =
     (length (tWatchers (fcTracker w)),
      w\<lparr>fcActions := fcActions w @ [WatchAction gvr ns], fcTracker := tWatch gvr ns (fcTracker w)\<rparr>)"

definition fakeSS_Watch :: "(FakeClientset, nat) call" where
  "fakeSS_Watch = InvokesWatch storagestatesResource []"

definition fakeSVM_Watch :: "(FakeClientset, nat) call" where
  "fakeSVM_Watch = InvokesWatch storageversionmigrationsResource []"

text \<open>What a watcher has received.\<close>

definition received :: "nat \<Rightarrow> FakeClientset \<Rightarrow> watchEvent list" where
  "received i w = snd (tWatchers (fcTracker w) ! i)"

subsection \<open>Deletion of collections\<close>

definition fakeSS_DeleteCollection :: "(FakeClientset, error option) call" where
  "fakeSS_DeleteCollection w = apfst toErr (Invokes (DeleteCollectionAction storagestatesResource []) w)"

definition fakeSVM_DeleteCollection :: "(FakeClientset, error option) call" where
  "fakeSVM_DeleteCollection w = apfst toErr (Invokes (DeleteCollectionAction storageversionmigrationsResource []) w)"

end
