(* ===== verification/Rest_Correct.thy ===== *)
theory Rest_Correct
  imports Rest_Client Fake_Lists
begin

section \<open>The REST clients against an API server\<close>

text \<open>
  An API server for the group: it answers a request on the wire from an object tracker. The
  clientset made from a configuration, talking to this server in JSON over paths and
  verbs, does exactly what the generated fake clientset does, so what is proved of the controllers
  over the fake clientset holds over the REST clients. Requests for names that cannot be
  part of a path never reach the server.
\<close>

subsection \<open>The server\<close>

fun encodeTracked :: "Codecs \<Rightarrow> trackedObject \<Rightarrow> json" where
  "encodeTracked cd (TSS s) = encodeState (cdFormat cd) s"
| "encodeTracked cd (TSVM m) = encodeMigration (cdFormat cd) m"
| "encodeTracked cd obj = JNull"

definition successJSON :: json where
  "successJSON = JObj [(''kind'', JStr ''Status''), (''apiVersion'', JStr ''v1''), (''status'', JStr ''Success'')]"

fun answer :: "Codecs \<Rightarrow> (trackedObject option, error) result \<Rightarrow> (json option, error) result" where
  "answer cd (Inl e) = Inl e"
| "answer cd (Inr None) = Inr (Some successJSON)"
| "answer cd (Inr (Some obj)) = Inr (Some (encodeTracked cd obj))"

fun bodyObject :: "Codecs \<Rightarrow> requestBody \<Rightarrow> (trackedObject, error) result" where
  "bodyObject cd (ObjectBody j) =
     (case decodeObject (cdParse cd) j of
        Inl e \<Rightarrow> Inl e
      | Inr (RState s) \<Rightarrow> Inr (TSS s)
      | Inr (RMigration m) \<Rightarrow> Inr (TSVM m)
      | Inr x \<Rightarrow> Inl (NewBadRequest ''unexpected kind''))"
| "bodyObject cd b = Inl (NewBadRequest ''no object'')"

definition withBody ::
    "Codecs \<Rightarrow> requestBody \<Rightarrow> (trackedObject \<Rightarrow> Action) \<Rightarrow> (FakeClientset, (json option, error) result) call" where
  "withBody cd b act w =
     (case bodyObject cd b of Inl e \<Rightarrow> (Inl e, w) | Inr obj \<Rightarrow> apfst (answer cd) (Invokes (act obj) w))"

definition listAnswer :: "Codecs \<Rightarrow> string \<Rightarrow> (FakeClientset, (json option, error) result) call" where
  "listAnswer cd res w =
     (if res = ''storagestates'' then
        apfst (map_sum id (\<lambda>items. Some (encodeStateList (cdFormat cd) (zeroStorageStateList\<lparr>slItems := items\<rparr>))))
          (fakeSS_List (\<lambda>_. True) w)
      else
        apfst (map_sum id (\<lambda>items. Some (encodeMigrationList (cdFormat cd) (zeroStorageVersionMigrationList\<lparr>vlItems := items\<rparr>))))
          (fakeSVM_List (\<lambda>_. True) w))"

definition serve ::
    "Codecs \<Rightarrow> string \<Rightarrow> string list \<Rightarrow> requestBody \<Rightarrow> (FakeClientset, (json option, error) result) call" where
  "serve cd verb path body w =
     (case path of
        [res] \<Rightarrow>
          (let gvr = WithResource SchemeGroupVersion res in
           if verb = ''GET'' then listAnswer cd res w
           else if verb = ''POST'' then withBody cd body (CreateAction gvr []) w
           else if verb = ''DELETE'' then apfst (answer cd) (Invokes (DeleteCollectionAction gvr []) w)
           else (Inl (NewMethodNotSupported GroupName res verb), w))
      | [res, n] \<Rightarrow>
          (let gvr = WithResource SchemeGroupVersion res in
           if verb = ''GET'' then apfst (answer cd) (Invokes (GetAction gvr [] n) w)
           else if verb = ''PUT'' then withBody cd body (UpdateAction gvr [] []) w
           else if verb = ''DELETE'' then apfst (answer cd) (Invokes (DeleteAction gvr [] n) w)
           else (Inl (NewMethodNotSupported GroupName res verb), w))
      | [res, n, sub] \<Rightarrow>
          (let gvr = WithResource SchemeGroupVersion res in
           if verb = ''PUT'' then withBody cd body (UpdateAction gvr [] sub) w
           else (Inl (NewMethodNotSupported GroupName res verb), w))
      | _ \<Rightarrow> (Inl (NewNotFound [] [] []), w))"

text \<open>The server is reached below the path of its host, \<open>base\<close>.\<close>

definition serverPath :: "string \<Rightarrow> string list" where
  "serverPath base = filter (\<lambda>p. p \<noteq> []) (splitSlash base) @ [''apis'', GroupName, ''v1alpha1'']"

definition belowPrefix :: "string list \<Rightarrow> string \<Rightarrow> string list option" where
  "belowPrefix ps path =
     (let segs = tl (splitSlash path) in
      if take (length ps) segs = ps then Some (drop (length ps) segs) else None)"

definition trackerTransport :: "Codecs \<Rightarrow> string \<Rightarrow> FakeClientset httpClient" where
  "trackerTransport cd base = \<lparr>
     httpDo = (\<lambda>r w. case belowPrefix (serverPath base) (hrPath r) of
                       None \<Rightarrow> (Inl (NewNotFound [] [] []), w)
                     | Some path \<Rightarrow> serve cd (hrVerb r) path (hrBody r) w),
     httpWatch = (\<lambda>r w. case belowPrefix (serverPath base) (hrPath r) of
                       Some [res] \<Rightarrow> apfst Inr (InvokesWatch (WithResource SchemeGroupVersion res) [] w)
                     | _ \<Rightarrow> (Inl (NewNotFound [] [] []), w))\<rparr>"

subsection \<open>The paths of the requests\<close>

text \<open>A host path whose components are plain, as in \<open>https://proxy/a/b/\<close>.\<close>

definition hostPath :: "string \<Rightarrow> bool" where
  "hostPath base \<longleftrightarrow> (\<forall>p \<in> set (splitSlash base). p \<noteq> [] \<longrightarrow> plain p)"

lemma serverPath_plain: "hostPath base \<Longrightarrow> \<forall>p \<in> set (serverPath base). plain p"
  by (auto simp: serverPath_def hostPath_def plain_def GroupName_def)

lemma serverPath_ne [simp]: "serverPath base \<noteq> []"
  by (simp add: serverPath_def)

lemma versionedAPIPath:
  "DefaultVersionedAPIPath ''/apis'' SchemeGroupVersion = ''/apis/migration.k8s.io/v1alpha1''"
  by code_simp

lemma pathPrefix:
  assumes "hostPath base"
  shows "path_Join [''/'', base, ''/apis/migration.k8s.io/v1alpha1''] = rootedPath (serverPath base)"
proof -
  let ?v = "''/apis/migration.k8s.io/v1alpha1''"
  have v: "splitSlash ?v = [[], ''apis'', GroupName, ''v1alpha1'']" by code_simp
  have "path_Join [''/'', base, ?v] = rootedPath (cleanComponents True [] (splitSlash (CHR ''/'' # base @ CHR ''/'' # ?v)))"
    by (simp add: path_Join_def path_Clean_rooted)
  also have "splitSlash (CHR ''/'' # base @ CHR ''/'' # ?v) = [] # splitSlash base @ [[], ''apis'', GroupName, ''v1alpha1'']"
    using splitSlash_join2 [of base ?v] v by simp
  also have "cleanComponents True [] \<dots> = cleanComponents True [] (filter (\<lambda>p. p \<noteq> []) \<dots>)"
    by (rule cleanComponents_filter [symmetric])
  also have "filter (\<lambda>p. p \<noteq> []) ([] # splitSlash base @ [[], ''apis'', GroupName, ''v1alpha1'']) = serverPath base"
    by (simp add: serverPath_def GroupName_def)
  finally show ?thesis using serverPath_plain [OF assms] by (simp add: cleanComponents_plain)
qed

text \<open>A name that may be part of a path.\<close>

definition segment :: "string \<Rightarrow> bool" where
  "segment n \<longleftrightarrow> n \<noteq> [] \<and> IsValidPathSegmentName n = []"

lemma segment_plain: "segment n \<Longrightarrow> plain n"
  using IsValidPathSegmentName_plain by (auto simp: segment_def)

lemma URL_below:
  assumes "rqPathPrefix r = rootedPath ps" "ps \<noteq> []" "\<forall>p \<in> set ps. plain p"
    and "strings_ToLower (rqResource r) = rqResource r" "plain (rqResource r)"
    and "\<forall>q \<in> {rqResourceName r, rqSubresource r}. q \<noteq> [] \<longrightarrow> plain q"
  shows "Request_URL r = rootedPath (ps @ rqResource r # filter (\<lambda>q. q \<noteq> []) [rqResourceName r, rqSubresource r])"
proof -
  have ne: "rqResource r \<noteq> []" using assms(5) by (simp add: plain_def)
  have p: "path_Join [rootedPath ps, rqResource r] = rootedPath (ps @ [rqResource r])"
    using path_Join_below [OF assms(2,3), of "[rqResource r]"] assms(5) ne by simp
  have "path_Join [rootedPath (ps @ [rqResource r]), rqResourceName r, rqSubresource r, []] =
      rootedPath ((ps @ [rqResource r]) @ filter (\<lambda>q. q \<noteq> []) [rqResourceName r, rqSubresource r, []])"
    using assms by (intro path_Join_below) auto
  with p ne assms(1,4) show ?thesis
    by (cases "rqResourceName r = []"; cases "rqSubresource r = []") (simp_all add: Request_URL_def)
qed

lemma belowPrefix_rooted:
  assumes "ps \<noteq> []" "\<forall>p \<in> set (ps @ qs). plain p"
  shows "belowPrefix ps (rootedPath (ps @ qs)) = Some qs"
  using splitSlash_rootedPath [OF _ assms(2)] assms(1) by (simp add: belowPrefix_def)

text \<open>A client of the server: what \<open>NewForConfig\<close> makes.\<close>

definition serverClient :: "Codecs \<Rightarrow> string \<Rightarrow> FakeClientset MigrationV1alpha1Client \<Rightarrow> bool" where
  "serverClient cd base c \<longleftrightarrow>
     rcBasePath (mvRestClient c) = base \<and> rcCodecs (mvRestClient c) = cd \<and>
     rcVersionedAPIPath (mvRestClient c) = ''/apis/migration.k8s.io/v1alpha1'' \<and>
     rcHttp (mvRestClient c) = trackerTransport cd base"

lemma typed_client:
  assumes "typed_NewForConfigAndClient lib c (trackerTransport cd base) = Inr m" and "rlCodecs lib = cd"
    and "\<And>c. rlHostPath lib c = Inr base"
  shows "serverClient cd base m"
proof -
  let ?c = "setConfigDefaults lib c"
  have "cfGroupVersion ?c = Some SchemeGroupVersion" "cfAPIPath ?c = ''/apis''" "cfNegotiatedSerializer ?c = Some cd"
    using assms(2) by (simp_all add: setConfigDefaults_def Let_def)
  with assms(1,3) show ?thesis
    by (auto simp: typed_NewForConfigAndClient_def RESTClientForConfigAndClient_def serverClient_def versionedAPIPath Let_def)
qed

lemma NewForConfig_client:
  assumes "NewForConfig lib config = Inr cs" and "rlCodecs lib = cd"
    and "\<And>c. rlHTTPClientFor lib c = Inr (trackerTransport cd base)"
    and "\<And>c. rlHostPath lib c = Inr base"
  shows "serverClient cd base (MigrationV1alpha1 cs)"
proof -
  obtain c where "typed_NewForConfigAndClient lib c (trackerTransport cd base) = Inr (csMigrationV1alpha1 cs)"
    using assms(1) by (auto simp: NewForConfig_def NewForConfigAndClient_def assms(3) Let_def split: sum.splits if_splits)
  from typed_client [OF this assms(2,4)] show ?thesis by (simp add: MigrationV1alpha1_def)
qed

lemma httpDo_tracker:
  assumes "hostPath base" and "rqHttp r = trackerTransport cd base" "rqErr r = None"
    and "rqPathPrefix r = rootedPath (serverPath base)"
    and "strings_ToLower (rqResource r) = rqResource r" "plain (rqResource r)"
    and "\<forall>q \<in> {rqResourceName r, rqSubresource r}. q \<noteq> [] \<longrightarrow> plain q"
  shows "Request_Do r w =
    serve cd (rqVerb r) (rqResource r # filter (\<lambda>q. q \<noteq> []) [rqResourceName r, rqSubresource r]) (rqBody r) w"
proof -
  let ?qs = "rqResource r # filter (\<lambda>q. q \<noteq> []) [rqResourceName r, rqSubresource r]"
  have "Request_URL r = rootedPath (serverPath base @ ?qs)"
    using assms serverPath_plain [OF assms(1)] by (intro URL_below) auto
  moreover have "belowPrefix (serverPath base) (rootedPath (serverPath base @ ?qs)) = Some ?qs"
    using assms(6,7) serverPath_plain [OF assms(1)] by (intro belowPrefix_rooted) auto
  ultimately show ?thesis
    using assms(2,3) by (simp add: Request_Do_def newHTTPRequest_def trackerTransport_def)
qed

subsection \<open>The builder on valid names\<close>

lemma Request_Resource_ok:
  "rqErr r = None \<Longrightarrow> rqResource r = [] \<Longrightarrow> segment res \<Longrightarrow> Request_Resource res r = r\<lparr>rqResource := res\<rparr>"
  by (simp add: Request_Resource_def segment_def)

lemma Request_Name_ok:
  "rqErr r = None \<Longrightarrow> rqResourceName r = [] \<Longrightarrow> segment n \<Longrightarrow> Request_Name n r = r\<lparr>rqResourceName := n\<rparr>"
  by (simp add: Request_Name_def segment_def)

lemma Request_SubResource_ok:
  "rqErr r = None \<Longrightarrow> rqSubresource r = [] \<Longrightarrow> segment s \<Longrightarrow> path_Join [s] = s \<Longrightarrow>
   Request_SubResource [s] r = r\<lparr>rqSubresource := s\<rparr>"
  by (simp add: Request_SubResource_def segment_def)

lemma resource_names [simp]:
  "segment ''storagestates''" "segment ''storageversionmigrations''" "segment ''status''"
  "strings_ToLower ''storagestates'' = ''storagestates''"
  "strings_ToLower ''storageversionmigrations'' = ''storageversionmigrations''"
  "path_Join [''status''] = ''status''"
  by code_simp+

lemmas builder_ok = Request_Resource_ok Request_Name_ok Request_SubResource_ok
  Request_VersionedParams_def Request_Timeout_def Request_Body_def Request_Verb_def
  RESTClient_Get_def RESTClient_Post_def RESTClient_Put_def RESTClient_Delete_def

lemma NewRequest_client:
  assumes "serverClient cd base c" "hostPath base"
  shows "NewRequest (mvRestClient c) =
     \<lparr>rqHttp = trackerTransport cd base, rqVerb = [], rqPathPrefix = rootedPath (serverPath base),
      rqParams = [], rqContentType = [], rqResource = [], rqResourceName = [], rqSubresource = [],
      rqTimeout = 0, rqErr = None, rqBody = NoBody\<rparr>"
  using assms pathPrefix [OF assms(2)] by (simp add: NewRequest_def serverClient_def)

lemma apfst_eqI: "f (fst x) = g (fst x) \<Longrightarrow> apfst f x = apfst g x"
  by (cases x) simp

lemma apfst_apfst: "apfst f (apfst g x) = apfst (\<lambda>y. f (g y)) x"
  by (cases x) simp

subsection \<open>Objects that survive the wire\<close>

text \<open>Times in whole seconds and no kind, which the decoder clears.\<close>

fun encodable :: "trackedObject \<Rightarrow> bool" where
  "encodable (TSS s) \<longleftrightarrow> LastHeartbeatTime (ssStatus s) mod second = 0 \<and> ssTypeMeta s = zeroTypeMeta"
| "encodable (TSVM m) \<longleftrightarrow> wholeSeconds m \<and> svmTypeMeta m = zeroTypeMeta"
| "encodable obj \<longleftrightarrow> False"

definition rest_wf :: "FakeClientset \<Rightarrow> bool" where
  "rest_wf w \<longleftrightarrow> fake_wf w \<and>
     (\<forall>n obj. view storagestatesResource (fcTracker w) n = Some obj \<longrightarrow> encodable obj) \<and>
     (\<forall>n obj. view storageversionmigrationsResource (fcTracker w) n = Some obj \<longrightarrow> encodable obj)"

text \<open>What the tracker returns: an error, or an object of those it holds or was given.\<close>

definition returns :: "(trackedObject \<Rightarrow> bool) \<Rightarrow> (trackedObject option, error) result \<Rightarrow> bool" where
  "returns P r \<longleftrightarrow> (\<exists>e. r = Inl e) \<or> (\<exists>obj. r = Inr (Some obj) \<and> P obj)"

lemma Invokes_Get_returns:
  assumes "\<And>n obj. view gvr (fcTracker w) n = Some obj \<Longrightarrow> P obj"
  shows "returns P (fst (Invokes (GetAction gvr [] n) w))"
  using assms by (auto simp: returns_def Invokes_def tGet_view split: option.splits prod.splits)

lemma add_returns:
  assumes "tAdd_obj gvr obj [] rep t = (None, t1)"
  shows "tGet gvr [] (omName (objMeta obj)) t1 = Inr obj"
proof (cases "omNamespace (objMeta obj) = []")
  case True
  from tAdd_obj_root(1,2) [OF this refl, of gvr rep t] assms show ?thesis
    by (auto simp: tGet_view split: option.splits if_splits)
next
  case False then show ?thesis using tAdd_obj_bad [OF False, of gvr rep t] assms by auto
qed

lemma Invokes_Write_returns:
  assumes "P obj" and "act = CreateAction gvr [] obj \<or> act = UpdateAction gvr [] sub obj"
  shows "returns P (fst (Invokes act w))"
  using assms add_returns [of gvr obj]
  by (fastforce simp: returns_def Invokes_def tCreate_def tUpdate_def split: option.splits prod.splits)

lemma into_state:
  assumes "codec (cdFormat cd) (cdParse cd)" "rcCodecs c = cd"
    and "returns (\<lambda>obj. encodable obj \<and> (\<exists>s. obj = TSS s)) r"
  shows "into c asState zeroStorageState (answer cd r) = toSS r"
  using assms decode_encodeState by (fastforce simp: returns_def into_def Result_Into_def)

lemma into_migration:
  assumes "codec (cdFormat cd) (cdParse cd)" "rcCodecs c = cd"
    and "returns (\<lambda>obj. encodable obj \<and> (\<exists>m. obj = TSVM m)) r"
  shows "into c asMigration zeroStorageVersionMigration (answer cd r) = toSVM r"
  using assms decode_encodeMigration by (fastforce simp: returns_def into_def Result_Into_def)

lemma Result_Error_answer: "Result_Error (answer cd r) = toErr r"
  by (cases "(cd, r)" rule: answer.cases) (auto simp: Result_Error_def)

lemma rest_wf_states:
  "rest_wf w \<Longrightarrow> view storagestatesResource (fcTracker w) n = Some obj \<Longrightarrow> encodable obj \<and> (\<exists>s. obj = TSS s)"
  by (fastforce simp: rest_wf_def fake_wf_def)

lemma rest_wf_migrations:
  "rest_wf w \<Longrightarrow> view storageversionmigrationsResource (fcTracker w) n = Some obj \<Longrightarrow> encodable obj \<and> (\<exists>m. obj = TSVM m)"
  by (fastforce simp: rest_wf_def fake_wf_def)

subsection \<open>Method by method\<close>

lemma segment_ne: "segment n \<Longrightarrow> n \<noteq> []"
  by (simp add: segment_def)

lemma serverClient_codecs: "serverClient cd base c \<Longrightarrow> rcCodecs (mvRestClient c) = cd"
  by (simp add: serverClient_def)

lemma rSS_sent:
  assumes "serverClient cd base c" "hostPath base"
  shows "segment n \<Longrightarrow> rSS_Get (newStorageStates c) n o1 w =
        apfst (\<lambda>r. into (mvRestClient c) asState zeroStorageState (answer cd r)) (Invokes (GetAction storagestatesResource [] n) w)"
    and "segment n \<Longrightarrow> rSS_Delete (newStorageStates c) n o2 w =
        apfst (\<lambda>r. Result_Error (answer cd r)) (Invokes (DeleteAction storagestatesResource [] n) w)"
    and "rSS_Create (newStorageStates c) x o3 w = apfst (into (mvRestClient c) asState zeroStorageState)
        (withBody cd (ObjectBody (encodeState (cdFormat cd) x)) (CreateAction storagestatesResource []) w)"
    and "segment (ssName x) \<Longrightarrow> rSS_Update (newStorageStates c) x o3 w = apfst (into (mvRestClient c) asState zeroStorageState)
        (withBody cd (ObjectBody (encodeState (cdFormat cd) x)) (UpdateAction storagestatesResource [] []) w)"
    and "segment (ssName x) \<Longrightarrow> rSS_UpdateStatus (newStorageStates c) x o3 w = apfst (into (mvRestClient c) asState zeroStorageState)
        (withBody cd (ObjectBody (encodeState (cdFormat cd) x)) (UpdateAction storagestatesResource [] ''status'') w)"
  using assms
  by (simp_all add: rSS_Get_def rSS_Delete_def rSS_Create_def rSS_Update_def rSS_UpdateStatus_def newStorageStates_def
      builder_ok NewRequest_client httpDo_tracker segment_plain serve_def storagestatesResource_def [symmetric] apfst_apfst
      segment_ne serverClient_codecs)

lemma rSS_agrees:
  assumes "codec (cdFormat cd) (cdParse cd)" "serverClient cd base c" "hostPath base" "rest_wf w"
  shows "segment n \<Longrightarrow> rSS_Get (newStorageStates c) n o1 w = fakeSS_Get n w"
    and "segment n \<Longrightarrow> rSS_Delete (newStorageStates c) n o2 w = fakeSS_Delete n w"
    and "encodable (TSS x) \<Longrightarrow> rSS_Create (newStorageStates c) x o3 w = fakeSS_Create x w"
    and "encodable (TSS x) \<Longrightarrow> segment (ssName x) \<Longrightarrow> rSS_Update (newStorageStates c) x o3 w = fakeSS_Update x w"
    and "encodable (TSS x) \<Longrightarrow> segment (ssName x) \<Longrightarrow> rSS_UpdateStatus (newStorageStates c) x o3 w = fakeSS_UpdateStatus x w"
proof -
  note sent = rSS_sent [OF assms(2,3)] and into = into_state [OF assms(1) serverClient_codecs [OF assms(2)]]
  have get: "returns (\<lambda>obj. encodable obj \<and> (\<exists>x. obj = TSS x)) (fst (Invokes (GetAction storagestatesResource [] n) w))" for n
    using rest_wf_states [OF assms(4)] by (intro Invokes_Get_returns) simp
  have body: "bodyObject cd (ObjectBody (encodeState (cdFormat cd) x)) = Inr (TSS x)" if "encodable (TSS x)"
    using decode_encodeState [OF assms(1)] that by simp
  have get': "into (mvRestClient c) asState zeroStorageState (answer cd (fst (Invokes (GetAction storagestatesResource [] n) w)))
      = toSS (fst (Invokes (GetAction storagestatesResource [] n) w))" for n
    by (rule into [OF get])
  have stored: "into (mvRestClient c) asState zeroStorageState (answer cd (fst (Invokes act w))) = toSS (fst (Invokes act w))"
    if "encodable (TSS x)" "act = CreateAction storagestatesResource [] (TSS x) \<or> act = UpdateAction storagestatesResource [] sub (TSS x)" for act sub
    using that by (intro into Invokes_Write_returns [of _ "TSS x"]) auto
  show "segment n \<Longrightarrow> rSS_Get (newStorageStates c) n o1 w = fakeSS_Get n w"
    by (simp only: sent fakeSS_Get_def) (rule apfst_eqI, rule get')
  show "segment n \<Longrightarrow> rSS_Delete (newStorageStates c) n o2 w = fakeSS_Delete n w"
    by (simp add: sent fakeSS_Delete_def Result_Error_answer)
  show "rSS_Create (newStorageStates c) x o3 w = fakeSS_Create x w" if "encodable (TSS x)"
    using stored [OF that] body [OF that]
    by (auto simp: sent withBody_def fakeSS_Create_def apfst_apfst intro: apfst_eqI)
  show "rSS_Update (newStorageStates c) x o3 w = fakeSS_Update x w" if "encodable (TSS x)" "segment (ssName x)"
    using that(2) stored [OF that(1)] body [OF that(1)]
    by (auto simp: sent withBody_def fakeSS_Update_def apfst_apfst intro: apfst_eqI)
  show "rSS_UpdateStatus (newStorageStates c) x o3 w = fakeSS_UpdateStatus x w" if "encodable (TSS x)" "segment (ssName x)"
    using that(2) stored [OF that(1)] body [OF that(1)]
    by (auto simp: sent withBody_def fakeSS_UpdateStatus_def apfst_apfst intro: apfst_eqI)
qed

lemma rSVM_sent:
  assumes "serverClient cd base c" "hostPath base"
  shows "segment n \<Longrightarrow> rSVM_Get (newStorageVersionMigrations c) n o1 w =
        apfst (\<lambda>r. into (mvRestClient c) asMigration zeroStorageVersionMigration (answer cd r)) (Invokes (GetAction storageversionmigrationsResource [] n) w)"
    and "segment n \<Longrightarrow> rSVM_Delete (newStorageVersionMigrations c) n o2 w =
        apfst (\<lambda>r. Result_Error (answer cd r)) (Invokes (DeleteAction storageversionmigrationsResource [] n) w)"
    and "rSVM_Create (newStorageVersionMigrations c) x o3 w = apfst (into (mvRestClient c) asMigration zeroStorageVersionMigration)
        (withBody cd (ObjectBody (encodeMigration (cdFormat cd) x)) (CreateAction storageversionmigrationsResource []) w)"
    and "segment (svmName x) \<Longrightarrow> rSVM_Update (newStorageVersionMigrations c) x o3 w = apfst (into (mvRestClient c) asMigration zeroStorageVersionMigration)
        (withBody cd (ObjectBody (encodeMigration (cdFormat cd) x)) (UpdateAction storageversionmigrationsResource [] []) w)"
    and "segment (svmName x) \<Longrightarrow> rSVM_UpdateStatus (newStorageVersionMigrations c) x o3 w = apfst (into (mvRestClient c) asMigration zeroStorageVersionMigration)
        (withBody cd (ObjectBody (encodeMigration (cdFormat cd) x)) (UpdateAction storageversionmigrationsResource [] ''status'') w)"
  using assms
  by (simp_all add: rSVM_Get_def rSVM_Delete_def rSVM_Create_def rSVM_Update_def rSVM_UpdateStatus_def newStorageVersionMigrations_def
      builder_ok NewRequest_client httpDo_tracker segment_plain serve_def storageversionmigrationsResource_def [symmetric] apfst_apfst
      segment_ne serverClient_codecs)

lemma rSVM_agrees:
  assumes "codec (cdFormat cd) (cdParse cd)" "serverClient cd base c" "hostPath base" "rest_wf w"
  shows "segment n \<Longrightarrow> rSVM_Get (newStorageVersionMigrations c) n o1 w = fakeSVM_Get n w"
    and "segment n \<Longrightarrow> rSVM_Delete (newStorageVersionMigrations c) n o2 w = fakeSVM_Delete n w"
    and "encodable (TSVM x) \<Longrightarrow> rSVM_Create (newStorageVersionMigrations c) x o3 w = fakeSVM_Create x w"
    and "encodable (TSVM x) \<Longrightarrow> segment (svmName x) \<Longrightarrow> rSVM_Update (newStorageVersionMigrations c) x o3 w = fakeSVM_Update x w"
    and "encodable (TSVM x) \<Longrightarrow> segment (svmName x) \<Longrightarrow> rSVM_UpdateStatus (newStorageVersionMigrations c) x o3 w = fakeSVM_UpdateStatus x w"
proof -
  note sent = rSVM_sent [OF assms(2,3)] and into = into_migration [OF assms(1) serverClient_codecs [OF assms(2)]]
  have get: "returns (\<lambda>obj. encodable obj \<and> (\<exists>x. obj = TSVM x)) (fst (Invokes (GetAction storageversionmigrationsResource [] n) w))" for n
    using rest_wf_migrations [OF assms(4)] by (intro Invokes_Get_returns) simp
  have body: "bodyObject cd (ObjectBody (encodeMigration (cdFormat cd) x)) = Inr (TSVM x)" if "encodable (TSVM x)"
    using decode_encodeMigration [OF assms(1)] that by simp
  have get': "into (mvRestClient c) asMigration zeroStorageVersionMigration (answer cd (fst (Invokes (GetAction storageversionmigrationsResource [] n) w)))
      = toSVM (fst (Invokes (GetAction storageversionmigrationsResource [] n) w))" for n
    by (rule into [OF get])
  have stored: "into (mvRestClient c) asMigration zeroStorageVersionMigration (answer cd (fst (Invokes act w))) = toSVM (fst (Invokes act w))"
    if "encodable (TSVM x)" "act = CreateAction storageversionmigrationsResource [] (TSVM x) \<or> act = UpdateAction storageversionmigrationsResource [] sub (TSVM x)" for act sub
    using that by (intro into Invokes_Write_returns [of _ "TSVM x"]) auto
  show "segment n \<Longrightarrow> rSVM_Get (newStorageVersionMigrations c) n o1 w = fakeSVM_Get n w"
    by (simp only: sent fakeSVM_Get_def) (rule apfst_eqI, rule get')
  show "segment n \<Longrightarrow> rSVM_Delete (newStorageVersionMigrations c) n o2 w = fakeSVM_Delete n w"
    by (simp add: sent fakeSVM_Delete_def Result_Error_answer)
  show "rSVM_Create (newStorageVersionMigrations c) x o3 w = fakeSVM_Create x w" if "encodable (TSVM x)"
    using stored [OF that] body [OF that]
    by (auto simp: sent withBody_def fakeSVM_Create_def apfst_apfst intro: apfst_eqI)
  show "rSVM_Update (newStorageVersionMigrations c) x o3 w = fakeSVM_Update x w" if "encodable (TSVM x)" "segment (svmName x)"
    using that(2) stored [OF that(1)] body [OF that(1)]
    by (auto simp: sent withBody_def fakeSVM_Update_def apfst_apfst intro: apfst_eqI)
  show "rSVM_UpdateStatus (newStorageVersionMigrations c) x o3 w = fakeSVM_UpdateStatus x w" if "encodable (TSVM x)" "segment (svmName x)"
    using that(2) stored [OF that(1)] body [OF that(1)]
    by (auto simp: sent withBody_def fakeSVM_UpdateStatus_def apfst_apfst intro: apfst_eqI)
qed

subsection \<open>Sequences of calls\<close>

datatype clientCall =
    GetState string | CreateState StorageState | UpdateState StorageState | UpdateStateStatus StorageState
  | DeleteState string
  | GetMigration string | CreateMigration StorageVersionMigration | UpdateMigration StorageVersionMigration
  | UpdateMigrationStatus StorageVersionMigration | DeleteMigration string

datatype clientResult =
    StateResult "(StorageState, error) result"
  | MigrationResult "(StorageVersionMigration, error) result"
  | DeleteResult "error option"

fun perform ::
    "'w StorageStateInterface \<Rightarrow> 'w StorageVersionMigrationInterface \<Rightarrow> clientCall \<Rightarrow> ('w, clientResult) call" where
  "perform sc mc (GetState n) w = apfst StateResult (ssGet sc n w)"
| "perform sc mc (CreateState s) w = apfst StateResult (ssCreate sc s w)"
| "perform sc mc (UpdateState s) w = apfst StateResult (ssUpdate sc s w)"
| "perform sc mc (UpdateStateStatus s) w = apfst StateResult (ssUpdateStatus sc s w)"
| "perform sc mc (DeleteState n) w = apfst DeleteResult (ssDelete sc n w)"
| "perform sc mc (GetMigration n) w = apfst MigrationResult (svmGet mc n w)"
| "perform sc mc (CreateMigration m) w = apfst MigrationResult (svmCreate mc m w)"
| "perform sc mc (UpdateMigration m) w = apfst MigrationResult (svmUpdate mc m w)"
| "perform sc mc (UpdateMigrationStatus m) w = apfst MigrationResult (svmUpdateStatus mc m w)"
| "perform sc mc (DeleteMigration n) w = apfst DeleteResult (svmDelete mc n w)"

fun performAll ::
    "'w StorageStateInterface \<Rightarrow> 'w StorageVersionMigrationInterface \<Rightarrow> clientCall list \<Rightarrow> ('w, clientResult list) call" where
  "performAll sc mc [] w = ([], w)"
| "performAll sc mc (c # cs) w =
     (case perform sc mc c w of (r, w1) \<Rightarrow> apfst (Cons r) (performAll sc mc cs w1))"

text \<open>Calls whose names fit into a path and whose objects survive the wire.\<close>

fun admissible :: "clientCall \<Rightarrow> bool" where
  "admissible (GetState n) \<longleftrightarrow> segment n"
| "admissible (CreateState s) \<longleftrightarrow> encodable (TSS s)"
| "admissible (UpdateState s) \<longleftrightarrow> encodable (TSS s) \<and> segment (ssName s)"
| "admissible (UpdateStateStatus s) \<longleftrightarrow> encodable (TSS s) \<and> segment (ssName s)"
| "admissible (DeleteState n) \<longleftrightarrow> segment n"
| "admissible (GetMigration n) \<longleftrightarrow> segment n"
| "admissible (CreateMigration m) \<longleftrightarrow> encodable (TSVM m)"
| "admissible (UpdateMigration m) \<longleftrightarrow> encodable (TSVM m) \<and> segment (svmName m)"
| "admissible (UpdateMigrationStatus m) \<longleftrightarrow> encodable (TSVM m) \<and> segment (svmName m)"
| "admissible (DeleteMigration n) \<longleftrightarrow> segment n"

lemma perform_agrees:
  assumes "codec (cdFormat cd) (cdParse cd)" "serverClient cd base c" "hostPath base" "rest_wf w" "admissible call"
  shows "perform (StorageStates c) (StorageVersionMigrations c) call w
       = perform FakeStorageStates FakeStorageVersionMigrations call w"
  using assms(5) rSS_agrees [OF assms(1-4)] rSVM_agrees [OF assms(1-4)]
  by (cases call) (simp_all add: StorageStates_def StorageVersionMigrations_def Let_def FakeStorageStates_def
      FakeStorageVersionMigrations_def)

lemma rest_wf_fake:
  "rest_wf w \<longleftrightarrow> fake_wf w \<and> (\<forall>s \<in> ran (fake_states w). encodable (TSS s)) \<and> (\<forall>m \<in> ran (fake_migs w). encodable (TSVM m))"
proof (cases "fake_wf w")
  case True
  have "view storagestatesResource (fcTracker w) n = Some obj \<longleftrightarrow> (\<exists>s. obj = TSS s \<and> fake_states w n = Some s)" for n obj
    using True fake_states_Some [OF True, of n] by (fastforce simp: fake_wf_def)
  moreover have "view storageversionmigrationsResource (fcTracker w) n = Some obj \<longleftrightarrow> (\<exists>m. obj = TSVM m \<and> fake_migs w n = Some m)" for n obj
    using True fake_migs_Some [OF True, of n] by (fastforce simp: fake_wf_def)
  ultimately show ?thesis by (auto simp: rest_wf_def ran_def simp del: encodable.simps)
qed (simp add: rest_wf_def)

lemma rest_wf_step:
  assumes "rest_wf w" "fake_wf w'"
    and "ran (fake_states w') \<subseteq> ran (fake_states w) \<union> S" "ran (fake_migs w') \<subseteq> ran (fake_migs w) \<union> M"
    and "\<forall>s \<in> S. encodable (TSS s)" "\<forall>m \<in> M. encodable (TSVM m)"
  shows "rest_wf w'"
  using assms by (auto simp: rest_wf_fake)

lemma ran_upd_Some: "ran (f(n \<mapsto> x)) \<subseteq> ran f \<union> {x}"
  by (auto simp: ran_def)

lemma ran_upd_None: "ran (f(n := None)) \<subseteq> ran f"
  by (auto simp: ran_def)

lemma state_write_rest:
  assumes "rest_wf w" "encodable (TSS s)" "apfst toSS (Invokes act w) = (r, w')"
    and "act = CreateAction storagestatesResource [] (TSS s) \<or> (\<exists>sub. act = UpdateAction storagestatesResource [] sub (TSS s))"
  shows "rest_wf w'"
proof -
  from assms(1) have wf: "fake_wf w" by (simp add: rest_wf_def)
  have "fake_wf w' \<and> fake_migs w' = fake_migs w \<and> ran (fake_states w') \<subseteq> ran (fake_states w) \<union> {s}"
    using assms(4) fake_ss_write [OF wf assms(3), of s False] fake_ss_write [OF wf assms(3), of s True]
      ran_upd_Some [of "fake_states w" "ssName s" s] by (auto split: if_splits)
  then show ?thesis using assms(1,2) by (intro rest_wf_step [OF assms(1), of w' "{s}" "{}"]) auto
qed

lemma migration_write_rest:
  assumes "rest_wf w" "encodable (TSVM m)" "apfst toSVM (Invokes act w) = (r, w')"
    and "act = CreateAction storageversionmigrationsResource [] (TSVM m)
         \<or> (\<exists>sub. act = UpdateAction storageversionmigrationsResource [] sub (TSVM m))"
  shows "rest_wf w'"
proof -
  from assms(1) have wf: "fake_wf w" by (simp add: rest_wf_def)
  have "fake_wf w' \<and> fake_states w' = fake_states w \<and> ran (fake_migs w') \<subseteq> ran (fake_migs w) \<union> {m}"
    using assms(4) fake_svm_write [OF wf assms(3), of m False] fake_svm_write [OF wf assms(3), of m True]
      ran_upd_Some [of "fake_migs w" "svmName m" m] by (auto split: if_splits)
  then show ?thesis using assms(1,2) by (intro rest_wf_step [OF assms(1), of w' "{}" "{m}"]) auto
qed

lemma apfst_eq_iff: "apfst f x = (a, b) \<longleftrightarrow> (\<exists>y. x = (y, b) \<and> a = f y)"
  by (cases x) auto

lemma perform_rest_wf:
  assumes "rest_wf w" "admissible call" "perform FakeStorageStates FakeStorageVersionMigrations call w = (r, w')"
  shows "rest_wf w'"
proof -
  from assms(1) have wf: "fake_wf w" by (simp add: rest_wf_def)
  have same: "rest_wf w'" if "fake_wf w'" "ran (fake_states w') \<subseteq> ran (fake_states w)" "ran (fake_migs w') \<subseteq> ran (fake_migs w)"
    using that rest_wf_step [OF assms(1), of w' "{}" "{}"] by simp
  show ?thesis
  proof (cases call)
    case (GetState n) then show ?thesis using assms(3) fake_ss_get [OF wf] same by (fastforce simp: apfst_eq_iff)
  next
    case (GetMigration n) then show ?thesis using assms(3) fake_svm_get [OF wf] same by (fastforce simp: apfst_eq_iff)
  next
    case (DeleteState n) then show ?thesis using assms(3) fake_ss_delete [OF wf, of n _ w'] same ran_upd_None [of "fake_states w" n]
      by (auto simp: apfst_eq_iff)
  next
    case (DeleteMigration n) then show ?thesis using assms(3) fake_svm_delete [OF wf, of n _ w'] same ran_upd_None [of "fake_migs w" n]
      by (auto simp: apfst_eq_iff)
  next
    case (CreateState s) then show ?thesis
      using assms state_write_rest [OF assms(1), of s "CreateAction storagestatesResource [] (TSS s)" _ w']
      by (auto simp: fakeSS_defs apfst_eq_iff simp del: encodable.simps)
  next
    case (UpdateState s) then show ?thesis
      using assms state_write_rest [OF assms(1), of s "UpdateAction storagestatesResource [] [] (TSS s)" _ w']
      by (auto simp: fakeSS_defs apfst_eq_iff simp del: encodable.simps)
  next
    case (UpdateStateStatus s) then show ?thesis
      using assms state_write_rest [OF assms(1), of s "UpdateAction storagestatesResource [] ''status'' (TSS s)" _ w']
      by (auto simp: fakeSS_defs apfst_eq_iff simp del: encodable.simps)
  next
    case (CreateMigration m) then show ?thesis
      using assms migration_write_rest [OF assms(1), of m "CreateAction storageversionmigrationsResource [] (TSVM m)" _ w']
      by (auto simp: fakeSVM_defs apfst_eq_iff simp del: encodable.simps)
  next
    case (UpdateMigration m) then show ?thesis
      using assms migration_write_rest [OF assms(1), of m "UpdateAction storageversionmigrationsResource [] [] (TSVM m)" _ w']
      by (auto simp: fakeSVM_defs apfst_eq_iff simp del: encodable.simps)
  next
    case (UpdateMigrationStatus m) then show ?thesis
      using assms migration_write_rest [OF assms(1), of m "UpdateAction storageversionmigrationsResource [] ''status'' (TSVM m)" _ w']
      by (auto simp: fakeSVM_defs apfst_eq_iff simp del: encodable.simps)
  qed
qed

lemma performAll_agrees:
  assumes "codec (cdFormat cd) (cdParse cd)" "serverClient cd base c" "hostPath base"
  shows "rest_wf w \<Longrightarrow> list_all admissible calls \<Longrightarrow>
     performAll (StorageStates c) (StorageVersionMigrations c) calls w
     = performAll FakeStorageStates FakeStorageVersionMigrations calls w"
proof (induction calls arbitrary: w)
  case (Cons call calls)
  obtain r w1 where run: "perform FakeStorageStates FakeStorageVersionMigrations call w = (r, w1)" by fastforce
  with Cons.prems perform_agrees [OF assms, of w call]
  have "perform (StorageStates c) (StorageVersionMigrations c) call w = (r, w1)" by simp
  moreover have "rest_wf w1" using Cons.prems perform_rest_wf [OF _ _ run] by simp
  ultimately show ?case using Cons run by simp
qed simp

subsection \<open>The properties\<close>


text \<open>A host behind a proxy path, with the concrete codec of times.\<close>

definition exampleCodecs :: Codecs where
  "exampleCodecs = \<lparr>cdFormat = unaryTime, cdParse = parseUnary\<rparr>"

definition exampleLibrary :: "(FakeClientset, unit) RestLibrary" where
  "exampleLibrary = \<lparr>
     rlCodecs = exampleCodecs, rlUserAgent = ''migrator'',
     rlHTTPClientFor = (\<lambda>c. Inr (trackerTransport exampleCodecs ''/proxy/'')),
     rlHostPath = (\<lambda>c. Inr ''/proxy/''), rlNewDiscoveryClient = (\<lambda>c h. Inr ()), rlDiscoveryOf = (\<lambda>c. ())\<rparr>"

definition exampleConfig :: Config where
  "exampleConfig =
     \<lparr>cfHost = ''https://host/proxy/'', cfAPIPath = [], cfGroupVersion = None, cfNegotiatedSerializer = None,
      cfUserAgent = [], cfQPS = 40, cfBurst = 1000, cfRateLimiter = None\<rparr>"

definition exampleClientset :: "(FakeClientset, unit) Clientset" where
  "exampleClientset =
     \<lparr>csDiscoveryClient = (), csMigrationV1alpha1 =
        \<lparr>mvRestClient = \<lparr>rcBasePath = ''/proxy/'', rcVersionedAPIPath = ''/apis/migration.k8s.io/v1alpha1'',
          rcGroupVersion = SchemeGroupVersion, rcCodecs = exampleCodecs, rcRateLimiter = Some (40, 1000),
          rcHttp = trackerTransport exampleCodecs ''/proxy/''\<rparr>\<rparr>\<rparr>"

lemma exampleClientset_made: "NewForConfig exampleLibrary exampleConfig = Inr exampleClientset"
  by (simp add: NewForConfig_def NewForConfigAndClient_def typed_NewForConfigAndClient_def setConfigDefaults_def
      RESTClientForConfigAndClient_def exampleLibrary_def exampleConfig_def exampleClientset_def versionedAPIPath Let_def)

lemma exampleWorld_rest: "rest_wf exampleWorld"
proof -
  have "fake_states exampleWorld = [''pods'' \<mapsto> exampleState]" "fake_migs exampleWorld = [''pods'' \<mapsto> exampleMigration]"
    by (simp_all add: fun_eq_iff fake_states_def fake_migs_def view_def exampleWorld_def NewSimpleClientset_def tAdd_def
        tAdd_obj_def tNotify_def Let_def exampleMigration_def exampleState_def zeroObjectMeta_def)
  then show ?thesis
    using exampleWorld_wf by (simp add: rest_wf_fake exampleState_def exampleMigration_def wholeSeconds_def)
qed


text \<open>
  C35. A request for a name that cannot be a path segment (empty, a dot or two, or with a slash or a
  percent sign) is never sent: Get, Delete, Update and UpdateStatus of both typed clients return an error
  that is not NotFound, and the server is not touched, whatever it would have answered.
\<close>

theorem invalid_name_not_sent:
  assumes "\<not> segment n"
  shows "\<exists>e. \<not> IsNotFound (Some e)
    \<and> ssGet (StorageStates c) n w = (Inl e, w) \<and> ssDelete (StorageStates c) n w = (Some e, w)
    \<and> svmGet (StorageVersionMigrations c) n w = (Inl e, w) \<and> svmDelete (StorageVersionMigrations c) n w = (Some e, w)
    \<and> (\<forall>s. ssName s = n \<longrightarrow>
         ssUpdate (StorageStates c) s w = (Inl e, w) \<and> ssUpdateStatus (StorageStates c) s w = (Inl e, w))
    \<and> (\<forall>m. svmName m = n \<longrightarrow>
         svmUpdate (StorageVersionMigrations c) m w = (Inl e, w) \<and> svmUpdateStatus (StorageVersionMigrations c) m w = (Inl e, w))"
proof -
  let ?e = "if n = [] then ErrorString ''resource name may not be empty'' else ErrorString (''invalid resource name '' @ n)"
  have name: "Request_Name n r = r\<lparr>rqErr := Some ?e\<rparr>" if "rqErr r = None" "rqResourceName r = []" for r :: "'a Request"
    using assms that by (auto simp: Request_Name_def segment_def)
  have stuck: "Request_VersionedParams ps r = r" "Request_Body b r = r" "Request_SubResource subs r = r"
      "Request_Do r w = (Inl e, w)" if "rqErr r = Some e" for r :: "'a Request" and ps b subs e
    using that by (simp_all add: Request_VersionedParams_def Request_Body_def Request_SubResource_def Request_Do_def)
  have "\<not> IsNotFound (Some ?e)" by (simp add: api_error_defs)
  moreover note calls = StorageStates_def StorageVersionMigrations_def rSS_Get_def rSS_Delete_def rSS_Update_def
    rSS_UpdateStatus_def rSVM_Get_def rSVM_Delete_def rSVM_Update_def rSVM_UpdateStatus_def Let_def
    newStorageStates_def newStorageVersionMigrations_def
  ultimately show ?thesis
    by (intro exI [of _ ?e]) (auto simp: calls RESTClient_Get_def RESTClient_Put_def RESTClient_Delete_def
        Request_Verb_def NewRequest_def Request_Resource_ok name stuck into_def Result_Into_def Result_Error_def)
qed

theorem invalid_name_not_sent_witness:
  "\<exists>e. \<not> IsNotFound (Some e) \<and> ssGet (StorageStates (MigrationV1alpha1 exampleClientset)) ''a/b'' exampleWorld = (Inl e, exampleWorld)"
proof -
  have "\<not> segment ''a/b''" by code_simp
  from invalid_name_not_sent [OF this, of "MigrationV1alpha1 exampleClientset" exampleWorld] show ?thesis by blast
qed

end
