(* ===== verification/Commands.thy ===== *)
theory Commands
  imports Kube_Migrator Trigger_Controller Initializer Informer Rest_Correct
begin

section \<open>The commands\<close>

text \<open>
  The functions \<open>run\<close> of \<open>cmd/migrator/app\<close>, \<open>cmd/trigger/app\<close> and \<open>cmd/initializer/app\<close>: load the configuration of the
  client, construct the clients, construct the controller, and run it with the context that
  \<open>main\<close> cancels on an interrupt. Loading a configuration, the clients of other libraries and the runs of
  informers are the parameter \<open>lib\<close>. The HTTP servers for metrics and health run beside and are left out.
\<close>

datatype exit = Returned "error option" | Fatal string | Panicked string

record ('w, 'd, 'n) CommandLibrary =
  clBuildConfigFromFlags :: "string \<Rightarrow> (Config, error) result"
  clInClusterConfig :: "(Config, error) result"
  clRest :: "('w, 'd) RestLibrary"
  clDynamic :: "Config \<Rightarrow> ('w DynamicInterface, error) result"
  clUseLegacyDiscovery :: "'d \<Rightarrow> 'd"
  clDiscovery :: "'d \<Rightarrow> 'w DiscoveryInterface"
  clGetIndexer :: "'w SharedIndexInformer \<Rightarrow> 'w IndexerInterface"
  clKubernetes :: "Config \<Rightarrow> ('w ServerResourcesInterface \<times> 'n, error) result"
  clExtensions :: "Config \<Rightarrow> ('w CustomResourceDefinitionInterface, error) result"
  clAggregator :: "Config \<Rightarrow> ('w APIServiceInterface, error) result"
  clVERSION :: string \<comment> \<open>\<open>version.VERSION\<close>, which the linker sets\<close>

text \<open>The clientset of this repository, as the informers use it.\<close>

definition clientsetInterface :: "('w, 'd) Clientset \<Rightarrow> 'w ClientsetInterface" where
  "clientsetInterface cs =
     (let ss = newStorageStates (MigrationV1alpha1 cs); svm = newStorageVersionMigrations (MigrationV1alpha1 cs) in \<lparr>
        ciStatesList = rSS_List ss, ciStatesWatch = rSS_Watch ss,
        ciMigrationsList = rSVM_List svm, ciMigrationsWatch = rSVM_Watch svm\<rparr>)"

subsection \<open>Configuration\<close>

definition loadConfig :: "('w, 'd, 'n) CommandLibrary \<Rightarrow> string \<Rightarrow> exit + Config" where
  "loadConfig lib kubeconfigPath =
     (if kubeconfigPath \<noteq> [] then
        (case clBuildConfigFromFlags lib kubeconfigPath of
           Inl err \<Rightarrow> Inl (Fatal (''Error initializing client config: '' @ Error err @ '' for kubeconfig: '' @ kubeconfigPath))
         | Inr config \<Rightarrow> Inr config)
      else
        (case clInClusterConfig lib of Inl err \<Rightarrow> Inl (Returned (Some err)) | Inr config \<Rightarrow> Inr config))"

definition migratorUserAgent :: string where "migratorUserAgent = ''storage-version-migration-migrator''"
definition triggerUserAgent :: string where "triggerUserAgent = ''storage-version-migration-trigger''"
definition initializerUserAgent :: string where "initializerUserAgent = ''storage-version-migration-initializer''"

subsection \<open>The migrator\<close>

definition NewKubeMigrator ::
    "('w SharedIndexInformer \<Rightarrow> 'w IndexerInterface) \<Rightarrow> 'w DynamicInterface \<Rightarrow> ('w, 'd) Clientset \<Rightarrow> 'w KubeMigrator" where
  "NewKubeMigrator getIndexer dynamic migrationClient =
     (let informer = NewStatusIndexedInformer (clientsetInterface migrationClient) in
      \<lparr>kmDynamic = dynamic, kmMigrationClient = StorageVersionMigrations (MigrationV1alpha1 migrationClient),
       kmIndexer = getIndexer informer\<rparr>)"

record migratorFlags =
  mfKubeconfig :: string
  mfKubeAPIQPS :: rat
  mfKubeAPIBurst :: int

definition migratorConfig :: "('w, 'd, 'n) CommandLibrary \<Rightarrow> migratorFlags \<Rightarrow> Config \<Rightarrow> Config" where
  "migratorConfig lib flags config =
     config\<lparr>cfQPS := mfKubeAPIQPS flags, cfBurst := mfKubeAPIBurst flags,
            cfUserAgent := migratorUserAgent @ ''/'' @ clVERSION lib\<rparr>"

definition migrator_run ::
    "('w, 'd, 'n) CommandLibrary \<Rightarrow> migratorFlags \<Rightarrow> bool \<Rightarrow> 'w Runtime \<Rightarrow> bool \<Rightarrow> nat \<Rightarrow> CoreMigratorMetrics \<Rightarrow> 'w \<Rightarrow>
     (exit \<times> CoreMigratorMetrics \<times> 'w) option" where
  "migrator_run lib flags late rt synced rounds mt w =
     (case loadConfig lib (mfKubeconfig flags) of
        Inl x \<Rightarrow> Some (x, mt, w)
      | Inr config0 \<Rightarrow>
          (let config = migratorConfig lib flags config0 in
           case clDynamic lib config of
             Inl err \<Rightarrow> Some (Returned (Some err), mt, w)
           | Inr dynamic \<Rightarrow>
               (case NewForConfig (clRest lib) config of
                  Inl err \<Rightarrow> Some (Returned (Some err), mt, w)
                | Inr client \<Rightarrow>
                    (case KubeMigrator_Run late rt (NewKubeMigrator (clGetIndexer lib) dynamic client) synced rounds mt w of
                       None \<Rightarrow> None
                     | Some (mt1, w1) \<Rightarrow> Some (Panicked ''unreachable'', mt1, w1)))))"

subsection \<open>The trigger\<close>

definition newTrigger :: "('w, 'd, 'n) CommandLibrary \<Rightarrow> ('w, 'd) Clientset \<Rightarrow> 'w MigrationTrigger" where
  "newTrigger lib c =
     \<lparr>mtStates = StorageStates (MigrationV1alpha1 c), mtMigrations = StorageVersionMigrations (MigrationV1alpha1 c),
      mtDiscovery = clDiscovery lib (csDiscoveryClient c),
      mtIndexer = clGetIndexer lib (NewStatusAndResourceIndexedInformer (clientsetInterface c)), mtHeartbeat = zeroTime\<rparr>"

text \<open>What the command starts, if it gets so far; a run of the trigger is a sequence of steps from there.\<close>

definition trigger_start :: "('w, 'd, 'n) CommandLibrary \<Rightarrow> string \<Rightarrow> 'w \<Rightarrow> exit + 'w TriggerRun" where
  "trigger_start lib kubeconfigPath w =
     (case loadConfig lib kubeconfigPath of
        Inl x \<Rightarrow> Inl x
      | Inr config \<Rightarrow>
          (case NewForConfig (clRest lib) (config\<lparr>cfUserAgent := triggerUserAgent @ ''/'' @ clVERSION lib\<rparr>) of
             Inl err \<Rightarrow> Inl (Returned (Some err))
           | Inr client \<Rightarrow>
               (let client = client\<lparr>csDiscoveryClient := clUseLegacyDiscovery lib (csDiscoveryClient client)\<rparr>
                in Inr (NewMigrationTrigger (newTrigger lib client) w))))"

definition trigger_exit :: "'w TriggerRun \<Rightarrow> exit option" where
  "trigger_exit s = (if trReturned s then Some (Panicked ''unreachable'') else None)"

text \<open>The ends of the command: at the start, or in a state that a run reaches.\<close>

inductive trigger_run ::
    "('w, 'd, 'n) CommandLibrary \<Rightarrow> 'w Runtime \<Rightarrow> ('w \<Rightarrow> 'w \<Rightarrow> bool) \<Rightarrow> string \<Rightarrow> 'w \<Rightarrow> exit \<Rightarrow> 'w \<Rightarrow> bool"
  for lib rt E path w where
  not_started: "trigger_start lib path w = Inl x \<Longrightarrow> trigger_run lib rt E path w x w"
| ended: "trigger_start lib path w = Inr s \<Longrightarrow> triggerSteps rt E s s' \<Longrightarrow> trigger_exit s' = Some x \<Longrightarrow>
    trigger_run lib rt E path w x (trWorld s')"

subsection \<open>The initializer\<close>

definition initializer_run ::
    "('w, 'd, 'n) CommandLibrary \<Rightarrow> (resourceVersions \<Rightarrow> resourceVersions) \<Rightarrow> 'w Runtime \<Rightarrow> nat \<Rightarrow> 'w \<Rightarrow> exit \<times> 'w" where
  "initializer_run lib iter rt ticks w =
     (case clInClusterConfig lib of
        Inl err \<Rightarrow> (Returned (Some err), w)
      | Inr config0 \<Rightarrow>
          (let config = config0\<lparr>cfUserAgent := initializerUserAgent @ ''/'' @ clVERSION lib\<rparr> in
           case clKubernetes lib config of
             Inl err \<Rightarrow> (Returned (Some err), w)
           | Inr (discovery, namespaces) \<Rightarrow>
               (case clExtensions lib config of
                  Inl err \<Rightarrow> (Returned (Some err), w)
                | Inr crd \<Rightarrow>
                    (case clAggregator lib config of
                       Inl err \<Rightarrow> (Returned (Some err), w)
                     | Inr apiservice \<Rightarrow>
                         (case NewForConfig (clRest lib) config of
                            Inl err \<Rightarrow> (Returned (Some err), w)
                          | Inr client \<Rightarrow>
                              apfst Returned
                                (Initialize iter rt ticks
                                   (NewInitializer discovery crd apiservice namespaces
                                      (StorageVersionMigrations (MigrationV1alpha1 client))) w))))))"

subsection \<open>How the commands end\<close>

text \<open>Every state of the trigger that has not returned is one step away from the return of \<open>Run\<close>.\<close>

lemma trigger_can_return:
  assumes "\<not> trReturned s"
  obtains s' where "triggerStep rt E s s'" "trReturned s'" "trWorld s' = trWorld s"
proof (cases "trStarted s")
  case True
  then have "triggerStep rt E s (triggerReturn s)" using assms by (rule triggerStep.cancelled)
  then show ?thesis by (rule that) (simp_all add: triggerReturn_def)
next
  case False
  then have "triggerStep rt E s (s\<lparr>trReturned := True\<rparr>)" by (rule triggerStep.unsynced)
  then show ?thesis by (rule that) simp_all
qed

lemma loadConfig_error: "loadConfig lib path = Inl x \<Longrightarrow> x \<noteq> Returned None"
  by (auto simp: loadConfig_def split: if_splits sum.splits)

lemma trigger_start_error: "trigger_start lib path w = Inl x \<Longrightarrow> x \<noteq> Returned None"
  by (auto simp: trigger_start_def Let_def split: sum.splits dest: loadConfig_error)

text \<open>
  C40. The two controllers never end normally. When the migrator or the trigger command ends, it has not returned nil:
  it has either failed to load its configuration or to make its clients, before it touched the
  server, or it panics with the message \<open>unreachable\<close>. That panic is reachable: in every state
  of every run of the trigger in which it has not ended yet, an interrupt (or, before the start,
  a cache that does not sync) ends it in one step with the panic, and a migrator whose cache does not sync
  panics at once.
\<close>

theorem controllers_end_in_panic:
  "(\<forall>x mt' w'. migrator_run lib flags late rt synced rounds mt w = Some (x, mt', w') \<longrightarrow>
      x = Panicked ''unreachable'' \<or> x \<noteq> Returned None \<and> mt' = mt \<and> w' = w)
   \<and> (\<forall>x w'. trigger_run lib rt E path w x w' \<longrightarrow> x = Panicked ''unreachable'' \<or> x \<noteq> Returned None \<and> w' = w)
   \<and> (\<forall>s s'. trigger_start lib path w = Inr s \<longrightarrow> triggerSteps rt E s s' \<longrightarrow>
        trigger_run lib rt E path w (Panicked ''unreachable'') (trWorld s'))
   \<and> (\<forall>config dyn cs. loadConfig lib (mfKubeconfig flags) = Inr config \<longrightarrow>
        clDynamic lib (migratorConfig lib flags config) = Inr dyn \<longrightarrow>
        NewForConfig (clRest lib) (migratorConfig lib flags config) = Inr cs \<longrightarrow>
        migrator_run lib flags late rt False rounds mt w = Some (Panicked ''unreachable'', mt, w))"
proof (intro conjI allI impI)
  fix x mt' w'
  assume "migrator_run lib flags late rt synced rounds mt w = Some (x, mt', w')"
  then show "x = Panicked ''unreachable'' \<or> x \<noteq> Returned None \<and> mt' = mt \<and> w' = w"
    by (auto simp: migrator_run_def Let_def split: sum.splits option.splits dest: loadConfig_error)
next
  fix x w'
  assume "trigger_run lib rt E path w x w'"
  then show "x = Panicked ''unreachable'' \<or> x \<noteq> Returned None \<and> w' = w"
    by cases (auto simp: trigger_exit_def dest: trigger_start_error split: if_splits)
next
  fix s s'
  assume s: "trigger_start lib path w = Inr s" and run: "triggerSteps rt E s s'"
  show "trigger_run lib rt E path w (Panicked ''unreachable'') (trWorld s')"
  proof (cases "trReturned s'")
    case True
    then show ?thesis using trigger_run.ended [OF s run, of "Panicked ''unreachable''"] by (simp add: trigger_exit_def)
  next
    case False
    then obtain s2 where "triggerStep rt E s' s2" "trReturned s2" "trWorld s2 = trWorld s'" by (rule trigger_can_return)
    moreover from this(1) run have "triggerSteps rt E s s2" by simp
    ultimately show ?thesis using trigger_run.ended [OF s, of rt E s2 "Panicked ''unreachable''"] by (simp add: trigger_exit_def)
  qed
qed (simp add: migrator_run_def KubeMigrator_Run_def Let_def)

text \<open>In a cluster, with the REST clients of this repository over the tracker, and no resource to migrate.\<close>

definition exampleCommands :: "(FakeClientset, unit, unit) CommandLibrary" where
  "exampleCommands =
     (let missing = NewNotFound [] [] [] in \<lparr>
        clBuildConfigFromFlags = (\<lambda>path. Inl missing), clInClusterConfig = Inr exampleConfig, clRest = exampleLibrary,
        clDynamic = (\<lambda>config. Inr \<lparr>dynGet = (\<lambda>gvr ns n w. (Inl missing, w)), dynUpdate = (\<lambda>gvr ns obj w. (Inl missing, w)),
          dynList = (\<lambda>gvr ns opts w. (Inl missing, w))\<rparr>),
        clUseLegacyDiscovery = id, clDiscovery = (\<lambda>d. \<lparr>discServerPreferredResources = (\<lambda>w. (([], None), w))\<rparr>),
        clGetIndexer = (\<lambda>informer. \<lparr>ixByIndex = (\<lambda>i v w. (Inr [], w))\<rparr>),
        clKubernetes = (\<lambda>config. Inr (\<lparr>discServerGroupsAndResources = (\<lambda>w. (([], None), w))\<rparr>, ())),
        clExtensions = (\<lambda>config. Inl missing), clAggregator = (\<lambda>config. Inl missing), clVERSION = ''v0.1''\<rparr>)"

definition exampleFlags :: migratorFlags where
  "exampleFlags = \<lparr>mfKubeconfig = [], mfKubeAPIQPS = 5, mfKubeAPIBurst = 10\<rparr>"

lemma NewForConfig_example:
  "\<exists>cs. NewForConfig exampleLibrary (exampleConfig\<lparr>cfUserAgent := agent\<rparr>) = Inr cs"
  "\<exists>cs. NewForConfig exampleLibrary (exampleConfig\<lparr>cfQPS := 5, cfBurst := 10, cfUserAgent := agent\<rparr>) = Inr cs"
  by (simp_all add: NewForConfig_def NewForConfigAndClient_def typed_NewForConfigAndClient_def setConfigDefaults_def
      RESTClientForConfigAndClient_def exampleLibrary_def exampleConfig_def Let_def)

lemma exampleCommands_ready:
  "loadConfig exampleCommands [] = Inr exampleConfig" "\<exists>s. trigger_start exampleCommands [] w = Inr s"
  "\<exists>dyn. clDynamic exampleCommands config = Inr dyn"
  "\<exists>cs. NewForConfig (clRest exampleCommands) (migratorConfig exampleCommands exampleFlags exampleConfig) = Inr cs"
proof -
  show load: "loadConfig exampleCommands [] = Inr exampleConfig" by (simp add: loadConfig_def exampleCommands_def Let_def)
  obtain cs where "NewForConfig (clRest exampleCommands)
      (exampleConfig\<lparr>cfUserAgent := triggerUserAgent @ ''/'' @ clVERSION exampleCommands\<rparr>) = Inr cs"
    using NewForConfig_example(1) by (auto simp: exampleCommands_def Let_def)
  then show "\<exists>s. trigger_start exampleCommands [] w = Inr s" by (simp add: trigger_start_def load)
qed (use NewForConfig_example(2) in \<open>auto simp: exampleCommands_def exampleFlags_def migratorConfig_def Let_def\<close>)

theorem controllers_end_in_panic_witness:
  "(\<exists>w'. trigger_run exampleCommands clockRuntime (\<lambda>w w'. False) [] exampleWorld (Panicked ''unreachable'') w')
   \<and> migrator_run exampleCommands exampleFlags False clockRuntime False 3 newCoreMigratorMetrics exampleWorld
     = Some (Panicked ''unreachable'', newCoreMigratorMetrics, exampleWorld)"
proof -
  obtain s dyn cs where ready: "trigger_start exampleCommands [] exampleWorld = Inr s"
    "clDynamic exampleCommands (migratorConfig exampleCommands exampleFlags exampleConfig) = Inr dyn"
    "NewForConfig (clRest exampleCommands) (migratorConfig exampleCommands exampleFlags exampleConfig) = Inr cs"
    using exampleCommands_ready by meson
  note panic = controllers_end_in_panic [of exampleCommands exampleFlags False clockRuntime True 3 newCoreMigratorMetrics
      exampleWorld "\<lambda>w w'. False" "[]"]
  have "mfKubeconfig exampleFlags = []" by (simp add: exampleFlags_def)
  then show ?thesis using panic ready exampleCommands_ready(1) by (metis rtranclp.rtrancl_refl)
qed

end
