(* ===== verification/Init_Correct.thy ===== *)
theory Init_Correct
  imports Initializer Fake_Lists
begin

section \<open>The initializer on the fake clientsets\<close>

text \<open>
  The vendored fake clientset of package apiextensions (\<open>fake_customresourcedefinition.go\<close>), over the
  same object tracker as the one of this repository, and the contract \<open>init_env\<close> interpreted on
  it together with the fake migration client.
\<close>

subsection \<open>FakeCustomResourceDefinitions and FakeAPIServices\<close>

fun toCRD :: "(trackedObject option, error) result \<Rightarrow> (CustomResourceDefinition, error) result" where
  "toCRD (Inl e) = Inl e"
| "toCRD (Inr (Some (TCRD d))) = Inr d"
| "toCRD (Inr x) = Inl conversionPanic"

fun itemsCRD :: "trackedObject list \<Rightarrow> (CustomResourceDefinition list, error) result" where
  "itemsCRD [] = Inr []"
| "itemsCRD (TCRD d # os) = map_sum id (Cons d) (itemsCRD os)"
| "itemsCRD (x # os) = Inl conversionPanic"

fun itemsAPIService :: "trackedObject list \<Rightarrow> (APIService list, error) result" where
  "itemsAPIService [] = Inr []"
| "itemsAPIService (TAPIService a # os) = map_sum id (Cons a) (itemsAPIService os)"
| "itemsAPIService (x # os) = Inl conversionPanic"

definition FakeCustomResourceDefinitions :: "FakeClientset CustomResourceDefinitionInterface" where
  "FakeCustomResourceDefinitions = \<lparr>
     crdCreate = (\<lambda>d w. apfst toCRD (Invokes (CreateAction customresourcedefinitionsResource [] (TCRD d)) w)),
     crdDelete = (\<lambda>n w. apfst toErr (Invokes (DeleteAction customresourcedefinitionsResource [] n) w)),
     crdGet = (\<lambda>n w. apfst toCRD (Invokes (GetAction customresourcedefinitionsResource [] n) w)),
     crdList = (\<lambda>w. apfst itemsCRD (InvokesList customresourcedefinitionsResource [] w))\<rparr>"

definition FakeAPIServices :: "FakeClientset APIServiceInterface" where
  "FakeAPIServices = \<lparr>apiserviceList = (\<lambda>w. apfst itemsAPIService (InvokesList apiservicesResource [] w))\<rparr>"

subsection \<open>The contents of the clientset\<close>

definition fake_crds :: "FakeClientset \<Rightarrow> string \<rightharpoonup> CustomResourceDefinition" where
  "fake_crds w n =
     (case view customresourcedefinitionsResource (fcTracker w) n of Some (TCRD d) \<Rightarrow> Some d | _ \<Rightarrow> None)"

definition crds_wf :: "FakeClientset \<Rightarrow> bool" where
  "crds_wf w \<longleftrightarrow>
     (\<forall>n obj. view customresourcedefinitionsResource (fcTracker w) n = Some obj \<longrightarrow>
        (\<exists>d. obj = TCRD d \<and> crdObjectName d = n \<and> omNamespace (crdMeta d) = []))"

lemma crds_view:
  assumes "crds_wf w"
  shows "view customresourcedefinitionsResource (fcTracker w) n = map_option TCRD (fake_crds w n)"
proof (cases "view customresourcedefinitionsResource (fcTracker w) n")
  case (Some obj)
  then obtain d where "obj = TCRD d" using assms by (auto simp: crds_wf_def)
  with Some show ?thesis by (simp add: fake_crds_def)
qed (simp add: fake_crds_def)

lemma crds_of_view:
  assumes "view customresourcedefinitionsResource (fcTracker w') =
             (\<lambda>n. map_option TCRD (ds n))" and "\<And>n d. ds n = Some d \<Longrightarrow> crdObjectName d = n \<and> omNamespace (crdMeta d) = []"
  shows "crds_wf w' \<and> fake_crds w' = ds"
proof -
  have "fake_crds w' n = ds n" for n using assms(1) by (cases "ds n") (simp_all add: fake_crds_def)
  then show ?thesis using assms by (auto simp: crds_wf_def)
qed

lemma crds_named:
  "crds_wf w \<Longrightarrow> fake_crds w n = Some d \<Longrightarrow> crdObjectName d = n \<and> omNamespace (crdMeta d) = []"
  using crds_view [of w n] unfolding crds_wf_def by fastforce

lemma crds_same:
  assumes "crds_wf w" and "view customresourcedefinitionsResource (fcTracker w') = view customresourcedefinitionsResource (fcTracker w)"
  shows "crds_wf w' \<and> fake_crds w' = fake_crds w"
  using assms by (auto simp: crds_wf_def fake_crds_def fun_eq_iff)

lemma fake_crd_get:
  assumes "crds_wf w" and "crdGet FakeCustomResourceDefinitions n w = (r, w')"
  shows "crds_wf w' \<and> fake_crds w' = fake_crds w \<and>
    (case fake_crds w n of Some d \<Rightarrow> r = Inr d | None \<Rightarrow> \<exists>e. r = Inl e \<and> IsNotFound (Some e))"
proof -
  have "fcTracker w' = fcTracker w"
    and "r = toCRD (case fake_crds w n of
           None \<Rightarrow> Inl (NewNotFound (sgvrGroup customresourcedefinitionsResource)
                               (sgvrResource customresourcedefinitionsResource) n)
         | Some d \<Rightarrow> Inr (Some (TCRD d)))"
    using assms by (auto simp: FakeCustomResourceDefinitions_def Invokes_get crds_view split: option.splits)
  then show ?thesis using crds_same [OF assms(1), of w'] by (auto simp: IsNotFound_NewNotFound split: option.splits)
qed

lemma fake_crd_create:
  assumes "crds_wf w" and "crdCreate FakeCustomResourceDefinitions d w = (r, w')"
  shows "crds_wf w' \<and>
    (r = Inr d \<and> fake_crds w (crdObjectName d) = None \<and> fake_crds w' = (fake_crds w)(crdObjectName d \<mapsto> d)
     \<or> (\<exists>e. r = Inl e) \<and> fake_crds w' = fake_crds w)"
proof -
  obtain r0 where r0: "Invokes (CreateAction customresourcedefinitionsResource [] (TCRD d)) w = (r0, w')" "r = toCRD r0"
    using assms(2) by (cases "Invokes (CreateAction customresourcedefinitionsResource [] (TCRD d)) w")
      (auto simp: FakeCustomResourceDefinitions_def)
  have act: "CreateAction customresourcedefinitionsResource [] (TCRD d) =
      CreateAction customresourcedefinitionsResource [] (TCRD d) \<and> \<not> False \<or> (\<exists>sub.
      CreateAction customresourcedefinitionsResource [] (TCRD d) = UpdateAction customresourcedefinitionsResource [] sub (TCRD d) \<and> False)"
    by simp
  show ?thesis using r0(1) act
  proof (cases rule: Invokes_write)
    case (fail e)
    then show ?thesis using crds_same [OF assms(1), of w'] r0(2) by auto
  next
    case ok
    have "view customresourcedefinitionsResource (fcTracker w') =
        (\<lambda>n. map_option TCRD (((fake_crds w)(crdObjectName d \<mapsto> d)) n))"
      using ok(4) crds_view [OF assms(1)] by (auto simp: fun_eq_iff)
    then have "crds_wf w' \<and> fake_crds w' = (fake_crds w)(crdObjectName d \<mapsto> d)"
      by (rule crds_of_view) (use crds_named [OF assms(1)] ok(2) in \<open>auto split: if_splits\<close>)
    moreover have "fake_crds w (crdObjectName d) = None" using ok(3) crds_view [OF assms(1)] by simp
    ultimately show ?thesis using ok(1) r0(2) by simp
  qed
qed

lemma fake_crd_delete:
  assumes "crds_wf w" and "crdDelete FakeCustomResourceDefinitions n w = (r, w')"
  shows "crds_wf w' \<and> fake_crds w' = (fake_crds w)(n := None)"
proof -
  obtain r0 where "Invokes (DeleteAction customresourcedefinitionsResource [] n) w = (r0, w')"
    using assms(2) by (cases "Invokes (DeleteAction customresourcedefinitionsResource [] n) w")
      (auto simp: FakeCustomResourceDefinitions_def)
  then have "view customresourcedefinitionsResource (fcTracker w') =
      (\<lambda>k. map_option TCRD (((fake_crds w)(n := None)) k))"
  proof (cases rule: Invokes_delete)
    case (missing e)
    then show ?thesis using crds_view [OF assms(1)] by (auto simp: fun_eq_iff)
  next
    case ok
    then show ?thesis using crds_view [OF assms(1)] by (auto simp: fun_eq_iff)
  qed
  then show ?thesis
    by (rule crds_of_view) (use crds_named [OF assms(1)] in \<open>auto split: if_splits\<close>)
qed

subsection \<open>The world of the initializer\<close>

record InitWorld =
  iwExtensions :: FakeClientset
  iwAggregator :: FakeClientset
  iwMigration :: FakeClientset
  iwResources :: "APIResourceList list" \<comment> \<open>the resources of the fake discovery client\<close>

abbreviation onExtensions :: "(FakeClientset, 'a) call \<Rightarrow> (InitWorld, 'a) call" where
  "onExtensions \<equiv> onPart iwExtensions (\<lambda>c w. w\<lparr>iwExtensions := c\<rparr>)"

definition initCRDs :: "InitWorld CustomResourceDefinitionInterface" where
  "initCRDs = \<lparr>
     crdCreate = (\<lambda>d. onExtensions (crdCreate FakeCustomResourceDefinitions d)),
     crdDelete = (\<lambda>n. onExtensions (crdDelete FakeCustomResourceDefinitions n)),
     crdGet = (\<lambda>n. onExtensions (crdGet FakeCustomResourceDefinitions n)),
     crdList = onExtensions (crdList FakeCustomResourceDefinitions)\<rparr>"

definition initAPIServices :: "InitWorld APIServiceInterface" where
  "initAPIServices = \<lparr>apiserviceList = onPart iwAggregator (\<lambda>c w. w\<lparr>iwAggregator := c\<rparr>) (apiserviceList FakeAPIServices)\<rparr>"

definition initDiscovery :: "InitWorld ServerResourcesInterface" where
  "initDiscovery = \<lparr>discServerGroupsAndResources = (\<lambda>w. ((iwResources w, None), w))\<rparr>"

definition initMigrations :: "InitWorld StorageVersionMigrationInterface" where
  "initMigrations = liftMigrations iwMigration (\<lambda>c w. w\<lparr>iwMigration := c\<rparr>) FakeStorageVersionMigrations"

definition initRuntime :: "InitWorld Runtime" where
  "initRuntime = \<lparr>
     rtNow = (\<lambda>w. (fcClock (iwMigration w), w)),
     rtSleep = (\<lambda>d w. w\<lparr>iwMigration := rtSleep clockRuntime d (iwMigration w)\<rparr>),
     rtRand = (\<lambda>w. (0, w))\<rparr>"

definition init_wf :: "InitWorld \<Rightarrow> bool" where
  "init_wf w \<longleftrightarrow> fake_wf (iwMigration w) \<and> crds_wf (iwExtensions w)"

definition init_migs :: "InitWorld \<Rightarrow> string \<rightharpoonup> StorageVersionMigration" where
  "init_migs w = fake_migs (iwMigration w)"

definition init_crds :: "InitWorld \<Rightarrow> string \<rightharpoonup> CustomResourceDefinition" where
  "init_crds w = fake_crds (iwExtensions w)"

lemmas init_world_defs = init_wf_def init_migs_def init_crds_def onPart_eq

lemma initMigrations_api: "migration_api initMigrations init_migs init_wf"
proof -
  have "migration_api initMigrations (\<lambda>w. fake_migs (iwMigration w)) (\<lambda>w. fake_wf (iwMigration w) \<and> crds_wf (iwExtensions w))"
    unfolding initMigrations_def by (rule liftMigrations_api [OF fake_svm.migration_api_axioms]) simp_all
  then show ?thesis by (simp add: init_migs_def [abs_def] init_wf_def [abs_def])
qed

lemma itemsList_tracker: "InvokesList gvr ns w = (os, w') \<Longrightarrow> fcTracker w' = fcTracker w"
  by (auto simp: InvokesList_def Let_def)

interpretation init_fake: init_env initMigrations init_migs init_wf initRuntime initCRDs initAPIServices
    initDiscovery init_crds "\<lambda>w. {}"
proof (intro init_env.intro init_env_axioms.intro initMigrations_api, goal_cases)
  case (1 w n d w') then show ?case using fake_crd_get [of "iwExtensions w" n "Inr d"]
    by (auto simp: initCRDs_def init_world_defs split: option.splits)
next
  case (2 w n e w') then show ?case using fake_crd_get [of "iwExtensions w" n "Inl e"]
    by (auto simp: initCRDs_def init_world_defs split: option.splits)
next
  case (3 w d d' w') then show ?case using fake_crd_create [of "iwExtensions w" d "Inr d'"]
    by (auto simp: initCRDs_def init_world_defs)
next
  case (4 w d e w') then show ?case using fake_crd_create [of "iwExtensions w" d "Inl e"]
    by (auto simp: initCRDs_def init_world_defs)
next
  case (5 w n res w') then show ?case using fake_crd_delete [of "iwExtensions w" n]
    by (auto simp: initCRDs_def init_world_defs)
next
  case (6 w dur) then show ?case using fake_svm.svm_sleep [of "iwMigration w" dur]
    by (simp add: initRuntime_def init_world_defs)
next
  case (7 w l w')
  obtain os x where x: "InvokesList customresourcedefinitionsResource [] (iwExtensions w) = (os, x)" by (metis surj_pair)
  then have "w' = w\<lparr>iwExtensions := x\<rparr>" using 7(2) by (auto simp: initCRDs_def FakeCustomResourceDefinitions_def onPart_def)
  then show ?case using 7(1) crds_same [of "iwExtensions w" x] itemsList_tracker [OF x] by (auto simp: init_world_defs)
next
  case (8 w l w') then show ?case by (auto simp: initAPIServices_def init_world_defs)
next
  case (9 w l w') then show ?case by (auto simp: initDiscovery_def)
qed

subsection \<open>A run on empty clientsets\<close>

definition emptyClient :: FakeClientset where
  "emptyClient = \<lparr>fcActions = [], fcTracker = \<lparr>tObjects = Map.empty, tWatchers = []\<rparr>, fcClock = 0\<rparr>"

definition exampleInitWorld :: InitWorld where
  "exampleInitWorld = \<lparr>iwExtensions = emptyClient, iwAggregator = emptyClient, iwMigration = emptyClient,
                       iwResources = testLists\<rparr>"

definition exampleInit :: "(InitWorld, unit) initializer" where
  "exampleInit = NewInitializer initDiscovery initCRDs initAPIServices () initMigrations"

text \<open>The extensions clientset once the definition has been created.\<close>

definition installedClient :: FakeClientset where
  "installedClient =
     \<lparr>fcActions = [GetAction customresourcedefinitionsResource [] crdName,
                   CreateAction customresourcedefinitionsResource [] (TCRD migrationCRD)],
      fcTracker = \<lparr>tObjects = [customresourcedefinitionsResource \<mapsto> [([], crdName) \<mapsto> TCRD migrationCRD]], tWatchers = []\<rparr>,
      fcClock = 0\<rparr>"

lemma exampleInitWorld_wf: "init_wf exampleInitWorld"
  by (simp add: init_wf_def exampleInitWorld_def emptyClient_def fake_wf_def crds_wf_def view_def)

lemma migrationCRD_meta [simp]: "omName (crdMeta migrationCRD) = crdName" "omNamespace (crdMeta migrationCRD) = []"
  by (simp_all add: migrationCRD_def crdName_def pluralCRDName_def GroupName_def zeroObjectMeta_def)

lemma migrationCRD_ns [simp]: "migrationCRD\<lparr>crdMeta := crdMeta migrationCRD\<lparr>omNamespace := []\<rparr>\<rparr> = migrationCRD"
  by (simp add: migrationCRD_def zeroObjectMeta_def)

lemma exampleInit_crd:
  "initializeCRD initRuntime t exampleInit exampleInitWorld =
     (None, exampleInitWorld\<lparr>iwExtensions := installedClient\<rparr>)"
  by (simp add: initializeCRD_def createCRD_def exampleInit_def NewInitializer_def initCRDs_def onPart_def
      FakeCustomResourceDefinitions_def Invokes_def tGet_def tCreate_def tAdd_obj_def tNotify_def Let_def
      exampleInitWorld_def emptyClient_def IsNotFound_NewNotFound installedClient_def)

definition daemonsets :: SchemaGVR where
  "daemonsets = \<lparr>sgvrGroup = ''extensions'', sgvrVersion = ''v1beta1'', sgvrResource = ''daemonsets''\<rparr>"

lemma exampleInit_lists:
  "crdList initCRDs (exampleInitWorld\<lparr>iwExtensions := installedClient\<rparr>) =
     (Inr [migrationCRD], exampleInitWorld\<lparr>iwExtensions := installedClient\<lparr>fcActions :=
        fcActions installedClient @ [ListAction customresourcedefinitionsResource []]\<rparr>\<rparr>)"
  "apiserviceList initAPIServices (exampleInitWorld\<lparr>iwExtensions := c\<rparr>) =
     (Inr [], exampleInitWorld\<lparr>iwExtensions := c, iwAggregator :=
        emptyClient\<lparr>fcActions := [ListAction apiservicesResource []]\<rparr>\<rparr>)"
  by (simp_all add: initCRDs_def FakeCustomResourceDefinitions_def initAPIServices_def FakeAPIServices_def onPart_def
      InvokesList_def Let_def tList_def matchingKeys_def installedClient_def exampleInitWorld_def emptyClient_def)

lemma exampleInit_find:
  "\<exists>w2. FindMigratableResources id (inDiscovery exampleInit) (exampleInitWorld\<lparr>iwExtensions := installedClient\<rparr>)
       = (Inr [daemonsets], w2) \<and> iwMigration w2 = emptyClient"
proof -
  have "csGroup (crdSpec migrationCRD) = ''migration.k8s.io''" by (simp add: migrationCRD_def)
  moreover have "pickFirst (recordLists [''migration.k8s.io''] [] testLists []) = [daemonsets]" by code_simp
  moreover have "iwResources exampleInitWorld = testLists" "iwMigration exampleInitWorld = emptyClient"
    by (simp_all add: exampleInitWorld_def)
  ultimately show ?thesis
    by (simp add: FindMigratableResources_def findCustomGroups_def findAggregatedGroups_def exampleInit_def
        NewInitializer_def NewDiscovery_def exampleInit_lists initDiscovery_def)
qed

lemma exampleInit_creates: "iwMigration w = emptyClient \<Longrightarrow> \<exists>w'. createMigrations initMigrations [daemonsets] w = (None, w')"
proof -
  assume w: "iwMigration w = emptyClient"
  have "\<not> Option.is_none (case fst (svmCreate FakeStorageVersionMigrations (migrationForResource daemonsets) emptyClient) of
      Inr m \<Rightarrow> Some () | Inl e \<Rightarrow> None)" by code_simp
  then obtain m c where "svmCreate FakeStorageVersionMigrations (migrationForResource daemonsets) emptyClient = (Inr m, c)"
    by (cases "svmCreate FakeStorageVersionMigrations (migrationForResource daemonsets) emptyClient")
      (auto split: sum.splits)
  then show ?thesis using w by (simp add: initMigrations_def liftMigrations_def onPart_def)
qed

lemma exampleInit_runs: "\<exists>w'. Initialize id initRuntime 0 exampleInit exampleInitWorld = (None, w')"
proof -
  obtain w2 where w2: "FindMigratableResources id (inDiscovery exampleInit) (exampleInitWorld\<lparr>iwExtensions := installedClient\<rparr>)
       = (Inr [daemonsets], w2)" "iwMigration w2 = emptyClient" using exampleInit_find by blast
  have "inMigrationClient exampleInit = initMigrations" by (simp add: exampleInit_def NewInitializer_def)
  then show ?thesis using exampleInit_creates [OF w2(2)] w2(1) by (simp add: Initialize_def exampleInit_crd)
qed

theorem initializeCRD_installs_witness:
  "\<exists>w' d. initializeCRD initRuntime 3 exampleInit exampleInitWorld = (None, w')
     \<and> init_crds w' crdName = Some d \<and> crdSpec d = crdSpec migrationCRD"
proof -
  have "inCrdClient exampleInit = initCRDs" by (simp add: exampleInit_def NewInitializer_def)
  from initializeCRD_installs [OF init_fake.init_env_axioms exampleInitWorld_wf this exampleInit_crd]
  show ?thesis using exampleInit_crd [of 3] by blast
qed


end
