(* ===== verification/Deep_Copy.thy ===== *)
theory Deep_Copy
  imports Api_Types "HOL-Library.Monad_Syntax"
begin

section \<open>Deep copies\<close>

text \<open>
  \<open>pkg/apis/migration/v1alpha1/zz_generated.deepcopy.go\<close> on an explicit heap. A Go struct is a value;
  its slices and maps are references to cells of the heap, so a plain assignment shares them. A copy
  function takes the struct it reads and the heap, and returns the struct it writes through its
  argument \<open>out\<close> and the new heap; a dangling reference, which Go excludes, gives \<open>None\<close>. The readers
  give the value of the theory \<open>Api_Types\<close> that a struct stands for.
\<close>

subsection \<open>Structs with references, and the heap\<close>

type_synonym pointer = "nat option" \<comment> \<open>\<open>None\<close> is nil\<close>
type_synonym slice = "(nat \<times> nat \<times> nat) option" \<comment> \<open>array, offset, length\<close>

record mObjectMeta =
  xmName :: string
  xmGenerateName :: string
  xmNamespace :: string
  xmUID :: string
  xmResourceVersion :: string
  xmLabels :: pointer
  xmAnnotations :: pointer

record mListMeta =
  xlResourceVersion :: string
  xlContinue :: string
  xlRemainingItemCount :: pointer

record mStorageStateStatus =
  xsPersisted :: slice
  xsCurrent :: string
  xsHeartbeat :: Time

record mStorageState =
  xsTypeMeta :: TypeMeta
  xsMeta :: mObjectMeta
  xsSpec :: StorageStateSpec
  xsStatus :: mStorageStateStatus

record mStorageVersionMigrationStatus =
  xvConditions :: slice

record mStorageVersionMigration =
  xvTypeMeta :: TypeMeta
  xvMeta :: mObjectMeta
  xvSpec :: StorageVersionMigrationSpec
  xvStatus :: mStorageVersionMigrationStatus

record mStorageStateList =
  xslTypeMeta :: TypeMeta
  xslListMeta :: mListMeta
  xslItems :: slice

record mStorageVersionMigrationList =
  xvlTypeMeta :: TypeMeta
  xvlListMeta :: mListMeta
  xvlItems :: slice

text \<open>What a cell holds: a backing array, a map, an integer, or a struct made by \<open>new\<close>.\<close>

datatype cell =
    Strings "string list"
  | Conditions "MigrationCondition list"
  | States "mStorageState list"
  | Migrations "mStorageVersionMigration list"
  | StringMap "(string \<times> string) list"
  | Int64 int
  | NewGroupResource GroupResource
  | NewGroupVersionResource GroupVersionResource
  | NewCondition MigrationCondition
  | NewState mStorageState
  | NewStateList mStorageStateList
  | NewStateSpec StorageStateSpec
  | NewStateStatus mStorageStateStatus
  | NewMigration mStorageVersionMigration
  | NewMigrationList mStorageVersionMigrationList
  | NewMigrationSpec StorageVersionMigrationSpec
  | NewMigrationStatus mStorageVersionMigrationStatus

record heap =
  hpNext :: nat
  hpCells :: "nat \<rightharpoonup> cell"

type_synonym 'a copier = "'a \<Rightarrow> heap \<Rightarrow> ('a \<times> heap) option"

definition alloc :: "cell \<Rightarrow> heap \<Rightarrow> nat \<times> heap" where
  "alloc c h = (hpNext h, h\<lparr>hpNext := Suc (hpNext h), hpCells := (hpCells h)(hpNext h \<mapsto> c)\<rparr>)"

definition store :: "nat \<Rightarrow> cell \<Rightarrow> heap \<Rightarrow> heap" where
  "store a c h = h\<lparr>hpCells := (hpCells h)(a \<mapsto> c)\<rparr>"

subsection \<open>Readers\<close>

text \<open>The elements of a slice of an array that \<open>sel\<close> recognises; a nil slice has none.\<close>

definition elems :: "(cell \<Rightarrow> 'a list option) \<Rightarrow> (nat \<rightharpoonup> cell) \<Rightarrow> slice \<Rightarrow> 'a list option" where
  "elems sel c s =
     (case s of
        None \<Rightarrow> Some []
      | Some (a, off, len) \<Rightarrow>
          do { x \<leftarrow> c a; xs \<leftarrow> sel x; if off + len \<le> length xs then Some (take len (drop off xs)) else None })"

definition deref :: "(cell \<Rightarrow> 'a option) \<Rightarrow> 'a \<Rightarrow> (nat \<rightharpoonup> cell) \<Rightarrow> pointer \<Rightarrow> 'a option" where
  "deref sel nil c p = (case p of None \<Rightarrow> Some nil | Some a \<Rightarrow> do { x \<leftarrow> c a; sel x })"

fun selStrings :: "cell \<Rightarrow> string list option" where
  "selStrings (Strings xs) = Some xs" | "selStrings _ = None"

fun selConditions :: "cell \<Rightarrow> MigrationCondition list option" where
  "selConditions (Conditions xs) = Some xs" | "selConditions _ = None"

fun selStates :: "cell \<Rightarrow> mStorageState list option" where
  "selStates (States xs) = Some xs" | "selStates _ = None"

fun selMigrations :: "cell \<Rightarrow> mStorageVersionMigration list option" where
  "selMigrations (Migrations xs) = Some xs" | "selMigrations _ = None"

fun selMap :: "cell \<Rightarrow> (string \<times> string) list option" where
  "selMap (StringMap m) = Some m" | "selMap _ = None"

fun selInt :: "cell \<Rightarrow> int option option" where
  "selInt (Int64 i) = Some (Some i)" | "selInt _ = None"

definition readMeta :: "(nat \<rightharpoonup> cell) \<Rightarrow> mObjectMeta \<Rightarrow> ObjectMeta option" where
  "readMeta c m =
     do { l \<leftarrow> deref selMap [] c (xmLabels m); a \<leftarrow> deref selMap [] c (xmAnnotations m);
          Some \<lparr>omName = xmName m, omGenerateName = xmGenerateName m, omNamespace = xmNamespace m,
                omUID = xmUID m, omResourceVersion = xmResourceVersion m, omLabels = l, omAnnotations = a\<rparr> }"

definition readListMeta :: "(nat \<rightharpoonup> cell) \<Rightarrow> mListMeta \<Rightarrow> ListMeta option" where
  "readListMeta c m =
     do { n \<leftarrow> deref selInt None c (xlRemainingItemCount m);
          Some \<lparr>lmResourceVersion = xlResourceVersion m, lmContinue = xlContinue m, lmRemainingItemCount = n\<rparr> }"

definition readStateStatus :: "(nat \<rightharpoonup> cell) \<Rightarrow> mStorageStateStatus \<Rightarrow> StorageStateStatus option" where
  "readStateStatus c s =
     do { hs \<leftarrow> elems selStrings c (xsPersisted s);
          Some \<lparr>PersistedStorageVersionHashes = hs, CurrentStorageVersionHash = xsCurrent s,
                LastHeartbeatTime = xsHeartbeat s\<rparr> }"

definition readState :: "(nat \<rightharpoonup> cell) \<Rightarrow> mStorageState \<Rightarrow> StorageState option" where
  "readState c x =
     do { om \<leftarrow> readMeta c (xsMeta x); st \<leftarrow> readStateStatus c (xsStatus x);
          Some \<lparr>ssTypeMeta = xsTypeMeta x, ssMeta = om, ssSpec = xsSpec x, ssStatus = st\<rparr> }"

definition readMigrationStatus :: "(nat \<rightharpoonup> cell) \<Rightarrow> mStorageVersionMigrationStatus \<Rightarrow> StorageVersionMigrationStatus option" where
  "readMigrationStatus c s = map_option (\<lambda>cs. \<lparr>smConditions = cs\<rparr>) (elems selConditions c (xvConditions s))"

definition readMigration :: "(nat \<rightharpoonup> cell) \<Rightarrow> mStorageVersionMigration \<Rightarrow> StorageVersionMigration option" where
  "readMigration c x =
     do { om \<leftarrow> readMeta c (xvMeta x); st \<leftarrow> readMigrationStatus c (xvStatus x);
          Some \<lparr>svmTypeMeta = xvTypeMeta x, svmMeta = om, svmSpec = xvSpec x, svmStatus = st\<rparr> }"

definition readStateList :: "(nat \<rightharpoonup> cell) \<Rightarrow> mStorageStateList \<Rightarrow> StorageStateList option" where
  "readStateList c l =
     do { lm \<leftarrow> readListMeta c (xslListMeta l); xs \<leftarrow> elems selStates c (xslItems l);
          items \<leftarrow> those (map (readState c) xs);
          Some \<lparr>slTypeMeta = xslTypeMeta l, slListMeta = lm, slItems = items\<rparr> }"

definition readMigrationList :: "(nat \<rightharpoonup> cell) \<Rightarrow> mStorageVersionMigrationList \<Rightarrow> StorageVersionMigrationList option" where
  "readMigrationList c l =
     do { lm \<leftarrow> readListMeta c (xvlListMeta l); xs \<leftarrow> elems selMigrations c (xvlItems l);
          items \<leftarrow> those (map (readMigration c) xs);
          Some \<lparr>vlTypeMeta = xvlTypeMeta l, vlListMeta = lm, vlItems = items\<rparr> }"

subsection \<open>DeepCopyInto\<close>

text \<open>
  The vendored \<open>ObjectMeta.DeepCopyInto\<close> and \<open>ListMeta.DeepCopyInto\<close>, on the fields the model has.
\<close>

definition copyPointer :: "(cell \<Rightarrow> 'a option) \<Rightarrow> pointer copier" where
  "copyPointer sel p h =
     (case p of
        None \<Rightarrow> Some (None, h)
      | Some a \<Rightarrow>
          do { x \<leftarrow> hpCells h a; _ \<leftarrow> sel x; let (b, h1) = alloc x h in Some (Some b, h1) })"

definition ObjectMeta_DeepCopyInto :: "mObjectMeta copier" where
  "ObjectMeta_DeepCopyInto m h =
     do { (l, h1) \<leftarrow> copyPointer selMap (xmLabels m) h; (a, h2) \<leftarrow> copyPointer selMap (xmAnnotations m) h1;
          Some (m\<lparr>xmLabels := l, xmAnnotations := a\<rparr>, h2) }"

definition ListMeta_DeepCopyInto :: "mListMeta copier" where
  "ListMeta_DeepCopyInto m h =
     do { (n, h1) \<leftarrow> copyPointer selInt (xlRemainingItemCount m) h; Some (m\<lparr>xlRemainingItemCount := n\<rparr>, h1) }"

definition GroupResource_DeepCopyInto :: "GroupResource copier" where
  "GroupResource_DeepCopyInto x h = Some (x, h)"

definition GroupVersionResource_DeepCopyInto :: "GroupVersionResource copier" where
  "GroupVersionResource_DeepCopyInto x h = Some (x, h)"

text \<open>\<open>metav1.Time.DeepCopyInto\<close> is an assignment.\<close>

definition MigrationCondition_DeepCopyInto :: "MigrationCondition copier" where
  "MigrationCondition_DeepCopyInto x h = Some (x\<lparr>mcLastUpdateTime := mcLastUpdateTime x\<rparr>, h)"

text \<open>
  A slice that is not nil: \<open>make\<close> allocates the array of the copy (filled with \<open>zero\<close>), then the
  loop copies each element into it.
\<close>

fun copyEach :: "'a copier \<Rightarrow> 'a list copier" where
  "copyEach f [] h = Some ([], h)"
| "copyEach f (x # xs) h = do { (y, h1) \<leftarrow> f x h; (ys, h2) \<leftarrow> copyEach f xs h1; Some (y # ys, h2) }"

definition copySlice :: "(cell \<Rightarrow> 'a list option) \<Rightarrow> ('a list \<Rightarrow> cell) \<Rightarrow> 'a \<Rightarrow> 'a copier \<Rightarrow> slice copier" where
  "copySlice sel arr zero f s h =
     (case s of
        None \<Rightarrow> Some (None, h)
      | Some (a, off, len) \<Rightarrow>
          do { xs \<leftarrow> elems sel (hpCells h) s;
               let (b, h1) = alloc (arr (replicate len zero)) h;
               (ys, h2) \<leftarrow> copyEach f xs h1;
               Some (Some (b, 0, len), store b (arr ys) h2) })"

definition StorageStateSpec_DeepCopyInto :: "StorageStateSpec copier" where
  "StorageStateSpec_DeepCopyInto x h = Some (x\<lparr>ssSpecResource := ssSpecResource x\<rparr>, h)"

definition StorageStateStatus_DeepCopyInto :: "mStorageStateStatus copier" where
  "StorageStateStatus_DeepCopyInto x h =
     do { (s, h1) \<leftarrow> copySlice selStrings Strings [] (\<lambda>y h. Some (y, h)) (xsPersisted x) h;
          Some (x\<lparr>xsPersisted := s, xsHeartbeat := xsHeartbeat x\<rparr>, h1) }"

definition StorageState_DeepCopyInto :: "mStorageState copier" where
  "StorageState_DeepCopyInto x h =
     do { (om, h1) \<leftarrow> ObjectMeta_DeepCopyInto (xsMeta x) h;
          (st, h2) \<leftarrow> StorageStateStatus_DeepCopyInto (xsStatus x) h1;
          Some (x\<lparr>xsTypeMeta := xsTypeMeta x, xsMeta := om, xsSpec := xsSpec x, xsStatus := st\<rparr>, h2) }"

definition StorageVersionMigrationSpec_DeepCopyInto :: "StorageVersionMigrationSpec copier" where
  "StorageVersionMigrationSpec_DeepCopyInto x h = Some (x\<lparr>specResource := specResource x\<rparr>, h)"

definition zeroCondition :: MigrationCondition where
  "zeroCondition = \<lparr>mcType = [], mcStatus = [], mcLastUpdateTime = zeroTime, mcReason = [], mcMessage = []\<rparr>"

definition StorageVersionMigrationStatus_DeepCopyInto :: "mStorageVersionMigrationStatus copier" where
  "StorageVersionMigrationStatus_DeepCopyInto x h =
     do { (s, h1) \<leftarrow> copySlice selConditions Conditions zeroCondition MigrationCondition_DeepCopyInto (xvConditions x) h;
          Some (x\<lparr>xvConditions := s\<rparr>, h1) }"

definition StorageVersionMigration_DeepCopyInto :: "mStorageVersionMigration copier" where
  "StorageVersionMigration_DeepCopyInto x h =
     do { (om, h1) \<leftarrow> ObjectMeta_DeepCopyInto (xvMeta x) h;
          (st, h2) \<leftarrow> StorageVersionMigrationStatus_DeepCopyInto (xvStatus x) h1;
          Some (x\<lparr>xvTypeMeta := xvTypeMeta x, xvMeta := om, xvSpec := xvSpec x, xvStatus := st\<rparr>, h2) }"

definition zeroMMeta :: mObjectMeta where
  "zeroMMeta = \<lparr>xmName = [], xmGenerateName = [], xmNamespace = [], xmUID = [], xmResourceVersion = [],
                xmLabels = None, xmAnnotations = None\<rparr>"

definition zeroMState :: mStorageState where
  "zeroMState = \<lparr>xsTypeMeta = zeroTypeMeta, xsMeta = zeroMMeta,
     xsSpec = \<lparr>ssSpecResource = \<lparr>grGroup = [], grResource = []\<rparr>\<rparr>,
     xsStatus = \<lparr>xsPersisted = None, xsCurrent = [], xsHeartbeat = zeroTime\<rparr>\<rparr>"

definition zeroMMigration :: mStorageVersionMigration where
  "zeroMMigration = \<lparr>xvTypeMeta = zeroTypeMeta, xvMeta = zeroMMeta,
     xvSpec = \<lparr>specResource = \<lparr>gvrGroup = [], gvrVersion = [], gvrResource = []\<rparr>, specContinueToken = []\<rparr>,
     xvStatus = \<lparr>xvConditions = None\<rparr>\<rparr>"

definition StorageStateList_DeepCopyInto :: "mStorageStateList copier" where
  "StorageStateList_DeepCopyInto x h =
     do { (lm, h1) \<leftarrow> ListMeta_DeepCopyInto (xslListMeta x) h;
          (s, h2) \<leftarrow> copySlice selStates States zeroMState StorageState_DeepCopyInto (xslItems x) h1;
          Some (x\<lparr>xslTypeMeta := xslTypeMeta x, xslListMeta := lm, xslItems := s\<rparr>, h2) }"

definition StorageVersionMigrationList_DeepCopyInto :: "mStorageVersionMigrationList copier" where
  "StorageVersionMigrationList_DeepCopyInto x h =
     do { (lm, h1) \<leftarrow> ListMeta_DeepCopyInto (xvlListMeta x) h;
          (s, h2) \<leftarrow> copySlice selMigrations Migrations zeroMMigration StorageVersionMigration_DeepCopyInto (xvlItems x) h1;
          Some (x\<lparr>xvlTypeMeta := xvlTypeMeta x, xvlListMeta := lm, xvlItems := s\<rparr>, h2) }"

subsection \<open>DeepCopy and DeepCopyObject\<close>

text \<open>
  \<open>DeepCopy\<close>: nil for a nil receiver; otherwise \<open>new\<close> allocates the copy, \<open>DeepCopyInto\<close> fills it, and
  its address is returned. The receiver points to a struct of its own.
\<close>

definition deepCopyNew ::
    "(cell \<Rightarrow> 'a option) \<Rightarrow> ('a \<Rightarrow> cell) \<Rightarrow> 'a \<Rightarrow> 'a copier \<Rightarrow> pointer copier" where
  "deepCopyNew sel mk zero into p h =
     (case p of
        None \<Rightarrow> Some (None, h)
      | Some a \<Rightarrow>
          do { c \<leftarrow> hpCells h a; x \<leftarrow> sel c;
               let (out, h1) = alloc (mk zero) h;
               (y, h2) \<leftarrow> into x h1;
               Some (Some out, store out (mk y) h2) })"

definition zeroMListMeta :: mListMeta where
  "zeroMListMeta = \<lparr>xlResourceVersion = [], xlContinue = [], xlRemainingItemCount = None\<rparr>"

definition zeroMStateList :: mStorageStateList where
  "zeroMStateList = \<lparr>xslTypeMeta = zeroTypeMeta, xslListMeta = zeroMListMeta, xslItems = None\<rparr>"

definition zeroMMigrationList :: mStorageVersionMigrationList where
  "zeroMMigrationList = \<lparr>xvlTypeMeta = zeroTypeMeta, xvlListMeta = zeroMListMeta, xvlItems = None\<rparr>"

fun selNewGroupResource :: "cell \<Rightarrow> GroupResource option" where
  "selNewGroupResource (NewGroupResource x) = Some x" | "selNewGroupResource _ = None"

definition GroupResource_DeepCopy :: "pointer copier" where
  "GroupResource_DeepCopy = deepCopyNew selNewGroupResource NewGroupResource \<lparr>grGroup = [], grResource = []\<rparr> GroupResource_DeepCopyInto"

fun selNewGroupVersionResource :: "cell \<Rightarrow> GroupVersionResource option" where
  "selNewGroupVersionResource (NewGroupVersionResource x) = Some x" | "selNewGroupVersionResource _ = None"

definition GroupVersionResource_DeepCopy :: "pointer copier" where
  "GroupVersionResource_DeepCopy = deepCopyNew selNewGroupVersionResource NewGroupVersionResource \<lparr>gvrGroup = [], gvrVersion = [], gvrResource = []\<rparr> GroupVersionResource_DeepCopyInto"

fun selNewCondition :: "cell \<Rightarrow> MigrationCondition option" where
  "selNewCondition (NewCondition x) = Some x" | "selNewCondition _ = None"

definition MigrationCondition_DeepCopy :: "pointer copier" where
  "MigrationCondition_DeepCopy = deepCopyNew selNewCondition NewCondition zeroCondition MigrationCondition_DeepCopyInto"

fun selNewState :: "cell \<Rightarrow> mStorageState option" where
  "selNewState (NewState x) = Some x" | "selNewState _ = None"

definition StorageState_DeepCopy :: "pointer copier" where
  "StorageState_DeepCopy = deepCopyNew selNewState NewState zeroMState StorageState_DeepCopyInto"

fun selNewStateList :: "cell \<Rightarrow> mStorageStateList option" where
  "selNewStateList (NewStateList x) = Some x" | "selNewStateList _ = None"

definition StorageStateList_DeepCopy :: "pointer copier" where
  "StorageStateList_DeepCopy = deepCopyNew selNewStateList NewStateList zeroMStateList StorageStateList_DeepCopyInto"

fun selNewStateSpec :: "cell \<Rightarrow> StorageStateSpec option" where
  "selNewStateSpec (NewStateSpec x) = Some x" | "selNewStateSpec _ = None"

definition StorageStateSpec_DeepCopy :: "pointer copier" where
  "StorageStateSpec_DeepCopy = deepCopyNew selNewStateSpec NewStateSpec (xsSpec zeroMState) StorageStateSpec_DeepCopyInto"

fun selNewStateStatus :: "cell \<Rightarrow> mStorageStateStatus option" where
  "selNewStateStatus (NewStateStatus x) = Some x" | "selNewStateStatus _ = None"

definition StorageStateStatus_DeepCopy :: "pointer copier" where
  "StorageStateStatus_DeepCopy = deepCopyNew selNewStateStatus NewStateStatus (xsStatus zeroMState) StorageStateStatus_DeepCopyInto"

fun selNewMigration :: "cell \<Rightarrow> mStorageVersionMigration option" where
  "selNewMigration (NewMigration x) = Some x" | "selNewMigration _ = None"

definition StorageVersionMigration_DeepCopy :: "pointer copier" where
  "StorageVersionMigration_DeepCopy = deepCopyNew selNewMigration NewMigration zeroMMigration StorageVersionMigration_DeepCopyInto"

fun selNewMigrationList :: "cell \<Rightarrow> mStorageVersionMigrationList option" where
  "selNewMigrationList (NewMigrationList x) = Some x" | "selNewMigrationList _ = None"

definition StorageVersionMigrationList_DeepCopy :: "pointer copier" where
  "StorageVersionMigrationList_DeepCopy = deepCopyNew selNewMigrationList NewMigrationList zeroMMigrationList StorageVersionMigrationList_DeepCopyInto"

fun selNewMigrationSpec :: "cell \<Rightarrow> StorageVersionMigrationSpec option" where
  "selNewMigrationSpec (NewMigrationSpec x) = Some x" | "selNewMigrationSpec _ = None"

definition StorageVersionMigrationSpec_DeepCopy :: "pointer copier" where
  "StorageVersionMigrationSpec_DeepCopy = deepCopyNew selNewMigrationSpec NewMigrationSpec (xvSpec zeroMMigration) StorageVersionMigrationSpec_DeepCopyInto"

fun selNewMigrationStatus :: "cell \<Rightarrow> mStorageVersionMigrationStatus option" where
  "selNewMigrationStatus (NewMigrationStatus x) = Some x" | "selNewMigrationStatus _ = None"

definition StorageVersionMigrationStatus_DeepCopy :: "pointer copier" where
  "StorageVersionMigrationStatus_DeepCopy = deepCopyNew selNewMigrationStatus NewMigrationStatus (xvStatus zeroMMigration) StorageVersionMigrationStatus_DeepCopyInto"

text \<open>\<open>DeepCopyObject\<close> returns a nil interface where \<open>DeepCopy\<close> returns nil, and the copy otherwise.\<close>

definition asObject :: "(pointer \<times> heap) option \<Rightarrow> (pointer \<times> heap) option" where
  "asObject r = map_option (\<lambda>(c, h). (case c of Some a \<Rightarrow> Some a | None \<Rightarrow> None, h)) r"

definition StorageState_DeepCopyObject :: "pointer copier" where
  "StorageState_DeepCopyObject p h = asObject (StorageState_DeepCopy p h)"

definition StorageStateList_DeepCopyObject :: "pointer copier" where
  "StorageStateList_DeepCopyObject p h = asObject (StorageStateList_DeepCopy p h)"

definition StorageVersionMigration_DeepCopyObject :: "pointer copier" where
  "StorageVersionMigration_DeepCopyObject p h = asObject (StorageVersionMigration_DeepCopy p h)"

definition StorageVersionMigrationList_DeepCopyObject :: "pointer copier" where
  "StorageVersionMigrationList_DeepCopyObject p h = asObject (StorageVersionMigrationList_DeepCopy p h)"

subsection \<open>Heaps that grow\<close>

definition heap_ok :: "heap \<Rightarrow> bool" where
  "heap_ok h \<longleftrightarrow> dom (hpCells h) \<subseteq> {..<hpNext h}"

definition ext :: "heap \<Rightarrow> heap \<Rightarrow> bool" where
  "ext h h' \<longleftrightarrow> hpCells h \<subseteq>\<^sub>m hpCells h' \<and> hpNext h \<le> hpNext h' \<and> heap_ok h'"

text \<open>The cells allocated since \<open>h\<close>.\<close>

definition fresh :: "heap \<Rightarrow> heap \<Rightarrow> nat \<rightharpoonup> cell" where
  "fresh h h' = hpCells h' |` {hpNext h ..}"

lemma ext_refl: "heap_ok h \<Longrightarrow> ext h h"
  by (simp add: ext_def)

lemma ext_trans: "ext h0 h1 \<Longrightarrow> ext h1 h2 \<Longrightarrow> ext h0 h2"
  by (auto simp: ext_def intro: map_le_trans)

lemma ext_ok: "ext h h' \<Longrightarrow> heap_ok h'"
  by (simp add: ext_def)

lemma map_le_restrict: "m \<subseteq>\<^sub>m m' \<Longrightarrow> A \<subseteq> B \<Longrightarrow> m |` A \<subseteq>\<^sub>m m' |` B"
  by (auto simp: map_le_def restrict_map_def split: if_splits)

lemma fresh_mono:
  assumes "ext h0 h1" "ext h2 h3"
  shows "fresh h1 h2 \<subseteq>\<^sub>m fresh h0 h3"
  using assms by (auto simp: fresh_def ext_def intro!: map_le_restrict)

lemma fresh_cells: "fresh h h' \<subseteq>\<^sub>m hpCells h'"
  by (auto simp: fresh_def map_le_def restrict_map_def)

lemma alloc_ext:
  assumes "heap_ok h" "alloc c h = (b, h1)"
  shows "ext h h1" "fresh h h1 b = Some c" "b = hpNext h"
proof -
  have "x < hpNext h" if "hpCells h x = Some y" for x y using assms(1) that by (auto simp: heap_ok_def)
  then show "ext h h1" "fresh h h1 b = Some c" "b = hpNext h"
    using assms(2) by (force simp: alloc_def ext_def heap_ok_def fresh_def map_le_def)+
qed

text \<open>Filling a cell that was allocated before the rest of the copy.\<close>

lemma store_ext:
  assumes "heap_ok h" "alloc c0 h = (b, h1)" "ext h1 h2"
  shows "ext h (store b c h2)" "fresh h1 h2 \<subseteq>\<^sub>m fresh h (store b c h2)" "fresh h (store b c h2) b = Some c"
proof -
  have b: "b = hpNext h" "hpNext h1 = Suc (hpNext h)" "hpCells h \<subseteq>\<^sub>m hpCells h1"
    using assms(1,2) by (auto simp: alloc_def heap_ok_def map_le_def)
  have "b \<notin> dom (hpCells h)" using b(1) assms(1) by (auto simp: heap_ok_def)
  moreover have "hpCells h \<subseteq>\<^sub>m hpCells h2" using b(3) assms(3) by (auto simp: ext_def intro: map_le_trans)
  ultimately have "hpCells h \<subseteq>\<^sub>m (hpCells h2)(b \<mapsto> c)" by (auto simp: map_le_def)
  moreover have "hpNext h \<le> hpNext h2" "b < hpNext h2" "dom (hpCells h2) \<subseteq> {..<hpNext h2}"
    using b(1,2) assms(3) by (simp_all add: ext_def heap_ok_def)
  ultimately show "ext h (store b c h2)" by (simp add: ext_def store_def heap_ok_def)
  show "fresh h1 h2 \<subseteq>\<^sub>m fresh h (store b c h2)" "fresh h (store b c h2) b = Some c"
    using b by (auto simp: fresh_def store_def map_le_def restrict_map_def split: if_splits)
qed

end
