(* ===== verification/Deep_Copy_Correct.thy ===== *)
theory Deep_Copy_Correct
  imports Deep_Copy
begin

section \<open>Deep copies are equal and isolated\<close>

text \<open>
  The contract of a copy function, once for all types: the copy reads as the same value out of cells
  that were allocated during the copy, and the cells of the original are untouched. The locale
  is closed under slices, pairs and fields, so the functions of \<open>zz_generated.deepcopy.go\<close> are instances
  of it by their composition.
\<close>

subsection \<open>The contract\<close>

definition readSlice ::
    "(cell \<Rightarrow> 'a list option) \<Rightarrow> ((nat \<rightharpoonup> cell) \<Rightarrow> 'a \<Rightarrow> 'v option) \<Rightarrow> (nat \<rightharpoonup> cell) \<Rightarrow> slice \<Rightarrow> 'v list option" where
  "readSlice sel rd c s = do { xs \<leftarrow> elems sel c s; those (map (rd c) xs) }"

definition readAt :: "(cell \<Rightarrow> 'a option) \<Rightarrow> ((nat \<rightharpoonup> cell) \<Rightarrow> 'a \<Rightarrow> 'v option) \<Rightarrow> (nat \<rightharpoonup> cell) \<Rightarrow> nat \<Rightarrow> 'v option" where
  "readAt sel rd c a = do { x \<leftarrow> c a; y \<leftarrow> sel x; rd c y }"

lemma map_le_get: "c a = Some x \<Longrightarrow> c \<subseteq>\<^sub>m c' \<Longrightarrow> c' a = Some x"
  by (force simp: map_le_def dom_def)

lemma elems_mono: "elems sel c s = Some xs \<Longrightarrow> c \<subseteq>\<^sub>m c' \<Longrightarrow> elems sel c' s = Some xs"
  by (auto simp: elems_def bind_eq_Some_conv split: option.splits prod.splits if_splits dest: map_le_get)

lemma elems_length: "elems sel c (Some (a, off, len)) = Some xs \<Longrightarrow> length xs = len"
  by (auto simp: elems_def bind_eq_Some_conv split: if_splits)

lemma those_Some_iff: "those xs = Some ys \<longleftrightarrow> xs = map Some ys"
  by (induction xs arbitrary: ys) (auto split: option.splits)

locale deep_copy =
  fixes rd :: "(nat \<rightharpoonup> cell) \<Rightarrow> 'a \<Rightarrow> 'v option" and copy :: "'a copier"
  assumes rd_mono: "rd c x = Some v \<Longrightarrow> c \<subseteq>\<^sub>m c' \<Longrightarrow> rd c' x = Some v"
    and copy_ok: "heap_ok h \<Longrightarrow> rd (hpCells h) x = Some v \<Longrightarrow>
      \<exists>y h'. copy x h = Some (y, h') \<and> ext h h' \<and> rd (fresh h h') y = Some v"
begin

lemma those_mono: "those (map (rd c) xs) = Some vs \<Longrightarrow> c \<subseteq>\<^sub>m c' \<Longrightarrow> those (map (rd c') xs) = Some vs"
  unfolding those_Some_iff
  by (induction xs arbitrary: vs) (auto simp: Cons_eq_map_conv intro: rd_mono)

lemma copy_later:
  assumes "ext h0 h" "rd (hpCells h0) x = Some v"
  shows "\<exists>y h'. copy x h = Some (y, h') \<and> ext h h' \<and> rd (fresh h h') y = Some v"
  using copy_ok [of h x v] rd_mono [OF assms(2), of "hpCells h"] assms(1) by (simp add: ext_def)

lemma copyEach_ok:
  assumes "heap_ok h" "those (map (rd (hpCells h)) xs) = Some vs"
  shows "\<exists>ys h'. copyEach copy xs h = Some (ys, h') \<and> length ys = length xs \<and> ext h h'
      \<and> those (map (rd (fresh h h')) ys) = Some vs"
  using assms
proof (induction xs arbitrary: h vs)
  case (Cons x xs)
  then obtain v vs' where v: "rd (hpCells h) x = Some v" "those (map (rd (hpCells h)) xs) = Some vs'" "vs = v # vs'"
    by (auto split: option.splits)
  from copy_ok [OF Cons.prems(1) v(1)] obtain y h1 where y: "copy x h = Some (y, h1)" "ext h h1" "rd (fresh h h1) y = Some v"
    by blast
  have "those (map (rd (hpCells h1)) xs) = Some vs'" using those_mono [OF v(2)] y(2) by (simp add: ext_def)
  from Cons.IH [OF ext_ok [OF y(2)] this] obtain ys h2 where ys: "copyEach copy xs h1 = Some (ys, h2)"
      "length ys = length xs" "ext h1 h2" "those (map (rd (fresh h1 h2)) ys) = Some vs'" by blast
  have ext: "ext h h2" using ext_trans [OF y(2) ys(3)] .
  have "rd (fresh h h2) y = Some v"
    using rd_mono [OF y(3)] fresh_mono [of h h h1 h2] ext_refl [OF Cons.prems(1)] ys(3) by blast
  moreover have "those (map (rd (fresh h h2)) ys) = Some vs'"
    using those_mono [OF ys(4)] fresh_mono [OF y(2) ext_refl [OF ext_ok [OF ys(3)]]] by blast
  ultimately show ?case using y(1) ys(1,2) ext v(3) by (simp add: those_Some_iff)
qed (auto simp: ext_refl)

lemma slice:
  assumes "\<And>xs. sel (arr xs) = Some xs"
  shows "deep_copy (readSlice sel rd) (copySlice sel arr zero copy)"
proof (unfold_locales, goal_cases)
  case (1 c s v c') then show ?case
    by (auto simp: readSlice_def bind_eq_Some_conv dest: elems_mono intro: those_mono)
next
  case (2 h s v)
  show ?case
  proof (cases s)
    case None then show ?thesis
      using 2 by (auto simp: readSlice_def copySlice_def elems_def ext_refl)
  next
    case (Some t)
    obtain a off len where t: "t = (a, off, len)" by (cases t) auto
    from 2(2) obtain xs where xs: "elems sel (hpCells h) s = Some xs" "those (map (rd (hpCells h)) xs) = Some v"
      by (auto simp: readSlice_def bind_eq_Some_conv)
    obtain b h1 where b: "alloc (arr (replicate len zero)) h = (b, h1)" by fastforce
    note al = alloc_ext [OF 2(1) b]
    have "those (map (rd (hpCells h1)) xs) = Some v" using those_mono [OF xs(2)] al(1) by (simp add: ext_def)
    from copyEach_ok [OF ext_ok [OF al(1)] this] obtain ys h2 where ys: "copyEach copy xs h1 = Some (ys, h2)"
      "length ys = length xs" "ext h1 h2" "those (map (rd (fresh h1 h2)) ys) = Some v" by blast
    note st = store_ext [OF 2(1) b ys(3), of "arr ys"]
    have "length ys = len" using elems_length xs(1) ys(2) Some t by metis
    then have "readSlice sel rd (fresh h (store b (arr ys) h2)) (Some (b, 0, len)) = Some v"
      using those_mono [OF ys(4) st(2)] st(3) assms by (simp add: readSlice_def elems_def)
    moreover have "copySlice sel arr zero copy s h = Some (Some (b, 0, len), store b (arr ys) h2)"
      using xs(1) b ys(1) by (simp add: copySlice_def Some t)
    ultimately show ?thesis using st(1) by blast
  qed
qed

text \<open>A field of a struct: \<open>put\<close> writes the copied field, \<open>build\<close> reads the struct given the field.\<close>

lemma field:
  assumes "\<And>x y. part (put x y) = y" "\<And>x y v. build (put x y) v = build x v"
  shows "deep_copy (\<lambda>c x. map_option (build x) (rd c (part x))) (\<lambda>x h. map_option (apfst (put x)) (copy (part x) h))"
proof (unfold_locales, goal_cases)
  case (1 c x v c') then show ?case by (auto intro: rd_mono)
next
  case (2 h x v)
  then obtain u where u: "rd (hpCells h) (part x) = Some u" "v = build x u" by auto
  from copy_ok [OF 2(1) u(1)] obtain y h' where "copy (part x) h = Some (y, h')" "ext h h'" "rd (fresh h h') y = Some u"
    by blast
  then show ?case using u(2) assms by (intro exI [of _ "put x y"] exI [of _ h']) simp
qed

text \<open>\<open>DeepCopy\<close> of a pointer to a struct.\<close>

lemma new_copy:
  assumes "\<And>x. sel (mk x) = Some x" and "heap_ok h" and "readAt sel rd (hpCells h) a = Some v"
  shows "\<exists>b h'. deepCopyNew sel mk zero copy (Some a) h = Some (Some b, h') \<and> ext h h' \<and> readAt sel rd (fresh h h') b = Some v"
proof -
  from assms(3) obtain x c where x: "hpCells h a = Some c" "sel c = Some x" "rd (hpCells h) x = Some v"
    by (auto simp: readAt_def bind_eq_Some_conv)
  obtain b h1 where b: "alloc (mk zero) h = (b, h1)" by fastforce
  from copy_later [OF alloc_ext(1) [OF assms(2) b] x(3)] obtain y h2 where
    y: "copy x h1 = Some (y, h2)" "ext h1 h2" "rd (fresh h1 h2) y = Some v" by blast
  note st = store_ext [OF assms(2) b y(2), of "mk y"]
  have "readAt sel rd (fresh h (store b (mk y) h2)) b = Some v"
    using st(3) assms(1) rd_mono [OF y(3) st(2)] by (simp add: readAt_def)
  moreover have "deepCopyNew sel mk zero copy (Some a) h = Some (Some b, store b (mk y) h2)"
    using x(1,2) b y(1) by (simp add: deepCopyNew_def)
  ultimately show ?thesis using st(1) by blast
qed

lemma readAt_mono: "readAt sel rd c a = Some v \<Longrightarrow> c \<subseteq>\<^sub>m c' \<Longrightarrow> readAt sel rd c' a = Some v"
  by (auto simp: readAt_def bind_eq_Some_conv dest: map_le_get intro: rd_mono)

text \<open>
  What happens later to the cells of the original, or to those of the copy, does not change what
  the other one reads.
\<close>

lemma new_isolated:
  assumes "\<And>x. sel (mk x) = Some x" and "heap_ok h" and "readAt sel rd (hpCells h) a = Some v"
  shows "\<exists>b h'. deepCopyNew sel mk zero copy (Some a) h = Some (Some b, h') \<and> heap_ok h'
     \<and> (\<forall>c. (\<forall>i \<ge> hpNext h. c i = hpCells h' i) \<longrightarrow> readAt sel rd c b = Some v)
     \<and> (\<forall>c. (\<forall>i < hpNext h. c i = hpCells h' i) \<longrightarrow> readAt sel rd c a = Some v)"
proof -
  from new_copy [OF assms] obtain b h' where b: "deepCopyNew sel mk zero copy (Some a) h = Some (Some b, h')"
    "ext h h'" "readAt sel rd (fresh h h') b = Some v" by blast
  have "fresh h h' \<subseteq>\<^sub>m c" if "\<forall>i \<ge> hpNext h. c i = hpCells h' i" for c
    using that by (auto simp: map_le_def fresh_def restrict_map_def)
  moreover have "hpCells h \<subseteq>\<^sub>m c" if "\<forall>i < hpNext h. c i = hpCells h' i" for c
    using that assms(2) b(2) by (force simp: map_le_def ext_def heap_ok_def)
  ultimately show ?thesis using b ext_ok [OF b(2)] readAt_mono [OF b(3)] readAt_mono [OF assms(3)] by blast
qed

end

lemma deep_copy_pair:
  assumes "deep_copy rd1 f1" "deep_copy rd2 f2"
  shows "deep_copy (\<lambda>c p. do { a \<leftarrow> rd1 c (fst p); b \<leftarrow> rd2 c (snd p); Some (a, b) })
     (\<lambda>p h. do { (y, h1) \<leftarrow> f1 (fst p) h; (z, h2) \<leftarrow> f2 (snd p) h1; Some ((y, z), h2) })"
proof (unfold_locales, goal_cases)
  case (1 c p v c') then show ?case
    by (auto simp: bind_eq_Some_conv intro: deep_copy.rd_mono [OF assms(1)] deep_copy.rd_mono [OF assms(2)])
next
  case (2 h p v)
  then obtain a b where ab: "rd1 (hpCells h) (fst p) = Some a" "rd2 (hpCells h) (snd p) = Some b" "v = (a, b)"
    by (auto simp: bind_eq_Some_conv)
  from deep_copy.copy_ok [OF assms(1) 2(1) ab(1)] obtain y h1 where
    y: "f1 (fst p) h = Some (y, h1)" "ext h h1" "rd1 (fresh h h1) y = Some a" by blast
  from deep_copy.copy_later [OF assms(2) y(2) ab(2)] obtain z h2 where
    z: "f2 (snd p) h1 = Some (z, h2)" "ext h1 h2" "rd2 (fresh h1 h2) z = Some b" by blast
  have "rd1 (fresh h h2) y = Some a"
    using deep_copy.rd_mono [OF assms(1) y(3)] fresh_mono [OF ext_refl [OF 2(1)] z(2)] by blast
  moreover have "rd2 (fresh h h2) z = Some b"
    using deep_copy.rd_mono [OF assms(2) z(3)] fresh_mono [OF y(2) ext_refl [OF ext_ok [OF z(2)]]] by blast
  ultimately show ?case using y(1) z(1) ext_trans [OF y(2) z(2)] ab(3) by auto
qed

subsection \<open>The instances\<close>

lemma pointer_copy: "deep_copy (deref sel nil) (copyPointer sel)"
proof (unfold_locales, goal_cases)
  case (1 c x v c') then show ?case
    by (auto simp: deref_def bind_eq_Some_conv split: option.splits dest: map_le_get)
next
  case (2 h p v)
  show ?case
  proof (cases p)
    case None then show ?thesis using 2 by (auto simp: deref_def copyPointer_def ext_refl)
  next
    case (Some a)
    with 2 obtain x where x: "hpCells h a = Some x" "sel x = Some v" by (auto simp: deref_def bind_eq_Some_conv)
    obtain b h1 where b: "alloc x h = (b, h1)" by fastforce
    note al = alloc_ext [OF 2(1) b]
    have "copyPointer sel p h = Some (Some b, h1)" using Some x b by (simp add: copyPointer_def)
    moreover have "deref sel nil (fresh h h1) (Some b) = Some v" using al(2) x(2) by (simp add: deref_def)
    ultimately show ?thesis using al(1) by blast
  qed
qed

lemma value_copy: "(\<And>x h. copy x h = Some (x, h)) \<Longrightarrow> deep_copy (\<lambda>c x. Some x) copy"
  by unfold_locales (auto simp: ext_refl)

interpretation condition: deep_copy "\<lambda>c x. Some x" MigrationCondition_DeepCopyInto
  by (rule value_copy) (simp add: MigrationCondition_DeepCopyInto_def)

interpretation hash: deep_copy "\<lambda>c x. Some x" "\<lambda>y h. Some (y, h)"
  by (rule value_copy) simp

lemma those_map_Some: "those (map Some xs) = Some xs"
  by (simp add: those_Some_iff)

lemma bind_map_option: "Option.bind x (\<lambda>y. Some (f y)) = map_option f x"
  by (cases x) simp_all

lemmas copy_conv = fun_eq_iff bind_map_option those_map_Some option.map_comp

interpretation objectMeta: deep_copy readMeta ObjectMeta_DeepCopyInto
proof -
  let ?build = "\<lambda>m (l, a). \<lparr>omName = xmName m, omGenerateName = xmGenerateName m, omNamespace = xmNamespace m,
                omUID = xmUID m, omResourceVersion = xmResourceVersion m, omLabels = l, omAnnotations = a\<rparr>"
  have rd: "readMeta = (\<lambda>c m. map_option (?build m)
      (do { l \<leftarrow> deref selMap [] c (fst (xmLabels m, xmAnnotations m));
            a \<leftarrow> deref selMap [] c (snd (xmLabels m, xmAnnotations m)); Some (l, a) }))"
    by (auto simp: fun_eq_iff readMeta_def split: bind_splits)
  have cp: "ObjectMeta_DeepCopyInto = (\<lambda>m h. map_option (apfst (\<lambda>(l, a). m\<lparr>xmLabels := l, xmAnnotations := a\<rparr>))
      (do { (l, h1) \<leftarrow> copyPointer selMap (fst (xmLabels m, xmAnnotations m)) h;
            (a, h2) \<leftarrow> copyPointer selMap (snd (xmLabels m, xmAnnotations m)) h1; Some ((l, a), h2) }))"
    by (auto simp: fun_eq_iff ObjectMeta_DeepCopyInto_def split: bind_splits)
  show "deep_copy readMeta ObjectMeta_DeepCopyInto"
    unfolding rd cp by (rule deep_copy.field [OF deep_copy_pair [OF pointer_copy pointer_copy]]) auto
qed

interpretation listMeta: deep_copy readListMeta ListMeta_DeepCopyInto
proof -
  let ?build = "\<lambda>m n. \<lparr>lmResourceVersion = xlResourceVersion m, lmContinue = xlContinue m, lmRemainingItemCount = n\<rparr>"
  have rd: "readListMeta = (\<lambda>c m. map_option (?build m) (deref selInt None c (xlRemainingItemCount m)))"
    by (auto simp: fun_eq_iff readListMeta_def split: bind_splits)
  have cp: "ListMeta_DeepCopyInto = (\<lambda>m h. map_option (apfst (\<lambda>n. m\<lparr>xlRemainingItemCount := n\<rparr>))
      (copyPointer selInt (xlRemainingItemCount m) h))"
    by (auto simp: fun_eq_iff ListMeta_DeepCopyInto_def split: bind_splits)
  show "deep_copy readListMeta ListMeta_DeepCopyInto"
    unfolding rd cp by (rule deep_copy.field [OF pointer_copy]) auto
qed

interpretation stateStatus: deep_copy readStateStatus StorageStateStatus_DeepCopyInto
proof -
  let ?build = "\<lambda>s hs. \<lparr>PersistedStorageVersionHashes = hs, CurrentStorageVersionHash = xsCurrent s,
                LastHeartbeatTime = xsHeartbeat s\<rparr>"
  have rd: "readStateStatus = (\<lambda>c s. map_option (?build s) (readSlice selStrings (\<lambda>c x. Some x) c (xsPersisted s)))"
    by (auto simp: fun_eq_iff readStateStatus_def readSlice_def those_map_Some split: bind_splits)
  have cp: "StorageStateStatus_DeepCopyInto = (\<lambda>x h. map_option (apfst (\<lambda>s. x\<lparr>xsPersisted := s\<rparr>))
      (copySlice selStrings Strings [] (\<lambda>y h. Some (y, h)) (xsPersisted x) h))"
    by (auto simp: fun_eq_iff StorageStateStatus_DeepCopyInto_def split: bind_splits)
  show "deep_copy readStateStatus StorageStateStatus_DeepCopyInto"
    unfolding rd cp by (rule deep_copy.field [OF hash.slice]) auto
qed

interpretation migrationStatus: deep_copy readMigrationStatus StorageVersionMigrationStatus_DeepCopyInto
proof -
  have rd: "readMigrationStatus = (\<lambda>c s. map_option (\<lambda>cs. \<lparr>smConditions = cs\<rparr>)
      (readSlice selConditions (\<lambda>c x. Some x) c (xvConditions s)))"
    by (auto simp: fun_eq_iff readMigrationStatus_def readSlice_def those_map_Some split: bind_splits)
  have cp: "StorageVersionMigrationStatus_DeepCopyInto = (\<lambda>x h. map_option (apfst (\<lambda>s. x\<lparr>xvConditions := s\<rparr>))
      (copySlice selConditions Conditions zeroCondition MigrationCondition_DeepCopyInto (xvConditions x) h))"
    by (auto simp: fun_eq_iff StorageVersionMigrationStatus_DeepCopyInto_def split: bind_splits)
  show "deep_copy readMigrationStatus StorageVersionMigrationStatus_DeepCopyInto"
    unfolding rd cp by (rule deep_copy.field [OF condition.slice]) auto
qed

interpretation state: deep_copy readState StorageState_DeepCopyInto
proof -
  let ?build = "\<lambda>x (om, st). \<lparr>ssTypeMeta = xsTypeMeta x, ssMeta = om, ssSpec = xsSpec x, ssStatus = st\<rparr>"
  have rd: "readState = (\<lambda>c x. map_option (?build x)
      (do { om \<leftarrow> readMeta c (fst (xsMeta x, xsStatus x)); st \<leftarrow> readStateStatus c (snd (xsMeta x, xsStatus x)); Some (om, st) }))"
    by (auto simp: fun_eq_iff readState_def split: bind_splits)
  have cp: "StorageState_DeepCopyInto = (\<lambda>x h. map_option (apfst (\<lambda>(om, st). x\<lparr>xsMeta := om, xsStatus := st\<rparr>))
      (do { (om, h1) \<leftarrow> ObjectMeta_DeepCopyInto (fst (xsMeta x, xsStatus x)) h;
            (st, h2) \<leftarrow> StorageStateStatus_DeepCopyInto (snd (xsMeta x, xsStatus x)) h1; Some ((om, st), h2) }))"
    by (auto simp: fun_eq_iff StorageState_DeepCopyInto_def split: bind_splits)
  show "deep_copy readState StorageState_DeepCopyInto"
    unfolding rd cp
    by (rule deep_copy.field [OF deep_copy_pair [OF objectMeta.deep_copy_axioms stateStatus.deep_copy_axioms]]) auto
qed

interpretation migration: deep_copy readMigration StorageVersionMigration_DeepCopyInto
proof -
  let ?build = "\<lambda>x (om, st). \<lparr>svmTypeMeta = xvTypeMeta x, svmMeta = om, svmSpec = xvSpec x, svmStatus = st\<rparr>"
  have rd: "readMigration = (\<lambda>c x. map_option (?build x)
      (do { om \<leftarrow> readMeta c (fst (xvMeta x, xvStatus x)); st \<leftarrow> readMigrationStatus c (snd (xvMeta x, xvStatus x)); Some (om, st) }))"
    by (auto simp: fun_eq_iff readMigration_def split: bind_splits)
  have cp: "StorageVersionMigration_DeepCopyInto = (\<lambda>x h. map_option (apfst (\<lambda>(om, st). x\<lparr>xvMeta := om, xvStatus := st\<rparr>))
      (do { (om, h1) \<leftarrow> ObjectMeta_DeepCopyInto (fst (xvMeta x, xvStatus x)) h;
            (st, h2) \<leftarrow> StorageVersionMigrationStatus_DeepCopyInto (snd (xvMeta x, xvStatus x)) h1; Some ((om, st), h2) }))"
    by (auto simp: fun_eq_iff StorageVersionMigration_DeepCopyInto_def split: bind_splits)
  show "deep_copy readMigration StorageVersionMigration_DeepCopyInto"
    unfolding rd cp
    by (rule deep_copy.field [OF deep_copy_pair [OF objectMeta.deep_copy_axioms migrationStatus.deep_copy_axioms]]) auto
qed

interpretation stateList: deep_copy readStateList StorageStateList_DeepCopyInto
proof -
  let ?build = "\<lambda>x (lm, is). \<lparr>slTypeMeta = xslTypeMeta x, slListMeta = lm, slItems = is\<rparr>"
  have rd: "readStateList = (\<lambda>c x. map_option (?build x)
      (do { lm \<leftarrow> readListMeta c (fst (xslListMeta x, xslItems x));
            is \<leftarrow> readSlice selStates readState c (snd (xslListMeta x, xslItems x)); Some (lm, is) }))"
    by (auto simp: fun_eq_iff readStateList_def readSlice_def split: bind_splits)
  have cp: "StorageStateList_DeepCopyInto = (\<lambda>x h. map_option (apfst (\<lambda>(lm, s). x\<lparr>xslListMeta := lm, xslItems := s\<rparr>))
      (do { (lm, h1) \<leftarrow> ListMeta_DeepCopyInto (fst (xslListMeta x, xslItems x)) h;
            (s, h2) \<leftarrow> copySlice selStates States zeroMState StorageState_DeepCopyInto (snd (xslListMeta x, xslItems x)) h1; Some ((lm, s), h2) }))"
    by (auto simp: fun_eq_iff StorageStateList_DeepCopyInto_def split: bind_splits)
  show "deep_copy readStateList StorageStateList_DeepCopyInto"
    unfolding rd cp by (rule deep_copy.field [OF deep_copy_pair [OF listMeta.deep_copy_axioms state.slice]]) auto
qed

interpretation migrationList: deep_copy readMigrationList StorageVersionMigrationList_DeepCopyInto
proof -
  let ?build = "\<lambda>x (lm, is). \<lparr>vlTypeMeta = xvlTypeMeta x, vlListMeta = lm, vlItems = is\<rparr>"
  have rd: "readMigrationList = (\<lambda>c x. map_option (?build x)
      (do { lm \<leftarrow> readListMeta c (fst (xvlListMeta x, xvlItems x));
            is \<leftarrow> readSlice selMigrations readMigration c (snd (xvlListMeta x, xvlItems x)); Some (lm, is) }))"
    by (auto simp: fun_eq_iff readMigrationList_def readSlice_def split: bind_splits)
  have cp: "StorageVersionMigrationList_DeepCopyInto = (\<lambda>x h. map_option (apfst (\<lambda>(lm, s). x\<lparr>xvlListMeta := lm, xvlItems := s\<rparr>))
      (do { (lm, h1) \<leftarrow> ListMeta_DeepCopyInto (fst (xvlListMeta x, xvlItems x)) h;
            (s, h2) \<leftarrow> copySlice selMigrations Migrations zeroMMigration StorageVersionMigration_DeepCopyInto (snd (xvlListMeta x, xvlItems x)) h1; Some ((lm, s), h2) }))"
    by (auto simp: fun_eq_iff StorageVersionMigrationList_DeepCopyInto_def split: bind_splits)
  show "deep_copy readMigrationList StorageVersionMigrationList_DeepCopyInto"
    unfolding rd cp by (rule deep_copy.field [OF deep_copy_pair [OF listMeta.deep_copy_axioms migration.slice]]) auto
qed

subsection \<open>The properties\<close>

definition migrationListAt :: "(nat \<rightharpoonup> cell) \<Rightarrow> nat \<Rightarrow> StorageVersionMigrationList option" where
  "migrationListAt = readAt selNewMigrationList readMigrationList"

definition stateAt :: "(nat \<rightharpoonup> cell) \<Rightarrow> nat \<Rightarrow> StorageState option" where
  "stateAt = readAt selNewState readState"

text \<open>
  C37. \<open>DeepCopy\<close> of a list of migrations returns, and its result is equal and isolated: it reads as the same
  list, with the same items and conditions; whatever is written later to memory that was in
  use before the copy does not change the copy, and whatever is written to memory allocated by the copy
  does not change the original. The copy of nil is nil.
\<close>

theorem migrationList_DeepCopy_isolated:
  assumes "heap_ok h" and "migrationListAt (hpCells h) a = Some l"
  shows "\<exists>b h'. StorageVersionMigrationList_DeepCopy (Some a) h = Some (Some b, h') \<and> heap_ok h'
     \<and> (\<forall>c. (\<forall>i \<ge> hpNext h. c i = hpCells h' i) \<longrightarrow> migrationListAt c b = Some l)
     \<and> (\<forall>c. (\<forall>i < hpNext h. c i = hpCells h' i) \<longrightarrow> migrationListAt c a = Some l)
     \<and> StorageVersionMigrationList_DeepCopy None h = Some (None, h)"
  using migrationList.new_isolated [OF _ assms(1), of selNewMigrationList NewMigrationList a l] assms(2)
  by (simp add: migrationListAt_def StorageVersionMigrationList_DeepCopy_def) (simp add: deepCopyNew_def)

text \<open>
  C38. \<open>DeepCopyObject\<close> of a StorageState is equal and isolated: the copy keeps the persisted hashes, labels and
  annotations when the original's arrays and maps are overwritten, and the original keeps its own when the
  copy's are; a nil state gives a nil object.
\<close>

theorem state_DeepCopyObject_isolated:
  assumes "heap_ok h" and "stateAt (hpCells h) a = Some s"
  shows "\<exists>b h'. StorageState_DeepCopyObject (Some a) h = Some (Some b, h') \<and> heap_ok h'
     \<and> (\<forall>c. (\<forall>i \<ge> hpNext h. c i = hpCells h' i) \<longrightarrow> stateAt c b = Some s)
     \<and> (\<forall>c. (\<forall>i < hpNext h. c i = hpCells h' i) \<longrightarrow> stateAt c a = Some s)
     \<and> StorageState_DeepCopyObject None h = Some (None, h)"
proof -
  from state.new_isolated [OF _ assms(1), of selNewState NewState a s zeroMState] assms(2) obtain b h' where
    b: "StorageState_DeepCopy (Some a) h = Some (Some b, h')" "heap_ok h'"
      "\<forall>c. (\<forall>i \<ge> hpNext h. c i = hpCells h' i) \<longrightarrow> stateAt c b = Some s"
      "\<forall>c. (\<forall>i < hpNext h. c i = hpCells h' i) \<longrightarrow> stateAt c a = Some s"
    by (auto simp: stateAt_def StorageState_DeepCopy_def)
  then have "StorageState_DeepCopyObject (Some a) h = Some (Some b, h')"
    "StorageState_DeepCopyObject None h = Some (None, h)"
    by (simp_all add: StorageState_DeepCopyObject_def asObject_def StorageState_DeepCopy_def deepCopyNew_def)
  with b(2-4) show ?thesis by blast
qed

text \<open>Two states that share a backing array of hashes, and a list whose item has conditions and labels.\<close>

definition exampleHeap :: heap where
  "exampleHeap = \<lparr>hpNext = 7, hpCells =
     [0 \<mapsto> Strings [''h1'', ''h2'', ''h3''], 1 \<mapsto> StringMap [(''k'', ''v'')],
      2 \<mapsto> NewState (zeroMState\<lparr>xsMeta := zeroMMeta\<lparr>xmLabels := Some 1\<rparr>,
              xsStatus := \<lparr>xsPersisted = Some (0, 1, 2), xsCurrent = ''h3'', xsHeartbeat = 5\<rparr>\<rparr>),
      3 \<mapsto> Conditions [zeroCondition\<lparr>mcType := MigrationRunning\<rparr>],
      4 \<mapsto> Migrations [zeroMMigration\<lparr>xvStatus := \<lparr>xvConditions = Some (3, 0, 1)\<rparr>\<rparr>, zeroMMigration],
      5 \<mapsto> Int64 8,
      6 \<mapsto> NewMigrationList \<lparr>xvlTypeMeta = zeroTypeMeta, xvlListMeta = zeroMListMeta\<lparr>xlRemainingItemCount := Some 5\<rparr>,
             xvlItems = Some (4, 0, 2)\<rparr>]\<rparr>"

lemma exampleHeap_ok: "heap_ok exampleHeap"
  by (simp add: heap_ok_def exampleHeap_def)

theorem migrationList_DeepCopy_isolated_witness:
  "\<exists>l b h'. length (vlItems l) = 2 \<and> migrationListAt (hpCells exampleHeap) 6 = Some l
     \<and> StorageVersionMigrationList_DeepCopy (Some 6) exampleHeap = Some (Some b, h')
     \<and> migrationListAt (hpCells h') b = Some l
     \<and> migrationListAt ((hpCells h')(3 \<mapsto> Conditions [])) b = Some l"
proof -
  have "map_option (\<lambda>l. length (vlItems l)) (migrationListAt (hpCells exampleHeap) 6) = Some 2" by code_simp
  then obtain l where l: "length (vlItems l) = 2" "migrationListAt (hpCells exampleHeap) 6 = Some l" by auto
  from migrationList_DeepCopy_isolated [OF exampleHeap_ok l(2)] obtain b h' where
    "StorageVersionMigrationList_DeepCopy (Some 6) exampleHeap = Some (Some b, h')"
    "\<forall>c. (\<forall>i \<ge> hpNext exampleHeap. c i = hpCells h' i) \<longrightarrow> migrationListAt c b = Some l" by blast
  moreover have "hpNext exampleHeap = 7" by (simp add: exampleHeap_def)
  ultimately show ?thesis using l by (intro exI [of _ l] exI [of _ b] exI [of _ h']) simp
qed

theorem state_DeepCopyObject_isolated_witness:
  "\<exists>s b h'. PersistedStorageVersionHashes (ssStatus s) = [''h2'', ''h3'']
     \<and> StorageState_DeepCopyObject (Some 2) exampleHeap = Some (Some b, h')
     \<and> stateAt ((hpCells h')(0 \<mapsto> Strings [''x'', ''y'', ''z''])) b = Some s"
proof -
  have "map_option (\<lambda>s. PersistedStorageVersionHashes (ssStatus s)) (stateAt (hpCells exampleHeap) 2) = Some [''h2'', ''h3'']"
    by code_simp
  then obtain s where s: "PersistedStorageVersionHashes (ssStatus s) = [''h2'', ''h3'']" "stateAt (hpCells exampleHeap) 2 = Some s"
    by auto
  from state_DeepCopyObject_isolated [OF exampleHeap_ok s(2)] obtain b h' where
    "StorageState_DeepCopyObject (Some 2) exampleHeap = Some (Some b, h')"
    "\<forall>c. (\<forall>i \<ge> hpNext exampleHeap. c i = hpCells h' i) \<longrightarrow> stateAt c b = Some s" by blast
  moreover have "hpNext exampleHeap = 7" by (simp add: exampleHeap_def)
  ultimately show ?thesis using s by (intro exI [of _ s] exI [of _ b] exI [of _ h']) simp
qed

end
