(* ===== verification/Informer_Factory.thy ===== *)
theory Informer_Factory
  imports Informer
begin

section \<open>The shared informer factory\<close>

text \<open>
  \<open>pkg/clients/informer/factory.go\<close>, \<open>generic.go\<close> and the accessors under \<open>informer/migration\<close>. The factory hands
  out one informer per type and runs each in a goroutine of its own. Informers are pointers:
  \<open>iwInformers\<close> holds the allocated ones and an informer is its position. Every method of the factory
  holds its lock, so a method is one step; goroutines end in steps of their own, once the stop channel they
  were started with is closed. \<open>iwRuns\<close> records the informers whose \<open>Run\<close> has been called.
\<close>

subsection \<open>The factory\<close>

record 'w sharedInformerFactory =
  sfClient :: "'w ClientsetInterface"
  sfNamespace :: string
  sfTweakListOptions :: "TweakListOptionsFunc option"
  sfDefaultResync :: Duration
  sfCustomResync :: "string \<rightharpoonup> Duration"
  sfInformers :: "string \<rightharpoonup> nat"
  sfStartedInformers :: "string \<rightharpoonup> bool"
  sfWg :: nat
  sfShuttingDown :: bool

record 'w informerWorld =
  iwFactory :: "'w sharedInformerFactory"
  iwInformers :: "'w SharedIndexInformer list"
  iwRunning :: "(nat \<times> nat) list" \<comment> \<open>goroutines: the informer and the stop channel\<close>
  iwClosed :: "nat set" \<comment> \<open>closed stop channels\<close>
  iwRuns :: "nat list"

type_synonym 'w SharedInformerOption = "'w sharedInformerFactory \<Rightarrow> 'w sharedInformerFactory"
type_synonym 'w NewInformerFunc = "'w ClientsetInterface \<Rightarrow> Duration \<Rightarrow> 'w SharedIndexInformer"

text \<open>The configuration maps objects to periods; the factory keys them by the type of the object.\<close>

definition WithCustomResyncConfig :: "(goObject \<times> Duration) list \<Rightarrow> 'w SharedInformerOption" where
  "WithCustomResyncConfig resyncConfig factory =
     factory\<lparr>sfCustomResync := fold (\<lambda>(k, v) m. m(goTypeName k \<mapsto> v)) resyncConfig (sfCustomResync factory)\<rparr>"

definition WithTweakListOptions :: "TweakListOptionsFunc option \<Rightarrow> 'w SharedInformerOption" where
  "WithTweakListOptions tweakListOptions factory = factory\<lparr>sfTweakListOptions := tweakListOptions\<rparr>"

definition WithNamespace :: "string \<Rightarrow> 'w SharedInformerOption" where
  "WithNamespace namespace factory = factory\<lparr>sfNamespace := namespace\<rparr>"

definition NewSharedInformerFactoryWithOptions ::
    "'w ClientsetInterface \<Rightarrow> Duration \<Rightarrow> 'w SharedInformerOption list \<Rightarrow> 'w sharedInformerFactory" where
  "NewSharedInformerFactoryWithOptions client defaultResync options =
     fold (\<lambda>opt factory. opt factory) options
       \<lparr>sfClient = client, sfNamespace = [], sfTweakListOptions = None, sfDefaultResync = defaultResync,
        sfCustomResync = Map.empty, sfInformers = Map.empty, sfStartedInformers = Map.empty, sfWg = 0,
        sfShuttingDown = False\<rparr>"

definition NewSharedInformerFactory :: "'w ClientsetInterface \<Rightarrow> Duration \<Rightarrow> 'w sharedInformerFactory" where
  "NewSharedInformerFactory client defaultResync = NewSharedInformerFactoryWithOptions client defaultResync []"

definition NewFilteredSharedInformerFactory ::
    "'w ClientsetInterface \<Rightarrow> Duration \<Rightarrow> string \<Rightarrow> TweakListOptionsFunc option \<Rightarrow> 'w sharedInformerFactory" where
  "NewFilteredSharedInformerFactory client defaultResync namespace tweakListOptions =
     NewSharedInformerFactoryWithOptions client defaultResync [WithNamespace namespace, WithTweakListOptions tweakListOptions]"

text \<open>\<open>Start\<close>: one goroutine for each informer that has none yet.\<close>

definition startOne :: "nat \<Rightarrow> string \<Rightarrow> 'w informerWorld \<Rightarrow> 'w informerWorld" where
  "startOne stopCh informerType iw =
     (let f = iwFactory iw in
      case sfInformers f informerType of
        None \<Rightarrow> iw
      | Some informer \<Rightarrow>
          if sfStartedInformers f informerType = Some True then iw
          else iw\<lparr>iwFactory := f\<lparr>sfWg := sfWg f + 1,
                                sfStartedInformers := (sfStartedInformers f)(informerType \<mapsto> True)\<rparr>,
                  iwRunning := iwRunning iw @ [(informer, stopCh)], iwRuns := iwRuns iw @ [informer]\<rparr>)"

definition Start :: "(string set \<Rightarrow> string list) \<Rightarrow> nat \<Rightarrow> 'w informerWorld \<Rightarrow> 'w informerWorld" where
  "Start ord stopCh iw =
     (if sfShuttingDown (iwFactory iw) then iw
      else fold (startOne stopCh) (ord (dom (sfInformers (iwFactory iw)))) iw)"

text \<open>The end of a goroutine: \<open>informer.Run\<close> returns once its stop channel is closed, then \<open>wg.Done\<close>.\<close>

definition goroutineDone :: "nat \<times> nat \<Rightarrow> 'w informerWorld \<Rightarrow> 'w informerWorld" where
  "goroutineDone g iw =
     iw\<lparr>iwRunning := remove1 g (iwRunning iw), iwFactory := (iwFactory iw)\<lparr>sfWg := sfWg (iwFactory iw) - 1\<rparr>\<rparr>"

text \<open>\<open>Shutdown\<close> sets the flag, then waits; it returns in a state where the wait group is at zero.\<close>

definition ShutdownBegin :: "'w informerWorld \<Rightarrow> 'w informerWorld" where
  "ShutdownBegin iw = iw\<lparr>iwFactory := (iwFactory iw)\<lparr>sfShuttingDown := True\<rparr>\<rparr>"

definition ShutdownReturns :: "'w informerWorld \<Rightarrow> bool" where
  "ShutdownReturns iw \<longleftrightarrow> sfShuttingDown (iwFactory iw) \<and> sfWg (iwFactory iw) = 0"

text \<open>
  \<open>WaitForCacheSync\<close>: for each started informer whether it synced before the stop channel was closed, which
  \<open>cache.WaitForCacheSync\<close> finds out (\<open>waitSync\<close>).
\<close>

definition WaitForCacheSync :: "(nat \<Rightarrow> bool) \<Rightarrow> 'w informerWorld \<Rightarrow> string \<rightharpoonup> bool" where
  "WaitForCacheSync waitSync iw =
     (let f = iwFactory iw;
          informers = (\<lambda>t. if sfStartedInformers f t = Some True then sfInformers f t else None)
      in (\<lambda>t. map_option waitSync (informers t)))"

definition InformerFor :: "string \<Rightarrow> 'w NewInformerFunc \<Rightarrow> 'w informerWorld \<Rightarrow> nat \<times> 'w informerWorld" where
  "InformerFor informerType newFunc iw =
     (let f = iwFactory iw in
      case sfInformers f informerType of
        Some informer \<Rightarrow> (informer, iw)
      | None \<Rightarrow>
          (let resyncPeriod = (case sfCustomResync f informerType of Some d \<Rightarrow> d | None \<Rightarrow> sfDefaultResync f);
               informer = length (iwInformers iw)
           in (informer,
               iw\<lparr>iwInformers := iwInformers iw @ [newFunc (sfClient f) resyncPeriod],
                  iwFactory := f\<lparr>sfInformers := (sfInformers f)(informerType \<mapsto> informer)\<rparr>\<rparr>)))"

subsection \<open>The accessors of the group\<close>

text \<open>
  \<open>migration.New\<close> and \<open>v1alpha1.New\<close> keep a pointer to the factory, which is the state here, with the namespace
  and the list options.
\<close>

record group =
  gpNamespace :: string
  gpTweakListOptions :: "TweakListOptionsFunc option"

record version =
  vsNamespace :: string
  vsTweakListOptions :: "TweakListOptionsFunc option"

record storageStateInformer =
  stTweakListOptions :: "TweakListOptionsFunc option"

record storageVersionMigrationInformer =
  svTweakListOptions :: "TweakListOptionsFunc option"

definition Migration :: "'w sharedInformerFactory \<Rightarrow> group" where
  "Migration f = \<lparr>gpNamespace = sfNamespace f, gpTweakListOptions = sfTweakListOptions f\<rparr>"

definition V1alpha1 :: "group \<Rightarrow> version" where
  "V1alpha1 g = \<lparr>vsNamespace = gpNamespace g, vsTweakListOptions = gpTweakListOptions g\<rparr>"

definition version_StorageStates :: "version \<Rightarrow> storageStateInformer" where
  "version_StorageStates v = \<lparr>stTweakListOptions = vsTweakListOptions v\<rparr>"

definition version_StorageVersionMigrations :: "version \<Rightarrow> storageVersionMigrationInformer" where
  "version_StorageVersionMigrations v = \<lparr>svTweakListOptions = vsTweakListOptions v\<rparr>"

definition storageStateInformer_defaultInformer :: "storageStateInformer \<Rightarrow> 'w NewInformerFunc" where
  "storageStateInformer_defaultInformer f client resyncPeriod =
     NewFilteredStorageStateInformer client resyncPeriod [(NamespaceIndex, MetaNamespaceIndexFunc)] (stTweakListOptions f)"

definition storageStateInformer_Informer :: "storageStateInformer \<Rightarrow> 'w informerWorld \<Rightarrow> nat \<times> 'w informerWorld" where
  "storageStateInformer_Informer f iw =
     InformerFor ''*v1alpha1.StorageState'' (storageStateInformer_defaultInformer f) iw"

text \<open>A lister reads the indexer of its informer, given by the position of the informer.\<close>

definition storageStateInformer_Lister :: "storageStateInformer \<Rightarrow> 'w informerWorld \<Rightarrow> nat \<times> 'w informerWorld" where
  "storageStateInformer_Lister f iw = storageStateInformer_Informer f iw"

definition storageVersionMigrationInformer_defaultInformer :: "storageVersionMigrationInformer \<Rightarrow> 'w NewInformerFunc" where
  "storageVersionMigrationInformer_defaultInformer f client resyncPeriod =
     NewFilteredStorageVersionMigrationInformer client resyncPeriod [(NamespaceIndex, MetaNamespaceIndexFunc)] (svTweakListOptions f)"

definition storageVersionMigrationInformer_Informer ::
    "storageVersionMigrationInformer \<Rightarrow> 'w informerWorld \<Rightarrow> nat \<times> 'w informerWorld" where
  "storageVersionMigrationInformer_Informer f iw =
     InformerFor ''*v1alpha1.StorageVersionMigration'' (storageVersionMigrationInformer_defaultInformer f) iw"

definition storageVersionMigrationInformer_Lister ::
    "storageVersionMigrationInformer \<Rightarrow> 'w informerWorld \<Rightarrow> nat \<times> 'w informerWorld" where
  "storageVersionMigrationInformer_Lister f iw = storageVersionMigrationInformer_Informer f iw"

subsection \<open>generic.go\<close>

record genericInformer =
  giInformer :: nat
  giResource :: SchemaGroupResource

definition ForResource :: "SchemaGVR \<Rightarrow> 'w informerWorld \<Rightarrow> (genericInformer, error) result \<times> 'w informerWorld" where
  "ForResource gvr iw =
     (let v = V1alpha1 (Migration (iwFactory iw)) in
      if gvr = WithResource SchemeGroupVersion ''storagestates'' then
        apfst (\<lambda>i. Inr \<lparr>giInformer = i, giResource = gvr_GroupResource gvr\<rparr>)
          (storageStateInformer_Informer (version_StorageStates v) iw)
      else if gvr = WithResource SchemeGroupVersion ''storageversionmigrations'' then
        apfst (\<lambda>i. Inr \<lparr>giInformer = i, giResource = gvr_GroupResource gvr\<rparr>)
          (storageVersionMigrationInformer_Informer (version_StorageVersionMigrations v) iw)
      else (Inl (ErrorString (''no informer found for '' @ SchemaGVR_String gvr)), iw))"

definition genericInformer_Informer :: "genericInformer \<Rightarrow> nat" where
  "genericInformer_Informer f = giInformer f"

text \<open>The generic lister: the indexer of the informer, and the resource that its errors name.\<close>

definition genericInformer_Lister :: "genericInformer \<Rightarrow> nat \<times> SchemaGroupResource" where
  "genericInformer_Lister f = (genericInformer_Informer f, giResource f)"

subsection \<open>Runs of the factory\<close>

inductive factoryStep :: "'w informerWorld \<Rightarrow> 'w informerWorld \<Rightarrow> bool" where
  request: "InformerFor informerType newFunc iw = (informer, iw') \<Longrightarrow> factoryStep iw iw'"
| start: "enumerates ord \<Longrightarrow> factoryStep iw (Start ord stopCh iw)"
| close: "factoryStep iw (iw\<lparr>iwClosed := insert stopCh (iwClosed iw)\<rparr>)"
| finish: "g \<in> set (iwRunning iw) \<Longrightarrow> snd g \<in> iwClosed iw \<Longrightarrow> factoryStep iw (goroutineDone g iw)"
| shutdown: "factoryStep iw (ShutdownBegin iw)"

abbreviation factorySteps :: "'w informerWorld \<Rightarrow> 'w informerWorld \<Rightarrow> bool" where
  "factorySteps \<equiv> factoryStep\<^sup>*\<^sup>*"

definition factoryWorld :: "'w sharedInformerFactory \<Rightarrow> 'w informerWorld" where
  "factoryWorld f = \<lparr>iwFactory = f, iwInformers = [], iwRunning = [], iwClosed = {}, iwRuns = []\<rparr>"

text \<open>The options of the package do not touch the state of the informers.\<close>

inductive packageOption :: "'w SharedInformerOption \<Rightarrow> bool" where
  "packageOption (WithCustomResyncConfig resyncConfig)"
| "packageOption (WithTweakListOptions tweakListOptions)"
| "packageOption (WithNamespace namespace)"

subsection \<open>The invariant\<close>

text \<open>
  Informers of different types are different; the informers that were run are those of the started types,
  each run once; the wait group counts the goroutines.
\<close>

definition startedInformers :: "'w sharedInformerFactory \<Rightarrow> nat set" where
  "startedInformers f = {a. \<exists>t. sfInformers f t = Some a \<and> sfStartedInformers f t = Some True}"

definition factory_inv :: "'w informerWorld \<Rightarrow> bool" where
  "factory_inv iw \<longleftrightarrow>
     (let f = iwFactory iw in
      inj_on (sfInformers f) (dom (sfInformers f)) \<and>
      (\<forall>t a. sfInformers f t = Some a \<longrightarrow> a < length (iwInformers iw)) \<and>
      (\<forall>t. sfStartedInformers f t = Some True \<longrightarrow> sfInformers f t \<noteq> None) \<and> distinct (iwRuns iw) \<and>
      set (iwRuns iw) = startedInformers f \<and>
      sfWg f = length (iwRunning iw) \<and> fst ` set (iwRunning iw) \<subseteq> startedInformers f)"

lemmas factory_invD = factory_inv_def [THEN iffD1, unfolded Let_def]

lemma inv_InformerFor:
  assumes "factory_inv iw" "InformerFor t nf iw = (a, iw')"
  shows "factory_inv iw'" "sfInformers (iwFactory iw) \<subseteq>\<^sub>m sfInformers (iwFactory iw')"
    "sfInformers (iwFactory iw') t = Some a"
proof -
  have *: "factory_inv iw' \<and> sfInformers (iwFactory iw) \<subseteq>\<^sub>m sfInformers (iwFactory iw') \<and> sfInformers (iwFactory iw') t = Some a"
  proof (cases "sfInformers (iwFactory iw) t")
    case None
    let ?n = "length (iwInformers iw)"
    let ?m = "sfInformers (iwFactory iw)"
    let ?f = "(iwFactory iw)\<lparr>sfInformers := ?m(t \<mapsto> ?n)\<rparr>"
    note inv = factory_invD [OF assms(1)]
    have small: "?m u = Some b \<Longrightarrow> b < ?n" for u b using inv by blast
    have inj: "inj_on (?m(t \<mapsto> ?n)) (dom (?m(t \<mapsto> ?n)))"
      using inv small None by (fastforce simp: inj_on_def dom_def split: if_splits)
    have "sfStartedInformers (iwFactory iw) t \<noteq> Some True" using inv None by auto
    then have started: "startedInformers ?f = startedInformers (iwFactory iw)"
      unfolding startedInformers_def using None by (intro Collect_cong ex_cong1) auto
    have small': "\<forall>u b. (?m(t \<mapsto> ?n)) u = Some b \<longrightarrow> b < Suc ?n"
      using small by (auto simp: less_Suc_eq split: if_splits)
    have iw': "iwFactory iw' = ?f" "length (iwInformers iw') = Suc ?n" "iwRuns iw' = iwRuns iw"
        "iwRunning iw' = iwRunning iw" "a = ?n"
      using assms(2) None by (auto simp: InformerFor_def Let_def)
    have "factory_inv iw'"
      unfolding factory_inv_def Let_def iw' started using inv inj small' by simp
    then show ?thesis using None iw' by (auto simp: map_le_def)
  qed (use assms in \<open>auto simp: InformerFor_def Let_def\<close>)
  then show "factory_inv iw'" "sfInformers (iwFactory iw) \<subseteq>\<^sub>m sfInformers (iwFactory iw')"
    "sfInformers (iwFactory iw') t = Some a" by blast+
qed

lemma inv_startOne:
  assumes "factory_inv iw"
  shows "factory_inv (startOne stopCh t iw)"
proof (cases "sfInformers (iwFactory iw) t = None \<or> sfStartedInformers (iwFactory iw) t = Some True")
  case True
  then have "startOne stopCh t iw = iw" by (auto simp: startOne_def Let_def split: option.splits)
  then show ?thesis using assms by simp
next
  case False
  then obtain a where a: "sfInformers (iwFactory iw) t = Some a" "sfStartedInformers (iwFactory iw) t \<noteq> Some True" by auto
  note inv = factory_invD [OF assms]
  let ?f = "(iwFactory iw)\<lparr>sfWg := sfWg (iwFactory iw) + 1,
              sfStartedInformers := (sfStartedInformers (iwFactory iw))(t \<mapsto> True)\<rparr>"
  have "u = t" if "sfInformers (iwFactory iw) u = Some a" for u
    using inv a(1) that inj_onD [of "sfInformers (iwFactory iw)" _ u t] by auto
  then have "a \<notin> startedInformers (iwFactory iw)" using a(2) by (auto simp: startedInformers_def)
  moreover have "startedInformers ?f = insert a (startedInformers (iwFactory iw))"
    using a by (auto simp: startedInformers_def)
  ultimately show ?thesis using inv a by (auto simp: factory_inv_def startOne_def Let_def)
qed

lemma startOne_informers [simp]:
  "sfInformers (iwFactory (startOne stopCh t iw)) = sfInformers (iwFactory iw)"
  "sfShuttingDown (iwFactory (startOne stopCh t iw)) = sfShuttingDown (iwFactory iw)"
  by (simp_all add: startOne_def Let_def split: option.splits)

lemma fold_startOne:
  "factory_inv iw \<Longrightarrow> factory_inv (fold (startOne stopCh) ts iw)"
  "sfInformers (iwFactory (fold (startOne stopCh) ts iw)) = sfInformers (iwFactory iw)"
  "sfShuttingDown (iwFactory (fold (startOne stopCh) ts iw)) = sfShuttingDown (iwFactory iw)"
  by (induction ts arbitrary: iw) (simp_all add: inv_startOne)

lemma inv_done:
  assumes "factory_inv iw" "g \<in> set (iwRunning iw)"
  shows "factory_inv (goroutineDone g iw)"
proof -
  note inv = factory_invD [OF assms(1)]
  have "fst ` set (remove1 g (iwRunning iw)) \<subseteq> fst ` set (iwRunning iw)" by (intro image_mono set_remove1_subset)
  also have "\<dots> \<subseteq> startedInformers (iwFactory iw)" using inv by blast
  finally have "fst ` set (remove1 g (iwRunning iw)) \<subseteq> startedInformers (iwFactory iw)" .
  then show ?thesis using inv assms(2)
    by (simp add: factory_inv_def goroutineDone_def Let_def length_remove1 startedInformers_def)
qed

lemma inv_step:
  assumes "factoryStep iw iw'" "factory_inv iw"
  shows "factory_inv iw' \<and> sfInformers (iwFactory iw) \<subseteq>\<^sub>m sfInformers (iwFactory iw')
    \<and> (sfShuttingDown (iwFactory iw) \<longrightarrow> sfShuttingDown (iwFactory iw') \<and> iwRuns iw' = iwRuns iw
         \<and> set (iwRunning iw') \<subseteq> set (iwRunning iw))"
  using assms
proof (cases rule: factoryStep.cases)
  case (request t nf a)
  moreover have "iwRuns iw' = iwRuns iw \<and> iwRunning iw' = iwRunning iw
      \<and> sfShuttingDown (iwFactory iw') = sfShuttingDown (iwFactory iw)"
    using request by (auto simp: InformerFor_def Let_def split: option.splits)
  ultimately show ?thesis using inv_InformerFor [OF assms(2)] by auto
next
  case (start ord stopCh)
  then show ?thesis using assms(2) by (auto simp: Start_def fold_startOne)
next
  case (finish g)
  then show ?thesis
    using inv_done [OF assms(2)] set_remove1_subset [of g "iwRunning iw"] by (simp add: goroutineDone_def)
qed (auto simp: factory_inv_def Let_def ShutdownBegin_def startedInformers_def)

lemma inv_steps:
  assumes "factorySteps iw iw'" "factory_inv iw"
  shows "factory_inv iw' \<and> sfInformers (iwFactory iw) \<subseteq>\<^sub>m sfInformers (iwFactory iw')
    \<and> (sfShuttingDown (iwFactory iw) \<longrightarrow> sfShuttingDown (iwFactory iw') \<and> iwRuns iw' = iwRuns iw
         \<and> set (iwRunning iw') \<subseteq> set (iwRunning iw))"
  using assms
proof (induction rule: rtranclp_induct)
  case (step y z)
  then show ?case using inv_step [OF step(2)] by (auto intro: map_le_trans)
qed simp

lemma packageOption_state:
  "packageOption opt \<Longrightarrow> sfInformers (opt f) = sfInformers f \<and> sfStartedInformers (opt f) = sfStartedInformers f
     \<and> sfWg (opt f) = sfWg f \<and> sfShuttingDown (opt f) = sfShuttingDown f"
  by (induction rule: packageOption.induct)
    (simp_all add: WithCustomResyncConfig_def WithTweakListOptions_def WithNamespace_def)

lemma packageOptions_state:
  "list_all packageOption opts \<Longrightarrow> sfInformers (fold (\<lambda>opt f. opt f) opts f) = sfInformers f
     \<and> sfStartedInformers (fold (\<lambda>opt f. opt f) opts f) = sfStartedInformers f
     \<and> sfWg (fold (\<lambda>opt f. opt f) opts f) = sfWg f \<and> sfShuttingDown (fold (\<lambda>opt f. opt f) opts f) = sfShuttingDown f"
  by (induction opts arbitrary: f) (auto dest: packageOption_state)

lemma inv_new:
  "list_all packageOption opts \<Longrightarrow> factory_inv (factoryWorld (NewSharedInformerFactoryWithOptions client resync opts))"
  by (auto simp: factory_inv_def factoryWorld_def NewSharedInformerFactoryWithOptions_def Let_def
      packageOptions_state startedInformers_def)

subsection \<open>The properties\<close>

text \<open>
  C39. The factory shares informers and runs each of them once. In every run of requests, starts, closed channels,
  ending goroutines and shutdowns, in any order: an informer that was handed out for a type is the one
  that is handed out ever after; no informer is run twice; after \<open>Shutdown\<close> was called none is run any more;
  and \<open>Shutdown\<close> returns only when all goroutines have ended, and no goroutine ever runs after that.
\<close>

theorem factory_shares_and_starts_once:
  assumes "list_all packageOption opts"
    and "factorySteps (factoryWorld (NewSharedInformerFactoryWithOptions client resync opts)) iw"
    and "factorySteps iw iw'"
  shows "distinct (iwRuns iw)
    \<and> (InformerFor t nf iw = (a, iw1) \<longrightarrow> factorySteps iw1 iw2 \<longrightarrow> fst (InformerFor t nf2 iw2) = a)
    \<and> (sfShuttingDown (iwFactory iw) \<longrightarrow> iwRuns iw' = iwRuns iw)
    \<and> (ShutdownReturns iw \<longrightarrow> iwRunning iw' = [])"
proof -
  from inv_steps [OF assms(2) inv_new [OF assms(1)]] have inv: "factory_inv iw" by blast
  have "fst (InformerFor t nf2 iw2) = a" if "InformerFor t nf iw = (a, iw1)" "factorySteps iw1 iw2"
  proof -
    note i1 = inv_InformerFor [OF inv that(1)]
    have "sfInformers (iwFactory iw1) \<subseteq>\<^sub>m sfInformers (iwFactory iw2)" using inv_steps [OF that(2) i1(1)] by blast
    with i1(3) have "sfInformers (iwFactory iw2) t = Some a" by (metis domI map_le_def)
    then show ?thesis by (simp add: InformerFor_def)
  qed
  moreover have "iwRunning iw' = []" if "ShutdownReturns iw"
    using that inv inv_steps [OF assms(3) inv] by (auto simp: ShutdownReturns_def factory_inv_def Let_def)
  ultimately show ?thesis using inv inv_steps [OF assms(3) inv] by (auto simp: factory_inv_def Let_def)
qed

text \<open>A run: both informers requested, started twice, and shut down.\<close>

definition exampleFactoryClient :: "unit ClientsetInterface" where
  "exampleFactoryClient = \<lparr>
     ciStatesList = (\<lambda>opts w. (Inl noMeta, w)), ciStatesWatch = (\<lambda>opts w. (Inr 0, w)),
     ciMigrationsList = (\<lambda>opts w. (Inl noMeta, w)), ciMigrationsWatch = (\<lambda>opts w. (Inr 0, w))\<rparr>"

definition exampleFactory :: "unit informerWorld" where
  "exampleFactory = factoryWorld (NewSharedInformerFactoryWithOptions exampleFactoryClient minute
     [WithCustomResyncConfig [(GoState zeroStorageState, second)], WithNamespace ''ns''])"

definition requestedFactory :: "unit informerWorld" where
  "requestedFactory = snd (ForResource (WithResource SchemeGroupVersion ''storageversionmigrations'')
     (snd (ForResource (WithResource SchemeGroupVersion ''storagestates'') exampleFactory)))"

definition startedFactory :: "unit informerWorld" where
  "startedFactory = ShutdownBegin (Start sorted_list_of_set 1 (Start sorted_list_of_set 0 requestedFactory))"

lemma InformerFor_step: "factoryStep iw (snd (InformerFor t nf iw))"
  by (rule factoryStep.request [of t nf iw "fst (InformerFor t nf iw)"]) simp

lemma ForResource_step: "factorySteps iw (snd (ForResource gvr iw))"
  using InformerFor_step
  by (auto simp: ForResource_def Let_def storageStateInformer_Informer_def storageVersionMigrationInformer_Informer_def)

lemma exampleFactory_run: "factorySteps exampleFactory requestedFactory" "factorySteps requestedFactory startedFactory"
proof -
  show "factorySteps exampleFactory requestedFactory"
    unfolding requestedFactory_def by (rule rtranclp_trans [OF ForResource_step ForResource_step])
  have start: "factorySteps iw (Start sorted_list_of_set n iw)" for n and iw :: "unit informerWorld"
    by (rule r_into_rtranclp, rule factoryStep.start [OF enumerates_sorted])
  have stop: "factorySteps iw (ShutdownBegin iw)" for iw :: "unit informerWorld"
    by (rule r_into_rtranclp, rule factoryStep.shutdown)
  show "factorySteps requestedFactory startedFactory"
    unfolding startedFactory_def
    by (rule rtranclp_trans [OF start rtranclp_trans [OF start stop]])
qed

lemma requestedFactory_informers:
  "sfInformers (iwFactory requestedFactory) = [''*v1alpha1.StorageState'' \<mapsto> 0, ''*v1alpha1.StorageVersionMigration'' \<mapsto> 1]"
  "sfStartedInformers (iwFactory requestedFactory) = Map.empty" "iwRuns requestedFactory = []"
  "\<not> sfShuttingDown (iwFactory requestedFactory)"
  by (simp_all add: requestedFactory_def exampleFactory_def ForResource_def Let_def WithResource_def
      storageStateInformer_Informer_def storageVersionMigrationInformer_Informer_def InformerFor_def factoryWorld_def
      NewSharedInformerFactoryWithOptions_def WithNamespace_def WithCustomResyncConfig_def)

lemma startedFactory_runs: "iwRuns startedFactory = [0, 1]"
proof -
  let ?ts = "[''*v1alpha1.StorageState'', ''*v1alpha1.StorageVersionMigration'']"
  have "sorted_list_of_set {''*v1alpha1.StorageVersionMigration'', ''*v1alpha1.StorageState''} = ?ts" by code_simp
  then show ?thesis
    by (simp add: startedFactory_def ShutdownBegin_def Start_def requestedFactory_informers fold_startOne startOne_def Let_def)
qed

lemma exampleFactory_options:
  "list_all packageOption [WithCustomResyncConfig [(GoState zeroStorageState, second)], WithNamespace ''ns'']"
  by (simp add: packageOption.intros)

theorem factory_shares_and_starts_once_witness:
  "distinct (iwRuns startedFactory) \<and> iwRuns startedFactory = [0, 1]
   \<and> fst (InformerFor ''*v1alpha1.StorageState'' (storageStateInformer_defaultInformer \<lparr>stTweakListOptions = None\<rparr>) startedFactory) = 0"
proof -
  let ?nf = "storageStateInformer_defaultInformer \<lparr>stTweakListOptions = None\<rparr>"
  have req: "InformerFor ''*v1alpha1.StorageState'' ?nf startedFactory = (0, startedFactory)"
  proof -
    have "sfInformers (iwFactory startedFactory) ''*v1alpha1.StorageState'' = Some 0"
      by (simp add: startedFactory_def ShutdownBegin_def Start_def fold_startOne requestedFactory_informers)
    then show ?thesis by (simp add: InformerFor_def)
  qed
  have "factorySteps exampleFactory startedFactory" using exampleFactory_run rtranclp_trans by metis
  from factory_shares_and_starts_once [OF exampleFactory_options this [unfolded exampleFactory_def] rtranclp.rtrancl_refl,
      of "''*v1alpha1.StorageState''" ?nf 0 startedFactory startedFactory ?nf]
  show ?thesis using startedFactory_runs req by simp
qed

end
