(* ===== verification/Informer_Correct.thy ===== *)
theory Informer_Correct
  imports Informer_Factory Rest_Correct
begin

section \<open>Informer caches follow the server\<close>

text \<open>
  An informer lists the objects of a resource from the tracker of the fake clientset and opens a watch.
  Whatever calls the clients of the server make afterwards, applying the events the watch
  has received brings the cache to exactly the objects the server holds, so that listers and
  index lookups answer as the server would.
\<close>

subsection \<open>The clientset behind the informer\<close>

text \<open>\<open>sel\<close> is the parsed form of a label selector; an empty one matches everything.\<close>

definition selects :: "(string \<Rightarrow> (string \<times> string) list \<Rightarrow> bool) \<Rightarrow> MetaListOptions \<Rightarrow> (string \<times> string) list \<Rightarrow> bool" where
  "selects sel opts labels \<longleftrightarrow> loLabelSelector opts = [] \<or> sel (loLabelSelector opts) labels"

definition fakeInterface :: "(string \<Rightarrow> (string \<times> string) list \<Rightarrow> bool) \<Rightarrow> FakeClientset ClientsetInterface" where
  "fakeInterface sel = \<lparr>
     ciStatesList = (\<lambda>opts w.
        apfst (map_sum id (\<lambda>items. zeroStorageStateList\<lparr>slItems := items\<rparr>)) (fakeSS_List (selects sel opts) w)),
     ciStatesWatch = (\<lambda>opts w. apfst Inr (fakeSS_Watch w)),
     ciMigrationsList = (\<lambda>opts w.
        apfst (map_sum id (\<lambda>items. zeroStorageVersionMigrationList\<lparr>vlItems := items\<rparr>)) (fakeSVM_List (selects sel opts) w)),
     ciMigrationsWatch = (\<lambda>opts w. apfst Inr (fakeSVM_Watch w))\<rparr>"

fun toGo :: "trackedObject \<Rightarrow> goObject" where
  "toGo (TSVM m) = GoSVM m"
| "toGo (TSS s) = GoState s"
| "toGo (TCRD d) = GoOther ''*v1.CustomResourceDefinition''"
| "toGo (TAPIService a) = GoOther ''*v1.APIService''"

fun cacheEventOf :: "watchEvent \<Rightarrow> cacheEvent" where
  "cacheEventOf (Added obj) = CacheAdded (toGo obj)"
| "cacheEventOf (Modified obj) = CacheModified (toGo obj)"
| "cacheEventOf (Deleted obj) = CacheDeleted (toGo obj)"

subsection \<open>Events replay the changes of the tracker\<close>

fun eventObject :: "watchEvent \<Rightarrow> trackedObject" where
  "eventObject (Added obj) = obj"
| "eventObject (Modified obj) = obj"
| "eventObject (Deleted obj) = obj"

fun applyEvent :: "watchEvent \<Rightarrow> (string \<rightharpoonup> trackedObject) \<Rightarrow> string \<rightharpoonup> trackedObject" where
  "applyEvent (Added obj) v = v(omName (objMeta obj) \<mapsto> obj)"
| "applyEvent (Modified obj) v = v(omName (objMeta obj) \<mapsto> obj)"
| "applyEvent (Deleted obj) v = v(omName (objMeta obj) := None)"

definition watching :: "nat \<Rightarrow> SchemaGVR \<Rightarrow> tracker \<Rightarrow> bool" where
  "watching i gvr t \<longleftrightarrow> i < length (tWatchers t) \<and> fst (tWatchers t ! i) = (gvr, [])"

definition seen :: "nat \<Rightarrow> tracker \<Rightarrow> watchEvent list" where
  "seen i t = snd (tWatchers t ! i)"

lemma received_seen: "received i w = seen i (fcTracker w)"
  by (simp add: received_def seen_def)

lemma tNotify_watch:
  assumes "watching i gvr t"
  shows "watching i gvr (tNotify g [] ev t)"
    "seen i (tNotify g [] ev t) = (if g = gvr then seen i t @ [ev] else seen i t)"
proof -
  obtain evs where w: "tWatchers t ! i = ((gvr, []), evs)" using assms by (metis watching_def prod.collapse)
  have i: "i < length (tWatchers t)" using assms by (simp add: watching_def)
  show "watching i gvr (tNotify g [] ev t)"
    using i w by (simp add: watching_def tNotify_def split: prod.splits)
  show "seen i (tNotify g [] ev t) = (if g = gvr then seen i t @ [ev] else seen i t)"
    using i w by (simp add: seen_def tNotify_def)
qed

text \<open>What one operation adds to a watch of \<open>gvr\<close> is what it did to the objects of \<open>gvr\<close>.\<close>

definition replays :: "nat \<Rightarrow> SchemaGVR \<Rightarrow> tracker \<Rightarrow> tracker \<Rightarrow> bool" where
  "replays i gvr t t' \<longleftrightarrow> watching i gvr t' \<and>
     (\<exists>evs. seen i t' = seen i t @ evs \<and> view gvr t' = fold applyEvent evs (view gvr t)
        \<and> (\<forall>ev \<in> set evs. \<exists>n t0. view gvr t0 n = Some (eventObject ev) \<and> t0 \<in> {t, t'}))"

lemma replays_refl: "watching i gvr t \<Longrightarrow> view gvr t' = view gvr t \<Longrightarrow> tWatchers t' = tWatchers t \<Longrightarrow> replays i gvr t t'"
  by (auto simp: replays_def watching_def seen_def)

lemma tAdd_obj_watchers:
  assumes "omNamespace (objMeta obj) = []" "tAdd_obj g obj [] rep t = (e, t')"
  shows "(e = None \<and> (\<exists>ev \<in> {Added obj, Modified obj}. tWatchers t' = tWatchers (tNotify g [] ev t)))
    \<or> (e \<noteq> None \<and> tWatchers t' = tWatchers t)"
proof -
  have same: "setMeta (objMeta obj\<lparr>omNamespace := []\<rparr>) obj = obj"
    using assms(1) by (simp add: root_namespace setMeta_same)
  show ?thesis
    using assms(2) unfolding tAdd_obj_def Let_def assms(1) if_P [OF refl] same
    by (auto simp: tNotify_def assms(1) split: if_splits)
qed

lemma watching_watchers: "tWatchers t' = tWatchers t \<Longrightarrow> watching i gvr t' = watching i gvr t \<and> seen i t' = seen i t"
  by (simp add: watching_def seen_def)

lemma replays_notify:
  assumes "watching i gvr t" and "tWatchers t' = tWatchers (tNotify g [] ev t)"
    and "view gvr t' = (if g = gvr then applyEvent ev (view gvr t) else view gvr t)"
    and "g = gvr \<Longrightarrow> \<exists>n t0. view gvr t0 n = Some (eventObject ev) \<and> t0 \<in> {t, t'}"
  shows "replays i gvr t t'"
proof -
  note nt = tNotify_watch [OF assms(1), of g ev] watching_watchers [OF assms(2), of i gvr]
  show ?thesis
  proof (cases "g = gvr")
    case True
    then show ?thesis using nt assms(3,4) by (auto simp: replays_def intro!: exI [of _ "[ev]"])
  next
    case False
    then show ?thesis using nt assms(3) by (auto simp: replays_def intro!: exI [of _ "[]"])
  qed
qed

lemma replays_add:
  assumes "watching i gvr t" "tAdd_obj g obj [] rep t = (e, t')"
  shows "replays i gvr t t'"
proof (cases "omNamespace (objMeta obj) = []")
  case False
  then have "t' = t" using tAdd_obj_bad [OF False, of g rep t] assms(2) by auto
  then show ?thesis using assms(1) by (simp add: replays_refl)
next
  case True
  have g: "view g t' = (if e = None then (view g t)(omName (objMeta obj) \<mapsto> obj) else view g t)"
    using tAdd_obj_root(1,2) [OF True refl, of g rep t] assms(2) by (auto split: if_splits option.splits)
  have "g \<noteq> gvr \<Longrightarrow> view gvr t' = view gvr t"
    using tAdd_obj_root(3) [OF True refl, of gvr g rep t] assms(2) by auto
  with g have v: "view gvr t' = (if g = gvr \<and> e = None then (view gvr t)(omName (objMeta obj) \<mapsto> obj) else view gvr t)"
    by (cases "g = gvr") auto
  from tAdd_obj_watchers [OF True assms(2)] show ?thesis
  proof (elim disjE conjE bexE)
    fix ev
    assume e: "e = None" and ev: "ev \<in> {Added obj, Modified obj}" and w: "tWatchers t' = tWatchers (tNotify g [] ev t)"
    have "view gvr t' (omName (objMeta obj)) = Some (eventObject ev)" if "g = gvr" using v e that ev by auto
    then show ?thesis using replays_notify [OF assms(1) w] v e ev by fastforce
  qed (use v assms(1) in \<open>auto simp: replays_refl\<close>)
qed

lemma replays_delete:
  assumes "watching i gvr t" "tDelete g [] n t = (e, t')"
    and "\<And>obj. view gvr t n = Some obj \<Longrightarrow> omName (objMeta obj) = n"
  shows "replays i gvr t t'"
proof (cases "view g t n")
  case None
  then have "t' = t" using assms(2) by (auto simp: tDelete_def Let_def view_def split: option.splits)
  then show ?thesis using assms(1) by (simp add: replays_refl)
next
  case (Some obj)
  then have w: "tWatchers t' = tWatchers (tNotify g [] (Deleted obj) t)"
    using assms(2) by (auto simp: tDelete_def tNotify_def Let_def view_def split: option.splits)
  have "view g t' = (view g t)(n := None)" "gvr \<noteq> g \<Longrightarrow> view gvr t' = view gvr t"
    using tDelete_root(2) [of g n t] tDelete_root(3) [of gvr g n t] assms(2) by simp_all
  then have "view gvr t' = (if g = gvr then applyEvent (Deleted obj) (view gvr t) else view gvr t)"
    using assms(3) Some by auto
  then show ?thesis using replays_notify [OF assms(1) w] Some by auto
qed

text \<open>The calls of clients, as actions on the tracker.\<close>

fun actionOf :: "clientCall \<Rightarrow> Action" where
  "actionOf (GetState n) = GetAction storagestatesResource [] n"
| "actionOf (CreateState s) = CreateAction storagestatesResource [] (TSS s)"
| "actionOf (UpdateState s) = UpdateAction storagestatesResource [] [] (TSS s)"
| "actionOf (UpdateStateStatus s) = UpdateAction storagestatesResource [] ''status'' (TSS s)"
| "actionOf (DeleteState n) = DeleteAction storagestatesResource [] n"
| "actionOf (GetMigration n) = GetAction storageversionmigrationsResource [] n"
| "actionOf (CreateMigration m) = CreateAction storageversionmigrationsResource [] (TSVM m)"
| "actionOf (UpdateMigration m) = UpdateAction storageversionmigrationsResource [] [] (TSVM m)"
| "actionOf (UpdateMigrationStatus m) = UpdateAction storageversionmigrationsResource [] ''status'' (TSVM m)"
| "actionOf (DeleteMigration n) = DeleteAction storageversionmigrationsResource [] n"

fun rootAction :: "Action \<Rightarrow> bool" where
  "rootAction (GetAction g ns n) \<longleftrightarrow> ns = []"
| "rootAction (CreateAction g ns obj) \<longleftrightarrow> ns = []"
| "rootAction (UpdateAction g ns sub obj) \<longleftrightarrow> ns = []"
| "rootAction (DeleteAction g ns n) \<longleftrightarrow> ns = []"
| "rootAction a \<longleftrightarrow> False"

abbreviation serverCall :: "clientCall \<Rightarrow> (FakeClientset, clientResult) call" where
  "serverCall \<equiv> perform FakeStorageStates FakeStorageVersionMigrations"

abbreviation serverCalls :: "clientCall list \<Rightarrow> (FakeClientset, clientResult list) call" where
  "serverCalls \<equiv> performAll FakeStorageStates FakeStorageVersionMigrations"

lemma rootAction_actionOf: "rootAction (actionOf call)"
  by (cases call) simp_all

lemma serverCall_tracker:
  "serverCall call w = (r, w') \<Longrightarrow> fcTracker w' = snd (ObjectReaction (actionOf call) (fcTracker w))"
  by (cases call) (auto simp: fakeSS_defs fakeSVM_defs apfst_eq_iff Invokes_def Let_def split: prod.splits)

lemma serverCall_wf:
  assumes wf: "fake_wf w" and run: "serverCall call w = (r, w')"
  shows "fake_wf w'"
proof (cases call)
  case (CreateState s)
  then show ?thesis using run fake_ss_write [OF wf, of "actionOf call" _ w' s False] by (auto simp: fakeSS_defs apfst_eq_iff)
next
  case (UpdateState s)
  then show ?thesis using run fake_ss_write [OF wf, of "actionOf call" _ w' s True] by (auto simp: fakeSS_defs apfst_eq_iff)
next
  case (UpdateStateStatus s)
  then show ?thesis using run fake_ss_write [OF wf, of "actionOf call" _ w' s True] by (auto simp: fakeSS_defs apfst_eq_iff)
next
  case (CreateMigration m)
  then show ?thesis using run fake_svm_write [OF wf, of "actionOf call" _ w' m False] by (auto simp: fakeSVM_defs apfst_eq_iff)
next
  case (UpdateMigration m)
  then show ?thesis using run fake_svm_write [OF wf, of "actionOf call" _ w' m True] by (auto simp: fakeSVM_defs apfst_eq_iff)
next
  case (UpdateMigrationStatus m)
  then show ?thesis using run fake_svm_write [OF wf, of "actionOf call" _ w' m True] by (auto simp: fakeSVM_defs apfst_eq_iff)
qed (use run fake_ss_get [OF wf] fake_svm_get [OF wf] fake_ss_delete [OF wf] fake_svm_delete [OF wf] in
    \<open>fastforce simp: apfst_eq_iff\<close>)+

lemma replays_action:
  assumes "watching i gvr t" "rootAction act"
    and "\<And>n obj. view gvr t n = Some obj \<Longrightarrow> omName (objMeta obj) = n"
  shows "replays i gvr t (snd (ObjectReaction act t))"
proof (cases act)
  case (CreateAction g ns obj)
  then have "snd (ObjectReaction act t) = snd (tAdd_obj g obj [] False t)"
    using assms(2) by (auto simp: tCreate_def split: prod.splits option.splits)
  then show ?thesis using replays_add [OF assms(1), of g obj False "fst (tAdd_obj g obj [] False t)"] by simp
next
  case (UpdateAction g ns sub obj)
  then have "snd (ObjectReaction act t) = snd (tAdd_obj g obj [] True t)"
    using assms(2) by (auto simp: tUpdate_def split: prod.splits option.splits)
  then show ?thesis using replays_add [OF assms(1), of g obj True "fst (tAdd_obj g obj [] True t)"] by simp
next
  case (DeleteAction g ns n)
  then have "snd (ObjectReaction act t) = snd (tDelete g [] n t)"
    using assms(2) by (auto split: prod.splits option.splits)
  then show ?thesis using replays_delete [OF assms(1), of g n "fst (tDelete g [] n t)"] assms(3) by simp
qed (use assms in \<open>auto simp: replays_refl\<close>)

subsection \<open>The cache of one kind of objects\<close>

text \<open>
  \<open>good\<close> are the objects of the kind: the index functions are defined on them, and their key is their name.
\<close>

definition nameOf :: "goObject \<Rightarrow> string" where
  "nameOf x = (case goMeta x of None \<Rightarrow> [] | Some om \<Rightarrow> omName om)"

fun applyCached :: "cacheEvent \<Rightarrow> (string \<rightharpoonup> goObject) \<Rightarrow> string \<rightharpoonup> goObject" where
  "applyCached (CacheAdded obj) v = v(nameOf obj \<mapsto> obj)"
| "applyCached (CacheModified obj) v = v(nameOf obj \<mapsto> obj)"
| "applyCached (CacheDeleted obj) v = v(nameOf obj := None)"

fun cachedObject :: "cacheEvent \<Rightarrow> goObject" where
  "cachedObject (CacheAdded obj) = obj"
| "cachedObject (CacheModified obj) = obj"
| "cachedObject (CacheDeleted obj) = obj"

lemma updateIndices_total:
  assumes "\<forall>(n, f) \<in> set ixs. indexValuesOf f old \<noteq> None \<and> indexValuesOf f new \<noteq> None"
  shows "\<exists>ind'. updateIndices ixs old new k ind = Some ind'"
  using assms by (induction ixs arbitrary: ind) (fastforce simp: Let_def)+

lemma indexValuesOf_total: "(\<forall>x. obj = Some x \<longrightarrow> (\<exists>vs. f x = Inr vs)) \<Longrightarrow> indexValuesOf f obj \<noteq> None"
  by (cases obj) auto

locale cached_kind =
  fixes good :: "goObject \<Rightarrow> bool" and ixs :: "goObject Indexers"
  assumes names: "distinct (map fst ixs)"
    and total: "good x \<Longrightarrow> (n, f) \<in> set ixs \<Longrightarrow> \<exists>vs. f x = Inr vs"
    and cluster_scoped: "good x \<Longrightarrow> \<exists>om. goMeta x = Some om \<and> omNamespace om = []"
begin

definition cached :: "goObject threadSafeMap \<Rightarrow> (string \<rightharpoonup> goObject) \<Rightarrow> bool" where
  "cached c v \<longleftrightarrow> ts_inv c \<and> tsIndexers c = ixs \<and> finite (dom (tsItems c)) \<and> tsItems c = v \<and> (\<forall>x \<in> ran v. good x)"

lemma key: "good x \<Longrightarrow> MetaNamespaceKeyFunc x = Inr (nameOf x)"
  using cluster_scoped [of x] by (auto simp: MetaNamespaceKeyFunc_def nameOf_def)

lemma indexable: "cached c v \<Longrightarrow> \<forall>y. new = Some y \<longrightarrow> good y \<Longrightarrow>
    \<forall>(n, f) \<in> set (tsIndexers c). indexValuesOf f (tsItems c k) \<noteq> None \<and> indexValuesOf f new \<noteq> None"
  using total by (fastforce simp: cached_def ran_def intro!: indexValuesOf_total)

lemma cached_new: "cached (NewThreadSafeStore ixs Map.empty) Map.empty"
  using ts_inv_new [OF names] by (simp add: cached_def NewThreadSafeStore_def)

lemma cached_put:
  assumes "cached c v" "good x"
  shows "\<exists>c'. putObject x c = Some c' \<and> cached c' (v(nameOf x \<mapsto> x))"
proof -
  obtain ind where "updateIndices (tsIndexers c) (tsItems c (nameOf x)) (Some x) (nameOf x) (tsIndices c) = Some ind"
    using updateIndices_total [OF indexable [OF assms(1), of "Some x" "nameOf x"]] assms(2) by auto
  then obtain c' where c': "tsUpdate (nameOf x) x c = Some c'" by (auto simp: tsUpdate_def)
  then have "cached c' (v(nameOf x \<mapsto> x))"
    using assms tsUpdate_frame [OF c'] ts_inv_update [OF _ c'] by (auto simp: cached_def ran_def)
  then show ?thesis using c' key [OF assms(2)] by (simp add: putObject_def)
qed

lemma cached_delete:
  assumes "cached c v" "good x"
  shows "\<exists>c'. deleteObject x c = Some c' \<and> cached c' (v(nameOf x := None))"
proof -
  obtain ind where "updateIndices (tsIndexers c) (tsItems c (nameOf x)) None (nameOf x) (tsIndices c) = Some ind"
    using updateIndices_total [OF indexable [OF assms(1), of None "nameOf x"]] by auto
  then obtain c' where c': "tsDelete (nameOf x) c = Some c'"
    by (cases "tsItems c (nameOf x)") (auto simp: tsDelete_def)
  then have "cached c' (v(nameOf x := None))"
    using assms tsDelete_frame [OF c'] ts_inv_delete [OF _ c'] by (auto simp: cached_def ran_def)
  then show ?thesis using c' key [OF assms(2)] by (simp add: deleteObject_def)
qed

lemma cached_event:
  "cached c v \<Longrightarrow> good (cachedObject ev) \<Longrightarrow> \<exists>c'. handleEvent ev c = Some c' \<and> cached c' (applyCached ev v)"
  using cached_put cached_delete by (cases ev) auto

lemma cached_events:
  "cached c v \<Longrightarrow> \<forall>ev \<in> set evs. good (cachedObject ev) \<Longrightarrow>
     \<exists>c'. handleEvents evs c = Some c' \<and> cached c' (fold applyCached evs v)"
proof (induction evs arbitrary: c v)
  case (Cons ev evs)
  then obtain c1 where c1: "handleEvent ev c = Some c1" "cached c1 (applyCached ev v)" using cached_event [of c v ev] by auto
  from Cons.IH [OF c1(2)] Cons.prems c1(1) show ?case by auto
qed simp

lemma cached_putAll:
  "cached c v \<Longrightarrow> \<forall>x \<in> set xs. good x \<Longrightarrow>
     \<exists>c'. putAll xs c = Some c' \<and> cached c' (v ++ map_of (rev (map (\<lambda>x. (nameOf x, x)) xs)))"
proof (induction xs arbitrary: c v)
  case (Cons x xs)
  then obtain c1 where c1: "putObject x c = Some c1" "cached c1 (v(nameOf x \<mapsto> x))" using cached_put [of c v x] by auto
  have "v(nameOf x \<mapsto> x) ++ map_of (rev (map (\<lambda>x. (nameOf x, x)) xs)) = v ++ map_of (rev (map (\<lambda>x. (nameOf x, x)) (x # xs)))"
    by (simp add: fun_eq_iff map_add_def split: option.splits)
  with Cons.IH [OF c1(2)] Cons.prems(2) c1(1) show ?case by fastforce
qed simp

lemma cached_sync:
  assumes "\<forall>x \<in> set xs. good x"
  shows "\<exists>c'. syncWith xs (NewThreadSafeStore ixs Map.empty) = Some c'
     \<and> cached c' (map_of (rev (map (\<lambda>x. (nameOf x, x)) xs)))"
proof -
  have "dom (tsItems (NewThreadSafeStore ixs Map.empty)) = {}" by (simp add: NewThreadSafeStore_def)
  then show ?thesis using cached_putAll [OF cached_new assms] by (auto simp: syncWith_def)
qed

lemma cached_ByIndex:
  assumes "cached c v" "enumerates ord" "map_of ixs n = Some f"
  shows "\<exists>l. tsByIndex ord n u c = Inr l \<and> set l = {Some x | x. x \<in> ran v \<and> (\<exists>vs. f x = Inr vs \<and> u \<in> set vs)}"
  using tsByIndex_exact [OF assms(2), of c n f u] assms by (auto simp: cached_def ran_def)

lemma storeList_map:
  assumes "cached c v" "enumerates ord"
  shows "storeList ord c = map (\<lambda>k. the (v k)) (ord (dom v))"
proof -
  have ord: "set (ord (dom v)) = dom v" "tsItems c = v" using assms by (auto simp: cached_def enumerates_def)
  show ?thesis
    unfolding storeList_def ord(2) map_filter_def using ord(1) by (subst filter_True) (auto simp: comp_def)
qed

lemma storeList_set:
  assumes "cached c v" "enumerates ord"
  shows "set (storeList ord c) = ran v"
proof -
  have "set (ord (dom v)) = dom v" using assms by (auto simp: cached_def enumerates_def)
  then show ?thesis by (auto simp: storeList_map [OF assms] ran_def dom_def image_iff) (metis option.sel)
qed

lemma storeList_distinct:
  assumes "cached c v" "enumerates ord" "\<And>n x. v n = Some x \<Longrightarrow> nameOf x = n"
  shows "distinct (map nameOf (storeList ord c))"
proof -
  have ord: "set (ord (dom v)) = dom v" "distinct (ord (dom v))" using assms by (auto simp: cached_def enumerates_def)
  have "map nameOf (map (\<lambda>k. the (v k)) ks) = ks" if "set ks \<subseteq> dom v" for ks
    using that assms(3) by (induction ks) auto
  then show ?thesis using ord by (simp add: storeList_map [OF assms(1,2)] del: map_map)
qed

end

subsection \<open>The objects of a resource on the server\<close>

text \<open>The resource can be listed: finitely many objects, all of the cluster scope.\<close>

definition listable :: "SchemaGVR \<Rightarrow> tracker \<Rightarrow> bool" where
  "listable gvr t \<longleftrightarrow> (\<forall>objs. tObjects t gvr = Some objs \<longrightarrow> finite (dom objs) \<and> fst ` dom objs \<subseteq> {[]})"

lemma map_of_root_keys:
  assumes "\<forall>k \<in> set ks. fst k = []"
  shows "map_of (map (\<lambda>k. (snd k, g k)) ks) n = (if ([], n) \<in> set ks then Some (g ([], n)) else None)"
  using assms by (induction ks) auto

lemma tList_root:
  assumes "listable gvr t" "tObjects t gvr = Some objs"
  obtains ks where "tList gvr [] t = map (\<lambda>k. the (objs k)) ks" "set ks = dom objs" "\<forall>k \<in> set ks. fst k = []"
proof -
  have fin: "finite (dom objs)" and root: "\<forall>k \<in> dom objs. fst k = []" using assms by (auto simp: listable_def)
  show thesis
    by (rule that [of "sorted_list_of_set (dom objs)"]) (use fin root assms(2) in \<open>auto simp: tList_def matchingKeys_def\<close>)
qed

locale tracked_kind = cached_kind +
  fixes gvr :: SchemaGVR
  assumes kind: "fake_wf w \<Longrightarrow> view gvr (fcTracker w) n = Some obj \<Longrightarrow>
    good (toGo obj) \<and> goMeta (toGo obj) = Some (objMeta obj) \<and> omName (objMeta obj) = n"
begin

definition served :: "FakeClientset \<Rightarrow> string \<rightharpoonup> goObject" where
  "served w n = map_option toGo (view gvr (fcTracker w) n)"

lemma kind_name: "fake_wf w \<Longrightarrow> view gvr (fcTracker w) n = Some obj \<Longrightarrow> nameOf (toGo obj) = n"
  using kind [of w n obj] by (simp add: nameOf_def)

lemma served_name: "fake_wf w \<Longrightarrow> served w n = Some x \<Longrightarrow> nameOf x = n"
  using kind_name by (auto simp: served_def)

lemma list_good:
  assumes "fake_wf w" "listable gvr (fcTracker w)"
  shows "\<forall>x \<in> set (map toGo (tList gvr [] (fcTracker w))). good x"
    "map_of (rev (map (\<lambda>x. (nameOf x, x)) (map toGo (tList gvr [] (fcTracker w))))) = served w"
proof -
  let ?t = "fcTracker w"
  have "(\<forall>x \<in> set (map toGo (tList gvr [] ?t)). good x)
    \<and> map_of (rev (map (\<lambda>x. (nameOf x, x)) (map toGo (tList gvr [] ?t)))) = served w"
  proof (cases "tObjects ?t gvr")
    case None
    then show ?thesis by (simp add: tList_def served_def view_def fun_eq_iff)
  next
    case (Some objs)
    obtain ks where ks: "tList gvr [] ?t = map (\<lambda>k. the (objs k)) ks" "set ks = dom objs" "\<forall>k \<in> set ks. fst k = []"
      using tList_root [OF assms(2) Some] by blast
    have view: "view gvr ?t n = objs ([], n)" for n using Some by (simp add: view_def)
    have at: "good (toGo (the (objs k))) \<and> nameOf (toGo (the (objs k))) = snd k" if "k \<in> set ks" for k
    proof -
      from that ks obtain obj where "k = ([], snd k)" "objs k = Some obj" by (metis domD prod.collapse)
      then have "view gvr ?t (snd k) = Some obj" by (metis view)
      with kind [OF assms(1) this] kind_name [OF assms(1) this] \<open>objs k = Some obj\<close> show ?thesis by simp
    qed
    have "rev (map (\<lambda>x. (nameOf x, x)) (map toGo (tList gvr [] ?t)))
        = map (\<lambda>k. (snd k, toGo (the (objs k)))) (rev ks)"
      unfolding ks(1) rev_map [symmetric] map_map comp_def using at by simp
    then have "map_of (rev (map (\<lambda>x. (nameOf x, x)) (map toGo (tList gvr [] ?t)))) n = served w n" for n
      using map_of_root_keys [of "rev ks" "\<lambda>k. toGo (the (objs k))" n] ks(2,3) by (auto simp: served_def view)
    then show ?thesis using at by (auto simp: ks(1) fun_eq_iff)
  qed
  then show "\<forall>x \<in> set (map toGo (tList gvr [] ?t)). good x"
    "map_of (rev (map (\<lambda>x. (nameOf x, x)) (map toGo (tList gvr [] ?t)))) = served w" by blast+
qed

lemma replay_cached:
  assumes "\<forall>ev \<in> set evs. goMeta (toGo (eventObject ev)) = Some (objMeta (eventObject ev))"
  shows "fold applyCached (map cacheEventOf evs) (\<lambda>n. map_option toGo (v n)) = (\<lambda>n. map_option toGo (fold applyEvent evs v n))"
  using assms
proof (induction evs arbitrary: v)
  case (Cons ev evs)
  have "applyCached (cacheEventOf ev) (\<lambda>n. map_option toGo (v n)) = (\<lambda>n. map_option toGo (applyEvent ev v n))"
    using Cons.prems by (cases ev) (auto simp: nameOf_def fun_eq_iff)
  then show ?case using Cons.IH [of "applyEvent ev v"] Cons.prems by simp
qed simp

lemma call_replayed:
  assumes "fake_wf w" "watching i gvr (fcTracker w)" "serverCall call w = (r, w')"
  shows "fake_wf w' \<and> watching i gvr (fcTracker w') \<and> (\<exists>evs. received i w' = received i w @ evs
     \<and> (\<forall>ev \<in> set evs. good (cachedObject (cacheEventOf ev)))
     \<and> served w' = fold applyCached (map cacheEventOf evs) (served w))"
proof -
  have wf': "fake_wf w'" by (rule serverCall_wf [OF assms(1,3)])
  have "replays i gvr (fcTracker w) (fcTracker w')"
    using replays_action [OF assms(2) rootAction_actionOf [of call]] kind [OF assms(1)] serverCall_tracker [OF assms(3)] by simp
  then obtain evs where w': "watching i gvr (fcTracker w')" and seen: "seen i (fcTracker w') = seen i (fcTracker w) @ evs"
    and v: "view gvr (fcTracker w') = fold applyEvent evs (view gvr (fcTracker w))"
    and obj: "\<forall>ev \<in> set evs. \<exists>n t0. view gvr t0 n = Some (eventObject ev) \<and> t0 \<in> {fcTracker w, fcTracker w'}"
    by (auto simp: replays_def)
  have ok: "good (toGo (eventObject ev)) \<and> goMeta (toGo (eventObject ev)) = Some (objMeta (eventObject ev))"
    if "ev \<in> set evs" for ev
    using obj that kind [OF assms(1)] kind [OF wf'] by blast
  have "cachedObject (cacheEventOf ev) = toGo (eventObject ev)" for ev by (cases ev) simp_all
  then have "\<forall>ev \<in> set evs. good (cachedObject (cacheEventOf ev))" using ok by simp
  moreover have "served w' = fold applyCached (map cacheEventOf evs) (served w)"
    using replay_cached [of evs "view gvr (fcTracker w)"] ok v by (simp add: served_def [abs_def])
  ultimately show ?thesis using wf' w' seen by (auto simp: received_seen)
qed

lemma calls_replayed:
  assumes "fake_wf w" "watching i gvr (fcTracker w)" "serverCalls calls w = (rs, w')"
  shows "fake_wf w' \<and> (\<exists>evs. received i w' = received i w @ evs
     \<and> (\<forall>ev \<in> set evs. good (cachedObject (cacheEventOf ev)))
     \<and> served w' = fold applyCached (map cacheEventOf evs) (served w))"
  using assms
proof (induction calls arbitrary: w rs)
  case (Cons call calls)
  obtain r w1 rs1 where run: "serverCall call w = (r, w1)" "serverCalls calls w1 = (rs1, w')"
    using Cons.prems(3) by (auto simp: apfst_eq_iff split: prod.splits)
  from call_replayed [OF Cons.prems(1,2) run(1)] obtain evs where
    1: "fake_wf w1" "watching i gvr (fcTracker w1)" "received i w1 = received i w @ evs"
      "\<forall>ev \<in> set evs. good (cachedObject (cacheEventOf ev))" "served w1 = fold applyCached (map cacheEventOf evs) (served w)"
    by blast
  from Cons.IH [OF 1(1,2) run(2)] obtain evs' where
    2: "fake_wf w'" "received i w' = received i w1 @ evs'" "\<forall>ev \<in> set evs'. good (cachedObject (cacheEventOf ev))"
      "served w' = fold applyCached (map cacheEventOf evs') (served w1)" by blast
  show ?case
    by (intro conjI exI [of _ "evs @ evs'"]) (use 1 2 in auto)
qed auto

lemma list_and_watch:
  assumes "fake_wf w" "listable gvr (fcTracker w)" "siIndexer si = NewThreadSafeStore ixs Map.empty"
    and lst: "\<And>opts. loLabelSelector opts = [] \<Longrightarrow> siListFunc si opts w
      = (Inr (zeroListMeta, map toGo (tList gvr [] (fcTracker w))), w\<lparr>fcActions := fcActions w @ [ListAction gvr []]\<rparr>)"
    and wtch: "\<And>opts v. siWatchFunc si opts v = apfst Inr (InvokesWatch gvr [] v)"
  shows "\<exists>c i w1. ListAndWatch secs si w = Some (Inr (si\<lparr>siIndexer := c\<rparr>, i), w1) \<and> cached c (served w1)
     \<and> fake_wf w1 \<and> watching i gvr (fcTracker w1) \<and> received i w1 = []"
proof -
  let ?opts = "noListOptions\<lparr>loResourceVersion := ''0'', loLimit := 500\<rparr>"
  let ?items = "map toGo (tList gvr [] (fcTracker w))"
  let ?w0 = "w\<lparr>fcActions := fcActions w @ [ListAction gvr []]\<rparr>"
  let ?w1 = "snd (InvokesWatch gvr [] ?w0)"
  let ?i = "fst (InvokesWatch gvr [] ?w0)"
  have "pagerList (siListFunc si) ?opts ?opts None w = Some (Inr ([], ?items), ?w0)"
    by (subst pagerList.simps) (simp add: lst noListOptions_def zeroListMeta_def)
  moreover obtain c where c: "syncWith ?items (siIndexer si) = Some c" "cached c (served w)"
    using cached_sync [OF list_good(1) [OF assms(1,2)]] list_good(2) [OF assms(1,2)] assms(3) by auto
  ultimately have "ListAndWatch secs si w = Some (Inr (si\<lparr>siIndexer := c\<rparr>, ?i), ?w1)"
    by (simp add: ListAndWatch_def wtch split_beta)
  moreover have view: "view g (fcTracker ?w1) = view g (fcTracker w)" for g
    by (simp add: InvokesWatch_def tWatch_def view_def fun_eq_iff)
  have "served ?w1 = served w" "fake_wf ?w1"
    using assms(1) unfolding served_def [abs_def] fake_wf_def view by simp_all
  moreover have "watching ?i gvr (fcTracker ?w1)" "received ?i ?w1 = []"
    by (simp_all add: InvokesWatch_def tWatch_def watching_def received_def)
  ultimately show ?thesis using c(2) by metis
qed

lemma follows:
  assumes "cached c (served w)" "fake_wf w" "watching i gvr (fcTracker w)" "received i w = []"
    and "serverCalls calls w = (rs, w')"
  shows "\<exists>c'. handleEvents (map cacheEventOf (received i w')) c = Some c' \<and> cached c' (served w') \<and> fake_wf w'"
proof -
  from calls_replayed [OF assms(2,3,5)] assms(4) obtain evs where
    r: "fake_wf w'" "received i w' = evs" "\<forall>ev \<in> set evs. good (cachedObject (cacheEventOf ev))"
      "served w' = fold applyCached (map cacheEventOf evs) (served w)" by auto
  from cached_events [OF assms(1), of "map cacheEventOf evs"] r show ?thesis by auto
qed

end

subsection \<open>Migrations and StorageStates\<close>

fun isMigration :: "goObject \<Rightarrow> bool" where
  "isMigration (GoSVM m) \<longleftrightarrow> omNamespace (svmMeta m) = []"
| "isMigration x \<longleftrightarrow> False"

fun isState :: "goObject \<Rightarrow> bool" where
  "isState (GoState s) \<longleftrightarrow> omNamespace (ssMeta s) = []"
| "isState x \<longleftrightarrow> False"

lemma fake_wf_kinds:
  "fake_wf w \<Longrightarrow> view storageversionmigrationsResource (fcTracker w) n = Some obj \<Longrightarrow>
     \<exists>m. obj = TSVM m \<and> svmName m = n \<and> omNamespace (svmMeta m) = []"
  "fake_wf w \<Longrightarrow> view storagestatesResource (fcTracker w) n = Some obj \<Longrightarrow>
     \<exists>s. obj = TSS s \<and> ssName s = n \<and> omNamespace (ssMeta s) = []"
  by (auto simp: fake_wf_def)

interpretation migrationCache: tracked_kind isMigration statusAndResourceIndexers storageversionmigrationsResource
proof (unfold_locales, goal_cases)
  case (1) show ?case by (simp add: statusAndResourceIndexers_def index_name_defs)
next
  case (2 x n f) then show ?case by (cases x) (auto simp: statusAndResourceIndexers_def)
next
  case (3 x) then show ?case by (cases x) auto
next
  case (4 w n obj) then show ?case by (auto dest: fake_wf_kinds)
qed

interpretation stateCache: tracked_kind isState "[(NamespaceIndex, MetaNamespaceIndexFunc)]" storagestatesResource
proof (unfold_locales, goal_cases)
  case (2 x n f) then show ?case by (cases x) (auto simp: MetaNamespaceIndexFunc_def)
next
  case (3 x) then show ?case by (cases x) auto
next
  case (4 w n obj) then show ?case by (auto dest: fake_wf_kinds)
qed simp

lemma migrations_served: "fake_wf w \<Longrightarrow> migrationCache.served w n = map_option GoSVM (fake_migs w n)"
  by (cases "view storageversionmigrationsResource (fcTracker w) n")
    (auto simp: migrationCache.served_def fake_migs_def dest: fake_wf_kinds)

lemma states_served: "fake_wf w \<Longrightarrow> stateCache.served w n = map_option GoState (fake_states w n)"
  by (cases "view storagestatesResource (fcTracker w) n")
    (auto simp: stateCache.served_def fake_states_def dest: fake_wf_kinds)

text \<open>The lists of the fake clients, when the options select no labels.\<close>

lemma itemsSVM_all: "\<forall>obj \<in> set os. \<exists>m. obj = TSVM m \<Longrightarrow> \<exists>ms. itemsSVM os = Inr ms \<and> map GoSVM ms = map toGo os"
proof (induction os)
  case (Cons obj os)
  then obtain m ms where "obj = TSVM m" "itemsSVM os = Inr ms" "map GoSVM ms = map toGo os" by auto
  then show ?case by (intro exI [of _ "m # ms"]) simp
qed simp

lemma itemsSS_all: "\<forall>obj \<in> set os. \<exists>s. obj = TSS s \<Longrightarrow> \<exists>ss. itemsSS os = Inr ss \<and> map GoState ss = map toGo os"
proof (induction os)
  case (Cons obj os)
  then obtain s ss where "obj = TSS s" "itemsSS os = Inr ss" "map GoState ss = map toGo os" by auto
  then show ?case by (intro exI [of _ "s # ss"]) simp
qed simp

lemma toGo_migration: "isMigration (toGo obj) \<Longrightarrow> \<exists>m. obj = TSVM m"
  by (cases obj) auto

lemma toGo_state: "isState (toGo obj) \<Longrightarrow> \<exists>s. obj = TSS s"
  by (cases obj) auto

lemma migration_informer_list:
  assumes "fake_wf w" "listable storageversionmigrationsResource (fcTracker w)" "loLabelSelector opts = []"
  shows "siListFunc (NewStorageVersionMigrationInformer (fakeInterface sel) d ixs) opts w
      = (Inr (zeroListMeta, map toGo (tList storageversionmigrationsResource [] (fcTracker w))),
         w\<lparr>fcActions := fcActions w @ [ListAction storageversionmigrationsResource []]\<rparr>)"
proof -
  have "\<forall>obj \<in> set (tList storageversionmigrationsResource [] (fcTracker w)). \<exists>m. obj = TSVM m"
    using migrationCache.list_good(1) [OF assms(1,2)] toGo_migration by simp
  from itemsSVM_all [OF this] show ?thesis
    using assms(3)
    by (auto simp: NewStorageVersionMigrationInformer_def NewFilteredStorageVersionMigrationInformer_def tweaked_def
        fakeInterface_def fakeSVM_List_def InvokesList_def selects_def zeroStorageVersionMigrationList_def Let_def)
qed

lemma state_informer_list:
  assumes "fake_wf w" "listable storagestatesResource (fcTracker w)" "loLabelSelector opts = []"
  shows "siListFunc (NewStorageStateInformer (fakeInterface sel) d ixs) opts w
      = (Inr (zeroListMeta, map toGo (tList storagestatesResource [] (fcTracker w))),
         w\<lparr>fcActions := fcActions w @ [ListAction storagestatesResource []]\<rparr>)"
proof -
  have "\<forall>obj \<in> set (tList storagestatesResource [] (fcTracker w)). \<exists>s. obj = TSS s"
    using stateCache.list_good(1) [OF assms(1,2)] toGo_state by simp
  from itemsSS_all [OF this] show ?thesis
    using assms(3)
    by (auto simp: NewStorageStateInformer_def NewFilteredStorageStateInformer_def tweaked_def
        fakeInterface_def fakeSS_List_def InvokesList_def selects_def zeroStorageStateList_def Let_def)
qed

lemma informer_watch:
  "siWatchFunc (NewStorageVersionMigrationInformer (fakeInterface sel) d ixs) opts v
     = apfst Inr (InvokesWatch storageversionmigrationsResource [] v)"
  "siWatchFunc (NewStorageStateInformer (fakeInterface sel) d ixs) opts v
     = apfst Inr (InvokesWatch storagestatesResource [] v)"
  by (simp_all add: NewStorageVersionMigrationInformer_def NewFilteredStorageVersionMigrationInformer_def
      NewStorageStateInformer_def NewFilteredStorageStateInformer_def fakeInterface_def fakeSVM_Watch_def fakeSS_Watch_def)

lemma informer_indexer:
  "siIndexer (NewStorageVersionMigrationInformer client d ixs) = NewThreadSafeStore ixs Map.empty"
  "siIndexer (NewStorageStateInformer client d ixs) = NewThreadSafeStore ixs Map.empty"
  by (simp_all add: NewStorageVersionMigrationInformer_def NewFilteredStorageVersionMigrationInformer_def
      NewStorageStateInformer_def NewFilteredStorageStateInformer_def)

subsection \<open>Listers and indices answer as the server would\<close>

definition selected :: "selector \<Rightarrow> ObjectMeta \<Rightarrow> bool" where
  "selected selector om \<longleftrightarrow> (case selector of None \<Rightarrow> True | Some f \<Rightarrow> f (omLabels om))"

lemma ListAll_migrations:
  "ListAll selector elemMigration (map GoSVM ms) = Inr (filter (\<lambda>m. selected selector (svmMeta m)) ms)"
  by (induction ms) (auto simp: Matches_def selected_def split: option.splits)

lemma ListAll_states:
  "ListAll selector elemState (map GoState ss) = Inr (filter (\<lambda>s. selected selector (ssMeta s)) ss)"
  by (induction ss) (auto simp: Matches_def selected_def split: option.splits)

lemma constructor_image: "set xs \<subseteq> range f \<Longrightarrow> \<exists>ys. xs = map f ys"
  by (induction xs) (auto intro: exI [of _ "_ # _"])

lemma map_option_ran: "ran (\<lambda>n. map_option f (v n)) = f ` ran v"
  by (auto simp: ran_def)

lemma distinct_names: "distinct (map nameOf (map f xs)) \<Longrightarrow> distinct xs"
  by (metis distinct_map map_map)

lemma migration_lister:
  assumes "migrationCache.cached c (migrationCache.served w)" "fake_wf w" "enumerates ord"
  shows "storageVersionMigrationLister_Get n c =
      (case fake_migs w n of None \<Rightarrow> Inl (NewNotFound GroupName ''storageversionmigration'' n) | Some m \<Rightarrow> Inr m)"
    "\<exists>ms. storageVersionMigrationLister_List ord selector c = Inr ms \<and> distinct ms
       \<and> set ms = {m \<in> ran (fake_migs w). selected selector (svmMeta m)}"
proof -
  let ?v = "migrationCache.served w"
  have v: "?v = (\<lambda>n. map_option GoSVM (fake_migs w n))" using migrations_served [OF assms(2)] by (simp add: fun_eq_iff)
  have "tsItems c = ?v" using assms(1) by (simp add: migrationCache.cached_def)
  then show "storageVersionMigrationLister_Get n c =
      (case fake_migs w n of None \<Rightarrow> Inl (NewNotFound GroupName ''storageversionmigration'' n) | Some m \<Rightarrow> Inr m)"
    by (simp add: storageVersionMigrationLister_Get_def v split: option.splits)
  have set: "set (storeList ord c) = GoSVM ` ran (fake_migs w)"
    using migrationCache.storeList_set [OF assms(1,3)] by (simp add: v map_option_ran)
  then obtain ms where ms: "storeList ord c = map GoSVM ms" using constructor_image [of "storeList ord c" GoSVM] by auto
  have "distinct ms"
    using migrationCache.storeList_distinct [OF assms(1,3) migrationCache.served_name [OF assms(2)]] ms distinct_names by metis
  moreover have "set ms = ran (fake_migs w)" using set by (simp add: ms inj_image_eq_iff [of GoSVM] inj_def)
  ultimately show "\<exists>ms. storageVersionMigrationLister_List ord selector c = Inr ms \<and> distinct ms
       \<and> set ms = {m \<in> ran (fake_migs w). selected selector (svmMeta m)}"
    by (auto simp: storageVersionMigrationLister_List_def ms ListAll_migrations)
qed

lemma state_lister:
  assumes "stateCache.cached c (stateCache.served w)" "fake_wf w" "enumerates ord"
  shows "storageStateLister_Get n c =
      (case fake_states w n of None \<Rightarrow> Inl (NewNotFound GroupName ''storagestate'' n) | Some s \<Rightarrow> Inr s)"
    "\<exists>ss. storageStateLister_List ord selector c = Inr ss \<and> distinct ss
       \<and> set ss = {s \<in> ran (fake_states w). selected selector (ssMeta s)}"
proof -
  let ?v = "stateCache.served w"
  have v: "?v = (\<lambda>n. map_option GoState (fake_states w n))" using states_served [OF assms(2)] by (simp add: fun_eq_iff)
  have "tsItems c = ?v" using assms(1) by (simp add: stateCache.cached_def)
  then show "storageStateLister_Get n c =
      (case fake_states w n of None \<Rightarrow> Inl (NewNotFound GroupName ''storagestate'' n) | Some s \<Rightarrow> Inr s)"
    by (simp add: storageStateLister_Get_def v split: option.splits)
  have set: "set (storeList ord c) = GoState ` ran (fake_states w)"
    using stateCache.storeList_set [OF assms(1,3)] by (simp add: v map_option_ran)
  then obtain ss where ss: "storeList ord c = map GoState ss" using constructor_image [of "storeList ord c" GoState] by auto
  have "distinct ss"
    using stateCache.storeList_distinct [OF assms(1,3) stateCache.served_name [OF assms(2)]] ss distinct_names by metis
  moreover have "set ss = ran (fake_states w)" using set by (simp add: ss inj_image_eq_iff [of GoState] inj_def)
  ultimately show "\<exists>ss. storageStateLister_List ord selector c = Inr ss \<and> distinct ss
       \<and> set ss = {s \<in> ran (fake_states w). selected selector (ssMeta s)}"
    by (auto simp: storageStateLister_List_def ss ListAll_states)
qed

lemma status_values: "(\<exists>vs. migrationStatusIndexFunc (GoSVM m) = Inr vs \<and> u \<in> set vs) \<longleftrightarrow> migrationStatusIndexFunc (GoSVM m) = Inr [u]"
  by auto

lemma Some_image: "{Some x | x. x \<in> f ` R \<and> P x} = {Some (f m) | m. m \<in> R \<and> P (f m)}"
  by auto

lemma migration_ByIndex:
  assumes "migrationCache.cached c (migrationCache.served w)" "fake_wf w" "enumerates ord"
  shows "\<exists>l. tsByIndex ord StatusIndex cls c = Inr l
       \<and> set l = {Some (GoSVM m) | m. m \<in> ran (fake_migs w) \<and> migrationStatusIndexFunc (GoSVM m) = Inr [cls]}"
    "\<exists>l. tsByIndex ord ResourceIndex r c = Inr l
       \<and> set l = {Some (GoSVM m) | m. m \<in> ran (fake_migs w) \<and> ToIndex (svmResource m) = r}"
proof -
  have ran: "ran (migrationCache.served w) = GoSVM ` ran (fake_migs w)"
    using migrations_served [OF assms(2)] map_option_ran [of GoSVM "fake_migs w"] by presburger
  have ixs: "map_of statusAndResourceIndexers StatusIndex = Some migrationStatusIndexFunc"
    "map_of statusAndResourceIndexers ResourceIndex = Some migrationResourceIndexFunc"
    by (simp_all add: statusAndResourceIndexers_def index_name_defs)
  from migrationCache.cached_ByIndex [OF assms(1,3) ixs(1), of cls]
  show "\<exists>l. tsByIndex ord StatusIndex cls c = Inr l
       \<and> set l = {Some (GoSVM m) | m. m \<in> ran (fake_migs w) \<and> migrationStatusIndexFunc (GoSVM m) = Inr [cls]}"
    unfolding ran Some_image status_values .
  from migrationCache.cached_ByIndex [OF assms(1,3) ixs(2), of r]
  show "\<exists>l. tsByIndex ord ResourceIndex r c = Inr l
       \<and> set l = {Some (GoSVM m) | m. m \<in> ran (fake_migs w) \<and> ToIndex (svmResource m) = r}"
    unfolding ran Some_image by auto
qed

lemma state_informer_follows:
  assumes "fake_wf w" "listable storagestatesResource (fcTracker w)" "enumerates ord"
  shows "\<exists>si i w1. ListAndWatch secs (storageStateInformer_defaultInformer \<lparr>stTweakListOptions = None\<rparr> (fakeInterface sel) d) w
        = Some (Inr (si, i), w1)
    \<and> (\<forall>calls rs w2. serverCalls calls w1 = (rs, w2) \<longrightarrow>
         (\<exists>c. handleEvents (map cacheEventOf (received i w2)) (siIndexer si) = Some c
          \<and> (\<forall>n. storageStateLister_Get n c =
               (case fake_states w2 n of None \<Rightarrow> Inl (NewNotFound GroupName ''storagestate'' n) | Some s \<Rightarrow> Inr s))
          \<and> (\<exists>ss. storageStateLister_List ord selector c = Inr ss \<and> distinct ss
               \<and> set ss = {s \<in> ran (fake_states w2). selected selector (ssMeta s)})))"
proof -
  have new: "storageStateInformer_defaultInformer \<lparr>stTweakListOptions = None\<rparr> (fakeInterface sel) d
      = NewStorageStateInformer (fakeInterface sel) d [(NamespaceIndex, MetaNamespaceIndexFunc)]"
    by (simp add: storageStateInformer_defaultInformer_def NewStorageStateInformer_def)
  let ?si = "NewStorageStateInformer (fakeInterface sel) d [(NamespaceIndex, MetaNamespaceIndexFunc)]"
  from stateCache.list_and_watch [OF assms(1,2) informer_indexer(2) state_informer_list [OF assms(1,2)] informer_watch(2)]
  obtain c0 i w1 where start: "ListAndWatch secs ?si w = Some (Inr (?si\<lparr>siIndexer := c0\<rparr>, i), w1)"
    and c0: "stateCache.cached c0 (stateCache.served w1)" "fake_wf w1"
      "watching i storagestatesResource (fcTracker w1)" "received i w1 = []" by blast
  note lister = state_lister [OF _ _ assms(3)]
  show ?thesis unfolding new
  proof (rule exI [of _ "?si\<lparr>siIndexer := c0\<rparr>"], rule exI [of _ i], rule exI [of _ w1], intro conjI allI impI start)
    fix calls rs w2
    assume "serverCalls calls w1 = (rs, w2)"
    from stateCache.follows [OF c0 this] obtain c where
      run: "handleEvents (map cacheEventOf (received i w2)) c0 = Some c"
      and c: "stateCache.cached c (stateCache.served w2)" "fake_wf w2" by blast
    show "\<exists>c. handleEvents (map cacheEventOf (received i w2)) (siIndexer (?si\<lparr>siIndexer := c0\<rparr>)) = Some c
          \<and> (\<forall>n. storageStateLister_Get n c =
               (case fake_states w2 n of None \<Rightarrow> Inl (NewNotFound GroupName ''storagestate'' n) | Some s \<Rightarrow> Inr s))
          \<and> (\<exists>ss. storageStateLister_List ord selector c = Inr ss \<and> distinct ss
               \<and> set ss = {s \<in> ran (fake_states w2). selected selector (ssMeta s)})"
      by (intro exI [of _ c] conjI allI lister [OF c]) (simp add: run)
  qed
qed


text \<open>The migration of the example world is deleted and another one is created.\<close>

definition exampleCalls :: "clientCall list" where
  "exampleCalls = [DeleteMigration ''pods'', CreateMigration cachedMigration, DeleteMigration ''none'']"

lemma exampleWorld_listable: "listable storageversionmigrationsResource (fcTracker exampleWorld)"
  by (simp add: listable_def exampleWorld_def NewSimpleClientset_def tAdd_def tAdd_obj_def tNotify_def Let_def
      exampleMigration_def exampleState_def zeroObjectMeta_def)


end
