(* ===== verification/Spec2Isabelle.thy ===== *)
theory Spec2Isabelle
  imports Core_Correct Migrate_List Commands Init_Correct Deep_Copy_Correct Informer_Correct
begin

text \<open>
  The program keeps the objects of a Kubernetes cluster encoded in the storage version of the
  API server. Three processes share two custom resources, \<open>StorageVersionMigration\<close> (a request to
  migrate one resource, with its progress and outcome) and \<open>StorageState\<close> (the storage versions
  in which objects of a resource may still be encoded).

  \<^item> The \<^emph>\<open>initializer\<close> (\<open>pkg/initializer\<close>) installs the custom resource definition and creates one
    migration per resource that may need one.
  \<^item> The \<^emph>\<open>trigger\<close> (\<open>pkg/trigger\<close>) polls the discovery document, records the storage version hashes
    in the StorageStates, launches a migration when a hash changed, and marks the StorageState
    migrated when the migration has succeeded.
  \<^item> The \<^emph>\<open>migrator\<close> (\<open>pkg/controller\<close>, \<open>pkg/migrator\<close>) picks one migration at a time, lists the objects of
    its resource in chunks, writes every object back, saves the continue token after each
    chunk, and records the outcome in the status of the migration.

  The processes interact only through the objects on the API server, which they read through
  typed clients, a dynamic client and informer caches (\<open>pkg/clients\<close> and the vendored client-go).

  \<^bold>\<open>How code is modelled.\<close> A Go call that reaches a server is a function on a world \<open>'w\<close> of type
  \<open>('w, 'a) call\<close> (theory \<open>Prelude\<close>); a pair of a value and an error is a sum, \<open>Inl\<close> for a non-nil error;
  structs are records, whose field names carry a prefix; interfaces are records of calls.
  What the program relies on of a server or of a vendored component is a locale over such a record
  (theory \<open>Client_Interfaces\<close>): the store it holds, an invariant, and for each call what it returns
  and stores, with room for the interference of other clients. The vendored fakes and
  caches are modelled from their sources and interpret these locales, so no contract is
  empty. Loops that may run forever are partial functions into \<open>option\<close>, where \<open>None\<close> means that the call
  does not return; loops with a bound are recursive functions. Goroutines are step
  relations whose steps are the synchronisations and the calls to the server. The only fuels are
  counters the code has itself: the steps of a backoff, the ticks of a poll, and the number of rounds before
  the context of \<open>KubeMigrator.Run\<close> is cancelled.

  \<^bold>\<open>The theories, from the bottom up.\<close>

  \<^descr>[\<open>Prelude\<close>] Results, calls, Go's package \<open>strings\<close>, association lists, the collections of
    simplification rules.
  \<^descr>[\<open>Go_Errors\<close>] \<open>pkg/migrator/errors.go\<close> over the vendored error predicates (\<open>api/errors\<close>, \<open>util/net\<close>,
    \<open>util/errors\<close>): which errors \<open>canRetry\<close> retries.
  \<^descr>[\<open>Api_Types\<close>] \<open>pkg/apis/migration/v1alpha1/types.go\<close>, \<open>register.go\<close> and the vendored group, version and
    resource types.
  \<^descr>[\<open>Json_Codec\<close>] The JSON form of the objects, from the tags of the types, and its round trip.
  \<^descr>[\<open>Crd_Schema\<close>] \<open>migrationCRD\<close> of \<open>initializer.go\<close>: the installed schema declares everything the types write.
  \<^descr>[\<open>Backoff\<close>] The vendored \<open>wait.Backoff\<close>, \<open>ExponentialBackoff\<close> and \<open>retry.RetryOnConflict\<close>: delays, bounds and
    rules for the attempts a loop makes.
  \<^descr>[\<open>Client_Interfaces\<close>] The client interfaces and their contracts.
  \<^descr>[\<open>Conditions\<close>, \<open>Index_Store\<close>] \<open>pkg/controller/helpers.go\<close>, \<open>indexer.go\<close> and the vendored
    \<open>thread_safe_store.go\<close> under the informers: a lookup by index returns exactly the cached objects with that
    index value.
  \<^descr>[\<open>Fake_Clientset\<close>, \<open>Fake_Lists\<close>, \<open>Fake_Dynamic\<close>] The generated fake clients over the vendored object tracker, and
    the fake dynamic client: the instances of the client contracts.
  \<^descr>[\<open>Metrics\<close>, \<open>Progress\<close>] \<open>pkg/migrator/metrics/metrics.go\<close> and \<open>progress.go\<close>.
  \<^descr>[\<open>Core_Migrator\<close>, \<open>Core_Correct\<close>] \<open>pkg/migrator/core.go\<close>: \<open>Run\<close> leaves no stale object, resumes from a saved
    token, and terminates when failures are bounded.
  \<^descr>[\<open>Migrate_List\<close>] The goroutines of \<open>migrateList\<close> under every schedule: soundness, no deadlock, and
    with one worker the sequential function of \<open>Core_Migrator\<close>.
  \<^descr>[\<open>Kube_Migrator\<close>] \<open>pkg/controller/kubemigrator.go\<close>: conditions are exclusive, and Succeeded is recorded only
    after a complete run.
  \<^descr>[\<open>Trigger_Migration\<close>, \<open>Trigger_Discovery\<close>, \<open>Trigger_Correct\<close>] \<open>migration_handler.go\<close> and \<open>discovery_handler.go\<close> of
    \<open>pkg/trigger\<close>: what a successful update writes, when a migration is launched, and that the
    current hash never leaves the persisted hashes.
  \<^descr>[\<open>Work_Queue\<close>, \<open>Trigger_Controller\<close>] The vendored work queue and \<open>pkg/trigger/controller.go\<close>: event handlers,
    \<open>dequeue\<close> and the main loop under every interleaving, with the invariant of the hashes along every run.
  \<^descr>[\<open>Init_Discovery\<close>, \<open>Initializer\<close>, \<open>Init_Correct\<close>] \<open>pkg/initializer\<close>: the resources it finds, the installed
    definition, the launched migrations.
  \<^descr>[\<open>Go_Path\<close>, \<open>Rest_Request\<close>, \<open>Rest_Client\<close>, \<open>Rest_Correct\<close>] The generated REST clients of \<open>pkg/clients/clientset\<close> over the vendored
    request builder: against a server that keeps its objects in the tracker they agree with the fake clientset on
    every sequence of calls, and malformed names are never sent.
  \<^descr>[\<open>Deep_Copy\<close>, \<open>Deep_Copy_Correct\<close>] \<open>zz_generated.deepcopy.go\<close> on a heap: a copy has the value of the original and
    shares no memory with it.
  \<^descr>[\<open>Informer\<close>, \<open>Informer_Factory\<close>, \<open>Informer_Correct\<close>] The generated informers and listers of \<open>pkg/clients\<close> over the list and
    watch of the vendored reflector, and the shared informer factory with its goroutines: every informer is shared by
    its clients and run once, and a cache follows every change on the server.
  \<^descr>[\<open>Commands\<close>] The \<open>run\<close> functions under \<open>cmd/\<close>: from the configuration to the controllers, and how they end.
  \<^bold>\<open>Bounds.\<close> Times and durations are integers of nanoseconds; the rate limiter writes out the overflow of the 64 bit
  duration that the Go code tests for. The random jitter of a backoff is a parameter of the runtime.
  The iteration order of a Go map is a parameter where a result depends on it.

  \<^bold>\<open>Not modelled.\<close> Logging has no effect on the modelled state and is left out. The context argument is modelled only where the
  program cancels it (\<open>migrateList\<close>, the main loops). The registration of the metrics with prometheus, the HTTP servers
  for metrics and health, the parsing of flags and the loading of a kubeconfig are input and output around the
  controllers. The registration of the types with the scheme (\<open>register.go\<close>) fills a table of the vendored serializer, which
  the JSON codec stands for. \<open>Patch\<close> of the fake clients applies a patch with a vendored library. The reflector of an informer is
  modelled for one list and watch; that it starts over after an error is not. The end to end tests under \<open>test/\<close> drive
  a live cluster.
\<close>

end
